theory Spec2Isabelle
  imports Complex_Main "HOL-Library.AList" "HOL-Library.Code_Target_Nat"
begin

section \<open>Errors and results\<close>

text \<open>
  Every exception the program can raise, and the exit through \<open>sys.exit\<close>, is a value of
  \<open>error\<close>; a computation that can raise returns \<open>error + 'a\<close> with \<open>Inl\<close> for the exception.
\<close>

datatype error =
    SystemExit int
  | AttributeError string
  | UnboundLocalError string
  | AssertionError
  | ValueError
  | IndexError
  | ZeroDivisionError
  | LinAlgError
  | MemoryError
  | OSError

definition and_then :: "error + 'a \<Rightarrow> ('a \<Rightarrow> error + 'b) \<Rightarrow> error + 'b" where
  "and_then r f = (case r of Inl e \<Rightarrow> Inl e | Inr v \<Rightarrow> f v)"

fun fold_err :: "('a \<Rightarrow> 's \<Rightarrow> error + 's) \<Rightarrow> 'a list \<Rightarrow> 's \<Rightarrow> error + 's" where
  "fold_err f [] s = Inr s"
| "fold_err f (a # as) s = (case f a s of Inl e \<Rightarrow> Inl e | Inr s' \<Rightarrow> fold_err f as s')"

section \<open>Floating-point values\<close>

text \<open>
  A Python \<open>float\<close>: a number, one of the two infinities, or not-a-number. The numbers are
  real numbers: the model computes exactly where the program rounds. The operations are
  those the loop applies to the objective: \<open>a - b\<close>, \<open>a + b\<close>, \<open>a / 2\<close>, and the comparisons
  \<open>a >= b\<close> and \<open>a < b\<close>, both false as soon as one side is not-a-number.
\<close>

datatype pyfloat = Fin real | PInf | NInf | NaN

fun float_add :: "pyfloat \<Rightarrow> pyfloat \<Rightarrow> pyfloat" where
  "float_add (Fin a) (Fin b) = Fin (a + b)"
| "float_add NaN b = NaN"
| "float_add a NaN = NaN"
| "float_add PInf NInf = NaN"
| "float_add NInf PInf = NaN"
| "float_add PInf b = PInf"
| "float_add NInf b = NInf"
| "float_add (Fin a) b = b"

fun float_neg :: "pyfloat \<Rightarrow> pyfloat" where
  "float_neg (Fin a) = Fin (- a)"
| "float_neg PInf = NInf"
| "float_neg NInf = PInf"
| "float_neg NaN = NaN"

definition float_sub :: "pyfloat \<Rightarrow> pyfloat \<Rightarrow> pyfloat" where
  "float_sub a b = float_add a (float_neg b)"

fun float_half :: "pyfloat \<Rightarrow> pyfloat" where
  "float_half (Fin a) = Fin (a / 2)"
| "float_half a = a"

fun float_ge :: "pyfloat \<Rightarrow> pyfloat \<Rightarrow> bool" where
  "float_ge (Fin a) (Fin b) \<longleftrightarrow> b \<le> a"
| "float_ge NaN b \<longleftrightarrow> False"
| "float_ge a NaN \<longleftrightarrow> False"
| "float_ge PInf b \<longleftrightarrow> True"
| "float_ge a NInf \<longleftrightarrow> True"
| "float_ge a b \<longleftrightarrow> False"

fun float_lt :: "pyfloat \<Rightarrow> pyfloat \<Rightarrow> bool" where
  "float_lt (Fin a) (Fin b) \<longleftrightarrow> a < b"
| "float_lt NaN b \<longleftrightarrow> False"
| "float_lt a NaN \<longleftrightarrow> False"
| "float_lt PInf b \<longleftrightarrow> False"
| "float_lt a NInf \<longleftrightarrow> False"
| "float_lt a b \<longleftrightarrow> True"

section \<open>Command line arguments\<close>

datatype direction = Forward | Backward | Union

datatype side = Src | Trg

text \<open>
  The namespace \<open>parser.parse_args()\<close> returns: one field per argument the parser of
  \<open>main\<close> declares (lines 35 to 71), and no other. \<open>dictionary = None\<close> stands for the
  default, the file number of standard input. The threshold is any value \<open>float\<close> reads from
  the command line, \<open>nan\<close> and \<open>inf\<close> included.
\<close>

record args =
  src_input :: string
  trg_input :: string
  src_output :: string
  trg_output :: string
  encoding :: string
  precision :: string
  cuda :: bool
  num_words :: "int option"
  dictionary :: "string option"
  test_dict :: "string option"
  normalize_arg :: "string list"
  orthogonal :: bool
  unconstrained :: bool
  self_learning :: bool
  direction :: direction
  numerals :: bool
  identical :: bool
  threshold :: pyfloat
  validation :: "string option"
  log_arg :: "string option"
  verbose :: bool
  lapmod :: bool
  lapmod_chunk_size :: int
  lap_repeats :: int
  lap_prop :: string
  lap_rank :: "int option"
  whiten :: bool
  src_reweight :: real
  trg_reweight :: real
  src_dewhiten :: "side option"
  trg_dewhiten :: "side option"
  dim_reduction :: int

datatype arg_value = VNone | VBool bool | VInt int | VFloat pyfloat | VStr string | VList "string list"

definition opt_value :: "('a \<Rightarrow> arg_value) \<Rightarrow> 'a option \<Rightarrow> arg_value" where
  "opt_value f v = (case v of None \<Rightarrow> VNone | Some y \<Rightarrow> f y)"

definition direction_name :: "direction \<Rightarrow> string" where
  "direction_name d = (case d of Forward \<Rightarrow> ''forward'' | Backward \<Rightarrow> ''backward'' | Union \<Rightarrow> ''union'')"

definition side_name :: "side \<Rightarrow> string" where
  "side_name s = (case s of Src \<Rightarrow> ''src'' | Trg \<Rightarrow> ''trg'')"

text \<open>
  The attributes of the namespace, by name: \<open>vars(args)\<close>. Argparse stores each argument
  under its destination name (\<open>--num-words\<close> under \<open>num_words\<close>, \<open>--log\<close> under \<open>log\<close>).
\<close>

definition namespace :: "args \<Rightarrow> (string \<times> arg_value) list" where
  "namespace a =
    [(''src_input'', VStr (src_input a)),
     (''trg_input'', VStr (trg_input a)),
     (''src_output'', VStr (src_output a)),
     (''trg_output'', VStr (trg_output a)),
     (''encoding'', VStr (encoding a)),
     (''precision'', VStr (precision a)),
     (''cuda'', VBool (cuda a)),
     (''num_words'', opt_value VInt (num_words a)),
     (''dictionary'', opt_value VStr (dictionary a)),
     (''test_dict'', opt_value VStr (test_dict a)),
     (''normalize'', VList (normalize_arg a)),
     (''orthogonal'', VBool (orthogonal a)),
     (''unconstrained'', VBool (unconstrained a)),
     (''self_learning'', VBool (self_learning a)),
     (''direction'', VStr (direction_name (direction a))),
     (''numerals'', VBool (numerals a)),
     (''identical'', VBool (identical a)),
     (''threshold'', VFloat (threshold a)),
     (''validation'', opt_value VStr (validation a)),
     (''log'', opt_value VStr (log_arg a)),
     (''verbose'', VBool (verbose a)),
     (''lapmod'', VBool (lapmod a)),
     (''lapmod_chunk_size'', VInt (lapmod_chunk_size a)),
     (''lap_repeats'', VInt (lap_repeats a)),
     (''lap_prop'', VStr (lap_prop a)),
     (''lap_rank'', opt_value VInt (lap_rank a)),
     (''whiten'', VBool (whiten a)),
     (''src_reweight'', VFloat (Fin (src_reweight a))),
     (''trg_reweight'', VFloat (Fin (trg_reweight a))),
     (''src_dewhiten'', opt_value (\<lambda>s. VStr (side_name s)) (src_dewhiten a)),
     (''trg_dewhiten'', opt_value (\<lambda>s. VStr (side_name s)) (trg_dewhiten a)),
     (''dim_reduction'', VInt (dim_reduction a))]"

text \<open>Reading \<open>args.name\<close>: an attribute the namespace does not have raises AttributeError.\<close>

definition getattr :: "args \<Rightarrow> string \<Rightarrow> error + arg_value" where
  "getattr a name =
    (case map_of (namespace a) name of
       None \<Rightarrow> Inl (AttributeError name)
     | Some v \<Rightarrow> Inr v)"

section \<open>Arrays\<close>

text \<open>
  A two-dimensional array with its shape, as the array library keeps it: \<open>nrows\<close> and
  \<open>ncols\<close> are \<open>shape[0]\<close> and \<open>shape[1]\<close>, \<open>rows\<close> the entries, row by row. The entries are
  real numbers: the model computes exactly where the program rounds.
\<close>

datatype mat = Mat (nrows: nat) (ncols: nat) (rows: "real list list")

definition wf_mat :: "mat \<Rightarrow> bool" where
  "wf_mat A \<longleftrightarrow> length (rows A) = nrows A \<and> list_all (\<lambda>r. length r = ncols A) (rows A)"

definition entry :: "mat \<Rightarrow> nat \<Rightarrow> nat \<Rightarrow> real" where
  "entry A i j = rows A ! i ! j"

definition build :: "nat \<Rightarrow> nat \<Rightarrow> (nat \<Rightarrow> nat \<Rightarrow> real) \<Rightarrow> mat" where
  "build n m f = Mat n m (map (\<lambda>i. map (\<lambda>j. f i j) [0..<m]) [0..<n])"

text \<open>\<open>A.T\<close>\<close>

definition transpose_mat :: "mat \<Rightarrow> mat" where
  "transpose_mat A = build (ncols A) (nrows A) (\<lambda>i j. entry A j i)"

text \<open>\<open>A.dot(B)\<close>: the inner dimensions must agree.\<close>

definition dot_raw :: "mat \<Rightarrow> mat \<Rightarrow> mat" where
  "dot_raw A B =
     build (nrows A) (ncols B) (\<lambda>i j. \<Sum>k\<leftarrow>[0..<ncols A]. entry A i k * entry B k j)"

definition dot :: "mat \<Rightarrow> mat \<Rightarrow> error + mat" where
  "dot A B = (if ncols A = nrows B then Inr (dot_raw A B) else Inl ValueError)"

text \<open>
  \<open>A[indices]\<close> with a list of row positions. The lists the program indexes with hold
  positions from the word index maps or from \<open>argmax\<close>, so they are never negative.
\<close>

definition take_rows :: "mat \<Rightarrow> nat list \<Rightarrow> error + mat" where
  "take_rows A indices =
     (if list_all (\<lambda>i. i < nrows A) indices
      then Inr (Mat (length indices) (ncols A) (map (\<lambda>i. rows A ! i) indices))
      else Inl IndexError)"

text \<open>\<open>A[i:j]\<close> and \<open>A[:, :k]\<close> with \<open>0 \<le> i\<close>, \<open>0 \<le> j\<close>, \<open>0 \<le> k\<close>: a slice is clipped, never an error.\<close>

definition slice_rows :: "mat \<Rightarrow> nat \<Rightarrow> nat \<Rightarrow> mat" where
  "slice_rows A i j = Mat (min j (nrows A) - i) (ncols A) (take (j - i) (drop i (rows A)))"

definition slice_cols :: "mat \<Rightarrow> nat \<Rightarrow> mat" where
  "slice_cols A k = Mat (nrows A) (min k (ncols A)) (map (take k) (rows A))"

text \<open>\<open>xp.diag(v)\<close> of a vector, and the identity matrix.\<close>

definition diag :: "real list \<Rightarrow> mat" where
  "diag v = build (length v) (length v) (\<lambda>i j. if i = j then v ! i else 0)"

definition eye :: "nat \<Rightarrow> mat" where
  "eye n = build n n (\<lambda>i j. if i = j then 1 else 0)"

text \<open>
  \<open>A *= v\<close> with a vector \<open>v\<close>: broadcasting multiplies column \<open>j\<close> by \<open>v[j]\<close>; the vector is
  as long as the rows or has one element.
\<close>

definition scale_cols :: "mat \<Rightarrow> real list \<Rightarrow> error + mat" where
  "scale_cols A v =
     (if length v = ncols A then Inr (build (nrows A) (ncols A) (\<lambda>i j. entry A i j * v ! j))
      else if length v = 1 then Inr (build (nrows A) (ncols A) (\<lambda>i j. entry A i j * v ! 0))
      else Inl ValueError)"

text \<open>
  \<open>xp.mean(v)\<close> and \<open>np.mean(v)\<close>: of an empty vector or list the array library returns
  not-a-number (with a warning, not an exception).
\<close>

definition mean :: "real list \<Rightarrow> pyfloat" where
  "mean v = (if v = [] then NaN else Fin (sum_list v / real (length v)))"

text \<open>
  \<open>argmax\<close> of a vector: the position of the first greatest element.
\<close>

fun argmax_list :: "real list \<Rightarrow> nat" where
  "argmax_list [] = 0"
| "argmax_list [x] = 0"
| "argmax_list (x # y # ys) =
     (let m = argmax_list (y # ys) in if x < (y # ys) ! m then Suc m else 0)"

text \<open>\<open>S.argmax(axis=1)\<close> and \<open>S.argmax(axis=0)\<close>; the axis searched must not be empty.\<close>

definition argmax_axis1 :: "mat \<Rightarrow> error + nat list" where
  "argmax_axis1 S = (if ncols S = 0 then Inl ValueError else Inr (map argmax_list (rows S)))"

definition argmax_axis0 :: "mat \<Rightarrow> error + nat list" where
  "argmax_axis0 S =
     (if nrows S = 0 then Inl ValueError else Inr (map argmax_list (rows (transpose_mat S))))"

section \<open>The array backend\<close>

text \<open>
  The linear algebra the program takes from the array library \<open>xp\<close> (NumPy or CuPy), which
  is no part of the repository: the singular value decomposition
  \<open>xp.linalg.svd(m, full_matrices=b)\<close>, returning \<open>(u, s, vt)\<close>, the inverse
  \<open>xp.linalg.inv(m)\<close>, the power \<open>s ** e\<close> of a singular value, and the allocation of a
  vector of a given length. Both linear algebra routines can raise.
\<close>

record backend =
  linalg_svd :: "bool \<Rightarrow> mat \<Rightarrow> error + (mat \<times> real list \<times> mat)"
  linalg_inv :: "mat \<Rightarrow> error + mat"
  float_power :: "real \<Rightarrow> real \<Rightarrow> real"
  alloc_error :: "nat \<Rightarrow> error option"

text \<open>
  \<open>xp.full(n, c)\<close>: a vector of \<open>n\<close> copies of \<open>c\<close>. A negative length is refused with
  ValueError. A length the library cannot give an array for (beyond its greatest array
  size, or beyond the memory there is) is refused too, with ValueError or MemoryError:
  \<open>alloc_error xp n\<close> is the error for the length \<open>n\<close>, and \<open>None\<close> when the library gives the
  vector.
\<close>

definition full :: "backend \<Rightarrow> int \<Rightarrow> real \<Rightarrow> error + real list" where
  "full xp n c =
     (if n < 0 then Inl ValueError
      else case alloc_error xp (nat n) of
             Some e \<Rightarrow> Inl e
           | None \<Rightarrow> Inr (replicate (nat n) c))"

section \<open>The mapping step\<close>

text \<open>Lines 202 to 206: the orthogonal mapping.\<close>

definition procrustes_matrix :: "mat \<Rightarrow> mat \<Rightarrow> nat list \<Rightarrow> nat list \<Rightarrow> error + mat" where
  "procrustes_matrix x z src_indices trg_indices =
     and_then (take_rows z trg_indices) (\<lambda>zd.
     and_then (take_rows x src_indices) (\<lambda>xd.
       dot (transpose_mat zd) xd))"

definition orthogonal_w :: "backend \<Rightarrow> mat \<Rightarrow> mat \<Rightarrow> nat list \<Rightarrow> nat list \<Rightarrow> error + mat" where
  "orthogonal_w xp x z src_indices trg_indices =
     and_then (procrustes_matrix x z src_indices trg_indices) (\<lambda>m.
     and_then (linalg_svd xp True m) (\<lambda>(u, s, vt).
       dot (transpose_mat vt) (transpose_mat u)))"

definition orthogonal_mapping ::
  "backend \<Rightarrow> mat \<Rightarrow> mat \<Rightarrow> nat list \<Rightarrow> nat list \<Rightarrow> error + (mat \<times> mat)" where
  "orthogonal_mapping xp x z src_indices trg_indices =
     and_then (orthogonal_w xp x z src_indices trg_indices) (\<lambda>w.
     and_then (dot x w) (\<lambda>xw.
       Inr (xw, z)))"

text \<open>Lines 207 to 211: the unconstrained mapping.\<close>

definition unconstrained_mapping ::
  "backend \<Rightarrow> mat \<Rightarrow> mat \<Rightarrow> nat list \<Rightarrow> nat list \<Rightarrow> error + (mat \<times> mat)" where
  "unconstrained_mapping xp x z src_indices trg_indices =
     and_then (take_rows x src_indices) (\<lambda>xd.
     and_then (dot (transpose_mat xd) xd) (\<lambda>g.
     and_then (linalg_inv xp g) (\<lambda>gi.
     and_then (dot gi (transpose_mat xd)) (\<lambda>x_pseudoinv.
     and_then (take_rows z trg_indices) (\<lambda>zd.
     and_then (dot x_pseudoinv zd) (\<lambda>w.
     and_then (dot x w) (\<lambda>xw.
       Inr (xw, z))))))))"

text \<open>
  Lines 217 to 219. \<open>1/s\<close> is taken entry by entry; for a singular value 0 the array
  library gives infinity, the reals of the model give 0.
\<close>

definition whitening_transformation :: "backend \<Rightarrow> mat \<Rightarrow> error + mat" where
  "whitening_transformation xp m =
     and_then (linalg_svd xp False m) (\<lambda>(u, s, vt).
     and_then (dot (transpose_mat vt) (diag (map (\<lambda>\<sigma>. 1 / \<sigma>) s))) (\<lambda>a.
       dot a vt))"

text \<open>Lines 236 to 244: the factor de-whitening multiplies with.\<close>

definition dewhiten_factor :: "backend \<Rightarrow> string \<Rightarrow> mat option \<Rightarrow> mat \<Rightarrow> error + mat" where
  "dewhiten_factor xp name w1 w2 =
     (case w1 of
        None \<Rightarrow> Inl (UnboundLocalError name)
      | Some w1' \<Rightarrow>
          and_then (linalg_inv xp w1') (\<lambda>w1i.
          and_then (dot (transpose_mat w2) w1i) (\<lambda>a.
            dot a w2)))"

definition dewhiten ::
  "backend \<Rightarrow> side option \<Rightarrow> mat option \<Rightarrow> mat option \<Rightarrow> mat \<Rightarrow> mat \<Rightarrow> mat \<Rightarrow> error + mat" where
  "dewhiten xp choice wx1 wz1 wx2 wz2 m =
     (case choice of
        Some Src \<Rightarrow> and_then (dewhiten_factor xp ''wx1'' wx1 wx2) (dot m)
      | Some Trg \<Rightarrow> and_then (dewhiten_factor xp ''wz1'' wz1 wz2) (dot m)
      | None \<Rightarrow> Inr m)"

text \<open>Lines 212 to 249: the advanced mapping.\<close>

definition advanced_mapping ::
  "backend \<Rightarrow> args \<Rightarrow> mat \<Rightarrow> mat \<Rightarrow> nat list \<Rightarrow> nat list \<Rightarrow> error + (mat \<times> mat)" where
  "advanced_mapping xp a x z src_indices trg_indices =
     and_then
       (if whiten a then
          and_then (take_rows x src_indices) (\<lambda>xd.
          and_then (whitening_transformation xp xd) (\<lambda>wx1.
          and_then (take_rows z trg_indices) (\<lambda>zd.
          and_then (whitening_transformation xp zd) (\<lambda>wz1.
          and_then (dot x wx1) (\<lambda>xw.
          and_then (dot z wz1) (\<lambda>zw.
            Inr (xw, zw, Some wx1, Some wz1)))))))
        else Inr (x, z, None, None))
       (\<lambda>(xw1, zw1, wx1, wz1).
     and_then (take_rows xw1 src_indices) (\<lambda>xd.
     and_then (take_rows zw1 trg_indices) (\<lambda>zd.
     and_then (dot (transpose_mat xd) zd) (\<lambda>c.
     and_then (linalg_svd xp True c) (\<lambda>(wx2, s, wz2_t).
     let wz2 = transpose_mat wz2_t in
     and_then (dot xw1 wx2) (\<lambda>xw2.
     and_then (dot zw1 wz2) (\<lambda>zw2.
     and_then (scale_cols xw2 (map (\<lambda>\<sigma>. float_power xp \<sigma> (src_reweight a)) s)) (\<lambda>xw3.
     and_then (scale_cols zw2 (map (\<lambda>\<sigma>. float_power xp \<sigma> (trg_reweight a)) s)) (\<lambda>zw3.
     and_then (dewhiten xp (src_dewhiten a) wx1 wz1 wx2 wz2 xw3) (\<lambda>xw4.
     and_then (dewhiten xp (trg_dewhiten a) wx1 wz1 wx2 wz2 zw3) (\<lambda>zw4.
       if dim_reduction a > 0
       then Inr (slice_cols xw4 (nat (dim_reduction a)), slice_cols zw4 (nat (dim_reduction a)))
       else Inr (xw4, zw4))))))))))))"

definition update_mapping ::
  "backend \<Rightarrow> args \<Rightarrow> mat \<Rightarrow> mat \<Rightarrow> nat list \<Rightarrow> nat list \<Rightarrow> error + (mat \<times> mat)" where
  "update_mapping xp a x z src_indices trg_indices =
     (if orthogonal a then orthogonal_mapping xp x z src_indices trg_indices
      else if unconstrained a then unconstrained_mapping xp x z src_indices trg_indices
      else advanced_mapping xp a x z src_indices trg_indices)"

section \<open>Dictionary induction by nearest neighbours\<close>

text \<open>Lines 29 and 30.\<close>

definition MAX_DIM_X :: nat where
  "MAX_DIM_X = 10000"

definition MAX_DIM_Z :: nat where
  "MAX_DIM_Z = 10000"

text \<open>
  \<open>range(0, n, step)\<close> for a positive \<open>step\<close> (the program's steps are the two constants
  above; Python refuses a step of 0).
\<close>

definition range_step :: "nat \<Rightarrow> nat \<Rightarrow> nat list" where
  "range_step n step = map (\<lambda>b. b * step) [0..<(n + step - 1) div step]"

text \<open>
  \<open>arr[i:j][mask] = vals[mask]\<close>: the entries of \<open>arr\<close> from position \<open>i\<close> on whose mask is
  set are overwritten with the entries of \<open>vals\<close> at the same offset.
\<close>

definition masked_assign :: "'a list \<Rightarrow> nat \<Rightarrow> bool list \<Rightarrow> 'a list \<Rightarrow> 'a list" where
  "masked_assign arr i msk vals =
     map (\<lambda>p. if i \<le> p \<and> p - i < length msk \<and> msk ! (p - i) then vals ! (p - i) else arr ! p)
       [0..<length arr]"

record nn_state =
  best_sim_forward :: "real list"
  trg_indices_forward :: "nat list"
  best_sim_backward :: "real list"
  src_indices_backward :: "nat list"

text \<open>
  Lines 255 to 260 (\<open>src_indices_forward\<close> and \<open>trg_indices_backward\<close> are never updated).
  The lengths are the numbers of rows of \<open>x\<close> and \<open>z\<close>, arrays the program holds: the library
  gives vectors of these lengths.
\<close>

definition nn_init :: "nat \<Rightarrow> nat \<Rightarrow> nn_state" where
  "nn_init nx nz =
     \<lparr>best_sim_forward = replicate nx (-100),
      trg_indices_forward = replicate nx 0,
      best_sim_backward = replicate nz (-100),
      src_indices_backward = replicate nz 0\<rparr>"

text \<open>Lines 343 to 348, for the block of similarities of the rows from \<open>i\<close> and the columns from \<open>k\<close>.\<close>

definition forward_update :: "mat \<Rightarrow> nat \<Rightarrow> nat \<Rightarrow> nat \<Rightarrow> nn_state \<Rightarrow> error + nn_state" where
  "forward_update sim i j k st =
     and_then (argmax_axis1 sim) (\<lambda>ind0.
       let val = map (\<lambda>(r, c). r ! c) (zip (rows sim) ind0);
           ind = map (\<lambda>c. c + k) ind0;
           msk = map (\<lambda>(v, b). b < v) (zip val (take (j - i) (drop i (best_sim_forward st))))
       in Inr (st\<lparr>best_sim_forward := masked_assign (best_sim_forward st) i msk val,
                  trg_indices_forward := masked_assign (trg_indices_forward st) i msk ind\<rparr>))"

text \<open>Lines 350 to 355.\<close>

definition backward_update :: "mat \<Rightarrow> nat \<Rightarrow> nat \<Rightarrow> nat \<Rightarrow> nn_state \<Rightarrow> error + nn_state" where
  "backward_update sim i k l st =
     and_then (argmax_axis0 sim) (\<lambda>ind0.
       let val = map (\<lambda>(r, c). entry sim r c) (zip ind0 [0..<ncols sim]);
           ind = map (\<lambda>r. r + i) ind0;
           msk = map (\<lambda>(v, b). b < v) (zip val (take (l - k) (drop k (best_sim_backward st))))
       in Inr (st\<lparr>best_sim_backward := masked_assign (best_sim_backward st) k msk val,
                  src_indices_backward := masked_assign (src_indices_backward st) k msk ind\<rparr>))"

text \<open>Lines 341 to 355: one block.\<close>

definition nn_block ::
  "direction \<Rightarrow> mat \<Rightarrow> mat \<Rightarrow> nat \<Rightarrow> nat \<Rightarrow> nat \<Rightarrow> nat \<Rightarrow> nn_state \<Rightarrow> error + nn_state" where
  "nn_block dir xw zw i j k l st =
     and_then (dot (slice_rows xw i j) (transpose_mat (slice_rows zw k l))) (\<lambda>sim.
     and_then (if dir = Forward \<or> dir = Union then forward_update sim i j k st else Inr st) (\<lambda>st1.
       if dir = Backward \<or> dir = Union then backward_update sim i k l st1 else Inr st1))"

text \<open>
  Lines 334 to 355: the two loops over the blocks, with the block sizes as parameters;
  \<open>nx\<close> and \<open>nz\<close> are \<open>x.shape[0]\<close> and \<open>z.shape[0]\<close>.
\<close>

definition nn_search ::
  "nat \<Rightarrow> nat \<Rightarrow> direction \<Rightarrow> nat \<Rightarrow> nat \<Rightarrow> mat \<Rightarrow> mat \<Rightarrow> nn_state \<Rightarrow> error + nn_state" where
  "nn_search max_dim_x max_dim_z dir nx nz xw zw st =
     fold_err (\<lambda>i.
       fold_err (\<lambda>k. nn_block dir xw zw i (min nx (i + max_dim_x)) k (min nz (k + max_dim_z)))
         (range_step nz max_dim_z))
       (range_step nx max_dim_x) st"

text \<open>Lines 356 to 364: the induced dictionary, as the two index lists.\<close>

definition select_direction :: "direction \<Rightarrow> nat \<Rightarrow> nat \<Rightarrow> nn_state \<Rightarrow> nat list \<times> nat list" where
  "select_direction dir nx nz st =
     (case dir of
        Forward \<Rightarrow> ([0..<nx], trg_indices_forward st)
      | Backward \<Rightarrow> (src_indices_backward st, [0..<nz])
      | Union \<Rightarrow> ([0..<nx] @ src_indices_backward st, trg_indices_forward st @ [0..<nz]))"

definition induce_nn ::
  "nat \<Rightarrow> nat \<Rightarrow> direction \<Rightarrow> nat \<Rightarrow> nat \<Rightarrow> mat \<Rightarrow> mat \<Rightarrow> error + ((nat list \<times> nat list) \<times> nn_state)" where
  "induce_nn max_dim_x max_dim_z dir nx nz xw zw =
     and_then (nn_search max_dim_x max_dim_z dir nx nz xw zw (nn_init nx nz)) (\<lambda>st.
       Inr (select_direction dir nx nz st, st))"

section \<open>Dictionary induction by assignment\<close>

text \<open>
  Lines 262 to 330. With \<open>lap_rank\<close> given, line 266 asks the library for a vector of that
  length. Then the branch reads \<open>args.n_similar\<close> at line 269. What follows that read (the
  cost structure, the solver \<open>lapmod\<close> of the package \<open>lap\<close>, the matching) is the parameter
  \<open>rest\<close>, applied to \<open>n_rows\<close>, the attribute's value and \<open>best_sim_forward\<close>.
\<close>

definition induce_lapmod ::
  "backend \<Rightarrow> (int \<Rightarrow> arg_value \<Rightarrow> real list \<Rightarrow> error + ((nat list \<times> nat list) \<times> nn_state)) \<Rightarrow>
   args \<Rightarrow> mat \<Rightarrow> nn_state \<Rightarrow> error + ((nat list \<times> nat list) \<times> nn_state)" where
  "induce_lapmod xp rest a xw st =
     and_then
       (case lap_rank a of
          Some r \<Rightarrow> and_then (full xp r (-100)) (\<lambda>b. Inr (r, b))
        | None \<Rightarrow> Inr (int (nrows xw), best_sim_forward st))
       (\<lambda>(n_rows, best).
     and_then (getattr a ''n_similar'') (\<lambda>n_similar.
       rest n_rows n_similar best))"

section \<open>Self-learning\<close>

text \<open>Lines 252 to 364: the new training dictionary and the best similarities.\<close>

definition update_dictionary ::
  "backend \<Rightarrow> (int \<Rightarrow> arg_value \<Rightarrow> real list \<Rightarrow> error + ((nat list \<times> nat list) \<times> nn_state)) \<Rightarrow>
   args \<Rightarrow> nat \<Rightarrow> nat \<Rightarrow> mat \<Rightarrow> mat \<Rightarrow> error + ((nat list \<times> nat list) \<times> nn_state)" where
  "update_dictionary xp rest a nx nz xw zw =
     (if lapmod a then induce_lapmod xp rest a xw (nn_init nx nz)
      else induce_nn MAX_DIM_X MAX_DIM_Z (direction a) nx nz xw zw)"

text \<open>Lines 368 to 373.\<close>

definition objective_of :: "direction \<Rightarrow> nn_state \<Rightarrow> pyfloat" where
  "objective_of dir st =
     (case dir of
        Forward \<Rightarrow> mean (best_sim_forward st)
      | Backward \<Rightarrow> mean (best_sim_backward st)
      | Union \<Rightarrow> float_half (float_add (mean (best_sim_forward st)) (mean (best_sim_backward st))))"

section \<open>Dictionaries and coverage\<close>

text \<open>Lines 124 and 125: a later position of a repeated word overwrites an earlier one.\<close>

definition word2ind :: "string list \<Rightarrow> string \<rightharpoonup> nat" where
  "word2ind ws = fold (\<lambda>(i, w) m. m(w \<mapsto> i)) (enumerate 0 ws) Map.empty"

text \<open>
  The two lookups in a \<open>try\<close> block: \<open>None\<close> when either raises KeyError, which the program
  catches.
\<close>

definition lookup_pair ::
  "(string \<rightharpoonup> nat) \<Rightarrow> (string \<rightharpoonup> nat) \<Rightarrow> string \<Rightarrow> string \<Rightarrow> (nat \<times> nat) option" where
  "lookup_pair src_word2ind trg_word2ind src trg =
     (case src_word2ind src of
        None \<Rightarrow> None
      | Some src_ind \<Rightarrow>
          (case trg_word2ind trg of None \<Rightarrow> None | Some trg_ind \<Rightarrow> Some (src_ind, trg_ind)))"

text \<open>
  \<open>src, trg = line.split()\<close>: a line is given as the list of its words; any number of
  words but two raises ValueError.
\<close>

definition unpack_pair :: "string list \<Rightarrow> error + (string \<times> string)" where
  "unpack_pair ws = (case ws of [src, trg] \<Rightarrow> Inr (src, trg) | _ \<Rightarrow> Inl ValueError)"

text \<open>
  The dictionary \<open>validation\<close> (or \<open>src2trg\<close>), a \<open>defaultdict(set)\<close>, is the list of its
  items in the order of insertion; \<open>len\<close> of it is the length of the list.
\<close>

record coverage_state =
  entries :: "(nat \<times> nat set) list"
  oov :: "string set"
  vocab :: "string set"

text \<open>Lines 166 to 173 and 422 to 429: one line of a validation or test dictionary.\<close>

definition coverage_line ::
  "(string \<rightharpoonup> nat) \<Rightarrow> (string \<rightharpoonup> nat) \<Rightarrow> string list \<Rightarrow> coverage_state \<Rightarrow> error + coverage_state" where
  "coverage_line src_word2ind trg_word2ind line cs =
     and_then (unpack_pair line) (\<lambda>(src, trg).
       case lookup_pair src_word2ind trg_word2ind src trg of
         Some (src_ind, trg_ind) \<Rightarrow>
           Inr (cs\<lparr>entries := AList.update src_ind
                       (insert trg_ind (case map_of (entries cs) src_ind of None \<Rightarrow> {} | Some ts \<Rightarrow> ts))
                       (entries cs),
                   vocab := insert src (vocab cs)\<rparr>)
       | None \<Rightarrow> Inr (cs\<lparr>oov := insert src (oov cs)\<rparr>))"

definition read_reference ::
  "(string \<rightharpoonup> nat) \<Rightarrow> (string \<rightharpoonup> nat) \<Rightarrow> string list list \<Rightarrow> error + coverage_state" where
  "read_reference src_word2ind trg_word2ind lines =
     fold_err (coverage_line src_word2ind trg_word2ind) lines
       \<lparr>entries = [], oov = {}, vocab = {}\<rparr>"

text \<open>Lines 174 and 175, 431 and 432: the division for the coverage.\<close>

definition coverage_of :: "coverage_state \<Rightarrow> error + real" where
  "coverage_of cs =
     (let oov' = oov cs - vocab cs;
          known = length (entries cs)
      in if known + card oov' = 0 then Inl ZeroDivisionError
         else Inr (real known / real (known + card oov')))"

text \<open>
  The coverage of a reference dictionary, from its lines: the two steps that
  \<open>read_validation\<close> and \<open>evaluate_test\<close> below run one after the other.
\<close>

definition coverage ::
  "(string \<rightharpoonup> nat) \<Rightarrow> (string \<rightharpoonup> nat) \<Rightarrow> string list list \<Rightarrow> error + real" where
  "coverage src_word2ind trg_word2ind lines =
     and_then (read_reference src_word2ind trg_word2ind lines) coverage_of"

section \<open>The files and the modules outside the repository\<close>

text \<open>
  What \<open>main\<close> takes from outside: \<open>open_file\<close> opens a file for reading and gives its
  content, \<open>open_write\<close> opens a file for writing, \<open>embeddings_read\<close> is \<open>embeddings.read\<close>,
  giving the words and the matrix of an embedding file, \<open>dictionary_lines\<close> the lines of a
  dictionary file, each split into its words, \<open>supports_cupy\<close> the function of that name of
  \<open>cupy_utils\<close>, and \<open>embeddings_normalize\<close> the normalization functions of the module
  \<open>embeddings\<close>, by the name of the action. Opening and reading can raise.
\<close>

record env =
  open_file :: "string \<Rightarrow> error + string"
  open_write :: "string \<Rightarrow> error + unit"
  embeddings_read :: "string \<Rightarrow> error + (string list \<times> mat)"
  dictionary_lines :: "string option \<Rightarrow> error + string list list"
  supports_cupy :: bool
  embeddings_normalize :: "string \<Rightarrow> mat \<Rightarrow> mat"

section \<open>The training loop\<close>

text \<open>
  A line of the log: the number of the iteration, the objective, and with a validation
  dictionary the similarity, the accuracy and the coverage. The program writes them as
  percentages with six decimals, followed by the duration.
\<close>

record log_line =
  line_it :: int
  line_objective :: pyfloat
  line_validation :: "(pyfloat \<times> pyfloat \<times> real) option"

record loop_state =
  it :: int
  objective :: pyfloat
  prev_objective :: pyfloat
  src_indices :: "nat list"
  trg_indices :: "nat list"
  mapped :: "(mat \<times> mat) option"
  log_lines :: "log_line list"

text \<open>Lines 197 and 198, with the training dictionary built before.\<close>

definition initial_state :: "nat list \<Rightarrow> nat list \<Rightarrow> loop_state" where
  "initial_state src trg =
     \<lparr>it = 1, objective = Fin (-100), prev_objective = Fin (-100),
      src_indices = src, trg_indices = trg, mapped = None, log_lines = []\<rparr>"

text \<open>Line 200: the condition of the \<open>while\<close> loop.\<close>

definition continues :: "pyfloat \<Rightarrow> loop_state \<Rightarrow> bool" where
  "continues thr st \<longleftrightarrow>
     it st = 1 \<or> float_ge (float_sub (objective st) (prev_objective st)) thr"

text \<open>
  Lines 376 to 381: the accuracy and the similarity on the validation dictionary, whose
  items are \<open>val_items\<close>, in the order of \<open>validation.keys()\<close>.
\<close>

definition validation_scores ::
  "(nat \<times> nat set) list \<Rightarrow> mat \<Rightarrow> mat \<Rightarrow> error + (pyfloat \<times> pyfloat)" where
  "validation_scores val_items xw zw =
     (let src = map fst val_items in
      and_then (take_rows xw src) (\<lambda>xs.
      and_then (dot xs (transpose_mat zw)) (\<lambda>sim.
      and_then (argmax_axis1 sim) (\<lambda>nn.
        if list_all (\<lambda>(s, ts). \<forall>j\<in>ts. j < ncols sim) val_items
        then Inr (mean (map (\<lambda>i. if nn ! i \<in> snd (val_items ! i) then 1 else 0) [0..<length src]),
                  mean (map (\<lambda>i. Max ((\<lambda>j. entry sim i j) ` snd (val_items ! i))) [0..<length src]))
        else Inl IndexError))))"

text \<open>
  Lines 394 to 398: the line for the log. The variable \<open>log\<close> is bound at line 179 only
  when \<open>args.log\<close> is a path that is not empty, and used whenever \<open>args.log\<close> is not \<open>None\<close>.
\<close>

definition write_log ::
  "args \<Rightarrow> (pyfloat \<times> pyfloat \<times> real) option \<Rightarrow> loop_state \<Rightarrow> error + loop_state" where
  "write_log a val st =
     (case log_arg a of
        None \<Rightarrow> Inr st
      | Some path \<Rightarrow>
          if path = [] then Inl (UnboundLocalError ''log'')
          else Inr (st\<lparr>log_lines := log_lines st @
                 [\<lparr>line_it = it st, line_objective = objective st, line_validation = val\<rparr>]\<rparr>))"

text \<open>Line 434.\<close>

definition BATCH_SIZE :: nat where
  "BATCH_SIZE = 500"

text \<open>
  Lines 403 to 450: the evaluation against the test dictionary, run when \<open>args.test_dict\<close>
  is neither \<open>None\<close> nor the empty string. It opens the two output files, reads the
  dictionary, divides for the coverage and retrieves the nearest neighbours batch by
  batch; the translations and the accuracy are printed only.
\<close>

definition evaluate_test ::
  "env \<Rightarrow> args \<Rightarrow> (string \<rightharpoonup> nat) \<Rightarrow> (string \<rightharpoonup> nat) \<Rightarrow> mat \<Rightarrow> mat \<Rightarrow> error + unit" where
  "evaluate_test ev a src_word2ind trg_word2ind xw zw =
     (case test_dict a of
        None \<Rightarrow> Inr ()
      | Some path \<Rightarrow>
          if path = [] then Inr ()
          else
            and_then (open_write ev (src_output a)) (\<lambda>u.
            and_then (open_write ev (trg_output a)) (\<lambda>u.
            and_then (dictionary_lines ev (Some path)) (\<lambda>lines.
            and_then (read_reference src_word2ind trg_word2ind lines) (\<lambda>src2trg.
            and_then (coverage_of src2trg) (\<lambda>c.
            let src = map fst (entries src2trg) in
              fold_err (\<lambda>i u.
                and_then (take_rows xw (take BATCH_SIZE (drop i src))) (\<lambda>xs.
                and_then (dot xs (transpose_mat zw)) (\<lambda>similarities.
                and_then (argmax_axis1 similarities) (\<lambda>nn. Inr ()))))
                (range_step (length src) BATCH_SIZE) ()))))))"

text \<open>
  Lines 201 to 450: the body of the loop. \<open>val_dict\<close> is the validation dictionary with
  its coverage, \<open>None\<close> without \<open>--validation\<close>. What the program prints is left out.
\<close>

definition iteration ::
  "backend \<Rightarrow> (int \<Rightarrow> arg_value \<Rightarrow> real list \<Rightarrow> error + ((nat list \<times> nat list) \<times> nn_state)) \<Rightarrow>
   env \<Rightarrow> args \<Rightarrow> ((nat \<times> nat set) list \<times> real) option \<Rightarrow>
   (string \<rightharpoonup> nat) \<Rightarrow> (string \<rightharpoonup> nat) \<Rightarrow> mat \<Rightarrow> mat \<Rightarrow>
   loop_state \<Rightarrow> error + loop_state" where
  "iteration xp rest ev a val_dict src_word2ind trg_word2ind x z st =
     and_then (update_mapping xp a x z (src_indices st) (trg_indices st)) (\<lambda>(xw, zw).
     and_then
       (if self_learning a then
          and_then (update_dictionary xp rest a (nrows x) (nrows z) xw zw) (\<lambda>((src, trg), nn).
          let st1 = st\<lparr>src_indices := src, trg_indices := trg,
                       prev_objective := objective st,
                       objective := objective_of (direction a) nn\<rparr> in
          and_then
            (case val_dict of
               None \<Rightarrow> Inr None
             | Some (val_items, validation_coverage) \<Rightarrow>
                 and_then (validation_scores val_items xw zw) (\<lambda>(accuracy, similarity).
                   Inr (Some (similarity, accuracy, validation_coverage))))
            (\<lambda>val. write_log a val st1))
        else Inr st)
       (\<lambda>st1.
     let st2 = st1\<lparr>it := it st1 + 1, mapped := Some (xw, zw)\<rparr> in
     and_then (evaluate_test ev a src_word2ind trg_word2ind xw zw) (\<lambda>u.
       Inr st2)))"

text \<open>
  Line 200: the loop. It need not end, so its result is an option: \<open>None\<close> when it runs
  for ever, \<open>Some (Inl e)\<close> when an iteration raises \<open>e\<close>, \<open>Some (Inr st)\<close> when the
  condition fails in state \<open>st\<close>.
\<close>

partial_function (option) training_loop ::
  "(loop_state \<Rightarrow> error + loop_state) \<Rightarrow> pyfloat \<Rightarrow> loop_state \<Rightarrow> (error + loop_state) option" where
  "training_loop body thr st =
     (if continues thr st
      then (case body st of Inl e \<Rightarrow> Some (Inl e) | Inr st' \<Rightarrow> training_loop body thr st')
      else Some (Inr st))"

declare training_loop.simps [code]

text \<open>The states after \<open>n\<close> completed iterations.\<close>

inductive completed :: "(loop_state \<Rightarrow> error + loop_state) \<Rightarrow> pyfloat \<Rightarrow> loop_state \<Rightarrow> nat \<Rightarrow> loop_state \<Rightarrow> bool" where
  start: "completed body thr st0 0 st0"
| step: "completed body thr st0 n st \<Longrightarrow> continues thr st \<Longrightarrow> body st = Inr st' \<Longrightarrow>
         completed body thr st0 (Suc n) st'"

code_pred completed .

section \<open>The program\<close>

text \<open>Lines 74 to 77: the check of the command line arguments.\<close>

definition check_arguments :: "args \<Rightarrow> error + unit" where
  "check_arguments a =
     (if (src_dewhiten a \<noteq> None \<or> trg_dewhiten a \<noteq> None) \<and> \<not> whiten a
      then Inl (SystemExit (-1))
      else Inr ())"

text \<open>Lines 92 to 121: the embeddings, read and cut.\<close>

definition read_inputs :: "env \<Rightarrow> args \<Rightarrow> error + ((string list \<times> mat) \<times> (string list \<times> mat))" where
  "read_inputs ev a =
     and_then (open_file ev (src_input a)) (\<lambda>srcfile.
     and_then (open_file ev (trg_input a)) (\<lambda>trgfile.
     and_then (embeddings_read ev srcfile) (\<lambda>(src_words, x).
     and_then (embeddings_read ev trgfile) (\<lambda>(trg_words, z).
     and_then (if cuda a \<and> \<not> supports_cupy ev then Inl (SystemExit (-1)) else Inr ()) (\<lambda>u.
     and_then
       (case num_words a of
          None \<Rightarrow> Inr ((src_words, x), (trg_words, z))
        | Some n \<Rightarrow>
            if n = 0 then Inr ((src_words, x), (trg_words, z))
            else if n > 0
            then Inr ((take (nat n) src_words, slice_rows x 0 (nat n)),
                      (take (nat n) trg_words, slice_rows z 0 (nat n)))
            else Inl AssertionError)
       (\<lambda>((src_words, x), (trg_words, z)).
       if nrows x > nrows z
       then Inr ((take (nrows z) src_words, slice_rows x 0 (nrows z)), (trg_words, z))
       else Inr ((src_words, x), (trg_words, z))))))))"

text \<open>Line 133: the words matching \<open>^[0-9]+$\<close>.\<close>

definition is_numeral :: "string \<Rightarrow> bool" where
  "is_numeral w \<longleftrightarrow> w \<noteq> [] \<and> list_all (\<lambda>c. c \<in> set ''0123456789'') w"

text \<open>
  Lines 127 to 157: the seed dictionary. Python walks the set of shared words in an order
  it does not specify; the model takes them in the order of the source vocabulary.
\<close>

definition seed_dictionary ::
  "env \<Rightarrow> args \<Rightarrow> string list \<Rightarrow> string list \<Rightarrow> error + (nat list \<times> nat list)" where
  "seed_dictionary ev a src_words trg_words =
     (let src_word2ind = word2ind src_words;
          trg_word2ind = word2ind trg_words;
          shared = (\<lambda>P. List.map_filter (\<lambda>w. lookup_pair src_word2ind trg_word2ind w w)
                      (remdups (filter (\<lambda>w. P w \<and> w \<in> set trg_words) src_words)))
      in if numerals a then Inr (map fst (shared is_numeral), map snd (shared is_numeral))
         else if identical a then Inr (map fst (shared (\<lambda>w. True)), map snd (shared (\<lambda>w. True)))
         else
           and_then (dictionary_lines ev (dictionary a)) (\<lambda>lines.
           and_then
             (fold_err (\<lambda>line acc.
                and_then (unpack_pair line) (\<lambda>(src, trg).
                  case lookup_pair src_word2ind trg_word2ind src trg of
                    Some p \<Rightarrow> Inr (acc @ [p])
                  | None \<Rightarrow> Inr acc)) lines [])
             (\<lambda>pairs. Inr (map fst pairs, map snd pairs))))"

text \<open>
  Lines 159 to 175: the validation dictionary and its coverage, \<open>None\<close> without
  \<open>--validation\<close>.
\<close>

definition read_validation ::
  "env \<Rightarrow> args \<Rightarrow> (string \<rightharpoonup> nat) \<Rightarrow> (string \<rightharpoonup> nat) \<Rightarrow>
   error + ((nat \<times> nat set) list \<times> real) option" where
  "read_validation ev a src_word2ind trg_word2ind =
     (case validation a of
        None \<Rightarrow> Inr None
      | Some path \<Rightarrow>
          and_then (dictionary_lines ev (Some path)) (\<lambda>lines.
          and_then (read_reference src_word2ind trg_word2ind lines) (\<lambda>cs.
          and_then (coverage_of cs) (\<lambda>validation_coverage.
            Inr (Some (entries cs, validation_coverage))))))"

text \<open>Lines 177 to 179: the log file, created when \<open>args.log\<close> is a path that is not empty.\<close>

definition create_log :: "env \<Rightarrow> args \<Rightarrow> error + unit" where
  "create_log ev a =
     (case log_arg a of
        None \<Rightarrow> Inr ()
      | Some path \<Rightarrow> if path = [] then Inr () else open_write ev path)"

text \<open>
  Lines 33 to 456. The result is the pair of mapped embeddings the program hands to
  \<open>embeddings.write\<close> for the two output files; the lines of the log are in the last state
  of the loop.
\<close>

definition main ::
  "backend \<Rightarrow> (int \<Rightarrow> arg_value \<Rightarrow> real list \<Rightarrow> error + ((nat list \<times> nat list) \<times> nn_state)) \<Rightarrow>
   env \<Rightarrow> args \<Rightarrow> (error + (mat \<times> mat)) option" where
  "main xp rest ev a =
     (case
        and_then (check_arguments a) (\<lambda>u.
        and_then (read_inputs ev a) (\<lambda>((src_words, x), (trg_words, z)).
        let src_word2ind = word2ind src_words;
            trg_word2ind = word2ind trg_words in
        and_then (seed_dictionary ev a src_words trg_words) (\<lambda>(src, trg).
        and_then (read_validation ev a src_word2ind trg_word2ind) (\<lambda>val_dict.
        and_then (create_log ev a) (\<lambda>u.
        let x' = fold (embeddings_normalize ev) (normalize_arg a) x;
            z' = fold (embeddings_normalize ev) (normalize_arg a) z in
          Inr (val_dict, src_word2ind, trg_word2ind, x', z', src, trg))))))
      of
        Inl e \<Rightarrow> Some (Inl e)
      | Inr (val_dict, src_word2ind, trg_word2ind, x, z, src, trg) \<Rightarrow>
          (case training_loop (iteration xp rest ev a val_dict src_word2ind trg_word2ind x z)
                  (threshold a) (initial_state src trg) of
             None \<Rightarrow> None
           | Some (Inl e) \<Rightarrow> Some (Inl e)
           | Some (Inr st) \<Rightarrow>
               (case and_then (open_write ev (src_output a)) (\<lambda>u. open_write ev (trg_output a)) of
                  Inl e \<Rightarrow> Some (Inl e)
                | Inr u \<Rightarrow>
                    (case mapped st of
                       None \<Rightarrow> Some (Inl (UnboundLocalError ''xw''))
                     | Some m \<Rightarrow> Some (Inr m)))))"

section \<open>Coverage, as the specification words it\<close>

text \<open>
  A reference dictionary whose lines all have two words is a list of pairs; \<open>pair_line\<close>
  gives the line of a pair.
\<close>

definition pair_line :: "string \<times> string \<Rightarrow> string list" where
  "pair_line p = [fst p, snd p]"

text \<open>
  The entries of the dictionary whose source word is in the source vocabulary and whose
  translation is in the target vocabulary. A source word is known when it has such an
  entry; the other source words of the dictionary are the out-of-vocabulary ones.
\<close>

definition found_pairs ::
  "string list \<Rightarrow> string list \<Rightarrow> (string \<times> string) list \<Rightarrow> (string \<times> string) list" where
  "found_pairs src_words trg_words pairs =
     filter (\<lambda>p. fst p \<in> set src_words \<and> snd p \<in> set trg_words) pairs"

definition known_source_words ::
  "string list \<Rightarrow> string list \<Rightarrow> (string \<times> string) list \<Rightarrow> string set" where
  "known_source_words src_words trg_words pairs =
     fst ` set (found_pairs src_words trg_words pairs)"

definition oov_source_words ::
  "string list \<Rightarrow> string list \<Rightarrow> (string \<times> string) list \<Rightarrow> string set" where
  "oov_source_words src_words trg_words pairs =
     fst ` set pairs - known_source_words src_words trg_words pairs"

text \<open>What \<open>coverage_line\<close> does with the line of a pair.\<close>

definition cov_step :: "(string \<rightharpoonup> nat) \<Rightarrow> (string \<rightharpoonup> nat) \<Rightarrow> string \<times> string \<Rightarrow> coverage_state \<Rightarrow> coverage_state" where
  "cov_step s2i t2i p cs =
     (case lookup_pair s2i t2i (fst p) (snd p) of
         Some (src_ind, trg_ind) \<Rightarrow>
           cs\<lparr>entries := AList.update src_ind
                       (insert trg_ind (case map_of (entries cs) src_ind of None \<Rightarrow> {} | Some ts \<Rightarrow> ts))
                       (entries cs),
                   vocab := insert (fst p) (vocab cs)\<rparr>
       | None \<Rightarrow> cs\<lparr>oov := insert (fst p) (oov cs)\<rparr>)"

section \<open>What the backend's routines promise\<close>

text \<open>A well-formed matrix of \<open>n\<close> rows and \<open>m\<close> columns.\<close>

definition mat_dim :: "nat \<Rightarrow> nat \<Rightarrow> mat \<Rightarrow> bool" where
  "mat_dim n m A \<longleftrightarrow> wf_mat A \<and> nrows A = n \<and> ncols A = m"

text \<open>The value of \<open>A[indices]\<close> when every index is a row of \<open>A\<close>.\<close>

definition selected_rows :: "mat \<Rightarrow> nat list \<Rightarrow> mat" where
  "selected_rows A indices = Mat (length indices) (ncols A) (map (\<lambda>i. rows A ! i) indices)"

text \<open>An orthogonal matrix of size \<open>n\<close>: both products with its transpose are the identity.\<close>

definition orthogonal_mat :: "nat \<Rightarrow> mat \<Rightarrow> bool" where
  "orthogonal_mat n q \<longleftrightarrow>
     mat_dim n n q \<and> dot_raw (transpose_mat q) q = eye n \<and> dot_raw q (transpose_mat q) = eye n"

text \<open>The matrix of \<open>n\<close> rows and \<open>m\<close> columns with the vector \<open>s\<close> on its diagonal.\<close>

definition rect_diag :: "nat \<Rightarrow> nat \<Rightarrow> real list \<Rightarrow> mat" where
  "rect_diag n m s = build n m (\<lambda>i j. if i = j then s ! i else 0)"

text \<open>
  \<open>(u, s, vt)\<close> is a singular value decomposition of \<open>m\<close> with full matrices: \<open>u\<close> and \<open>vt\<close> are
  orthogonal, the singular values are not negative and in descending order, and
  \<open>m = u \<cdot> diag(s) \<cdot> vt\<close>.
\<close>

definition full_svd :: "mat \<Rightarrow> mat \<times> real list \<times> mat \<Rightarrow> bool" where
  "full_svd m r \<longleftrightarrow>
     (case r of (u, s, vt) \<Rightarrow>
        orthogonal_mat (nrows m) u \<and> orthogonal_mat (ncols m) vt \<and>
        length s = min (nrows m) (ncols m) \<and> list_all (\<lambda>\<sigma>. 0 \<le> \<sigma>) s \<and> sorted (rev s) \<and>
        dot_raw (dot_raw u (rect_diag (nrows m) (ncols m) s)) vt = m)"

text \<open>
  The same with \<open>full_matrices=False\<close>: for \<open>k\<close> the smaller dimension of \<open>m\<close>, \<open>u\<close> has \<open>k\<close>
  orthonormal columns and \<open>vt\<close> has \<open>k\<close> orthonormal rows; the factor that is square is
  orthogonal.
\<close>

definition reduced_svd :: "mat \<Rightarrow> mat \<times> real list \<times> mat \<Rightarrow> bool" where
  "reduced_svd m r \<longleftrightarrow>
     (case r of (u, s, vt) \<Rightarrow>
        let k = min (nrows m) (ncols m) in
        mat_dim (nrows m) k u \<and> mat_dim k (ncols m) vt \<and>
        length s = k \<and> list_all (\<lambda>\<sigma>. 0 \<le> \<sigma>) s \<and> sorted (rev s) \<and>
        dot_raw (transpose_mat u) u = eye k \<and> dot_raw vt (transpose_mat vt) = eye k \<and>
        (k = nrows m \<longrightarrow> dot_raw u (transpose_mat u) = eye k) \<and>
        (k = ncols m \<longrightarrow> dot_raw (transpose_mat vt) vt = eye k) \<and>
        dot_raw (dot_raw u (diag s)) vt = m)"

text \<open>\<open>gi\<close> is the inverse of the square matrix \<open>g\<close>.\<close>

definition inverse_of :: "mat \<Rightarrow> mat \<Rightarrow> bool" where
  "inverse_of g gi \<longleftrightarrow>
     mat_dim (nrows g) (nrows g) gi \<and> dot_raw g gi = eye (nrows g) \<and> dot_raw gi g = eye (nrows g)"

text \<open>A singular matrix: one without an inverse.\<close>

definition singular :: "mat \<Rightarrow> bool" where
  "singular g \<longleftrightarrow> (\<forall>gi. \<not> inverse_of g gi)"

section \<open>The orthogonal mapping, as the specification words it\<close>

text \<open>
  The decomposition of \<open>Zdict \<cdot> Xdict\<^sup>t\<close>, for \<open>Zdict\<close> and \<open>Xdict\<close> the rows the dictionary
  selects (as in the specification's formula for the unconstrained mapping), in place of
  the matrix of line 203; the rest as in \<open>orthogonal_mapping\<close>.
\<close>

definition spec_procrustes_matrix :: "mat \<Rightarrow> mat \<Rightarrow> nat list \<Rightarrow> nat list \<Rightarrow> error + mat" where
  "spec_procrustes_matrix x z src trg =
     and_then (take_rows z trg) (\<lambda>zd.
     and_then (take_rows x src) (\<lambda>xd.
       dot zd (transpose_mat xd)))"

definition spec_orthogonal_mapping ::
  "backend \<Rightarrow> mat \<Rightarrow> mat \<Rightarrow> nat list \<Rightarrow> nat list \<Rightarrow> error + (mat \<times> mat)" where
  "spec_orthogonal_mapping xp x z src trg =
     and_then (spec_procrustes_matrix x z src trg) (\<lambda>m.
     and_then (linalg_svd xp True m) (\<lambda>(u, s, vt).
     and_then (dot (transpose_mat vt) (transpose_mat u)) (\<lambda>w.
     and_then (dot x w) (\<lambda>xw.
       Inr (xw, z)))))"

section \<open>The search without blocks, as the specification words it\<close>

text \<open>The greatest element of a vector: the element at its \<open>argmax\<close>.\<close>

definition maxval :: "real list \<Rightarrow> real" where
  "maxval v = v ! argmax_list v"

text \<open>
  One computation over the whole similarity matrix \<open>S\<close>: for every row the greatest value
  and its first position, and the same for every column.
\<close>

definition unblocked_search :: "mat \<Rightarrow> nn_state" where
  "unblocked_search S =
     \<lparr>best_sim_forward = map maxval (rows S),
      trg_indices_forward = map argmax_list (rows S),
      best_sim_backward = map maxval (rows (transpose_mat S)),
      src_indices_backward = map argmax_list (rows (transpose_mat S))\<rparr>"

text \<open>
  Every row and every column of \<open>S\<close> has an entry greater than -100, the value the
  program starts its best similarities with.
\<close>

definition above_sentinel :: "mat \<Rightarrow> bool" where
  "above_sentinel S \<longleftrightarrow>
     list_all (\<lambda>r. r \<noteq> [] \<and> -100 < maxval r) (rows S) \<and>
     list_all (\<lambda>r. r \<noteq> [] \<and> -100 < maxval r) (rows (transpose_mat S))"

text \<open>
  The same computation with the start values of the program kept: for a row (or column)
  \<open>v\<close> the greatest value and its first position when that value is above -100, and the
  value -100 with the position 0 otherwise.
\<close>

definition sentinel_argmax :: "real list \<Rightarrow> real \<times> nat" where
  "sentinel_argmax v =
     (if v \<noteq> [] \<and> -100 < maxval v then (maxval v, argmax_list v) else (-100, 0))"

definition floored_search :: "mat \<Rightarrow> nn_state" where
  "floored_search S =
     \<lparr>best_sim_forward = map (\<lambda>v. fst (sentinel_argmax v)) (rows S),
      trg_indices_forward = map (\<lambda>v. snd (sentinel_argmax v)) (rows S),
      best_sim_backward = map (\<lambda>v. fst (sentinel_argmax v)) (rows (transpose_mat S)),
      src_indices_backward = map (\<lambda>v. snd (sentinel_argmax v)) (rows (transpose_mat S))\<rparr>"

text \<open>The pair (best similarity, position) a search result holds for a row and for a column.\<close>

definition forward_at :: "nn_state \<Rightarrow> nat \<Rightarrow> real \<times> nat" where
  "forward_at st p = (best_sim_forward st ! p, trg_indices_forward st ! p)"

definition backward_at :: "nn_state \<Rightarrow> nat \<Rightarrow> real \<times> nat" where
  "backward_at st c = (best_sim_backward st ! c, src_indices_backward st ! c)"

section \<open>Notions for the proofs about the search\<close>

text \<open>
  The effect of one block on the pair (best similarity, position) of one row: \<open>v\<close> is the
  part of the row inside the block and \<open>k\<close> the position the block starts at.
\<close>

definition block_step :: "real list \<Rightarrow> nat \<Rightarrow> real \<times> nat \<Rightarrow> real \<times> nat" where
  "block_step v k e = (if fst e < maxval v then (maxval v, argmax_list v + k) else e)"

definition segment :: "'a list \<Rightarrow> nat \<Rightarrow> nat \<Rightarrow> 'a list" where
  "segment v k l = take (l - k) (drop k v)"

text \<open>The similarity of row \<open>p\<close> of \<open>xw\<close> and row \<open>c\<close> of \<open>zw\<close>, and the rows and columns of all of them.\<close>

definition sim_entry :: "mat \<Rightarrow> mat \<Rightarrow> nat \<Rightarrow> nat \<Rightarrow> real" where
  "sim_entry xw zw p c = (\<Sum>d\<leftarrow>[0..<ncols xw]. entry xw p d * entry zw c d)"

definition sim_row :: "mat \<Rightarrow> mat \<Rightarrow> nat \<Rightarrow> real list" where
  "sim_row xw zw p = map (sim_entry xw zw p) [0..<nrows zw]"

definition sim_col :: "mat \<Rightarrow> mat \<Rightarrow> nat \<Rightarrow> real list" where
  "sim_col xw zw c = map (\<lambda>p. sim_entry xw zw p c) [0..<nrows xw]"

definition nn_lengths :: "nat \<Rightarrow> nat \<Rightarrow> nn_state \<Rightarrow> bool" where
  "nn_lengths nx nz st \<longleftrightarrow>
     length (best_sim_forward st) = nx \<and> length (trg_indices_forward st) = nx \<and>
     length (best_sim_backward st) = nz \<and> length (src_indices_backward st) = nz"

section \<open>Example inputs\<close>

text \<open>The defaults of the argument parser, for the four file names given.\<close>

definition default_args :: "string \<Rightarrow> string \<Rightarrow> string \<Rightarrow> string \<Rightarrow> args" where
  "default_args src_in trg_in src_out trg_out =
     \<lparr>src_input = src_in, trg_input = trg_in, src_output = src_out, trg_output = trg_out,
      encoding = ''utf-8'', precision = ''fp64'', cuda = False, num_words = None,
      dictionary = None, test_dict = None, normalize_arg = [], orthogonal = False,
      unconstrained = False, self_learning = False, direction = Forward, numerals = False,
      identical = False, threshold = Fin (1 / 1000000), validation = None, log_arg = None,
      verbose = False, lapmod = False, lapmod_chunk_size = 1000, lap_repeats = 1,
      lap_prop = ''1:1'', lap_rank = None, whiten = False, src_reweight = 0,
      trg_reweight = 0, src_dewhiten = None, trg_dewhiten = None, dim_reduction = 0\<rparr>"

definition example_args :: args where
  "example_args = default_args ''src.emb'' ''trg.emb'' ''src.out'' ''trg.out''"

text \<open>
  A backend that is right on identity matrices: the decomposition of the identity is
  \<open>(I, (1, \<dots>, 1), I)\<close> and its inverse is itself. On other matrices it raises.
\<close>

definition identity_backend :: backend where
  "identity_backend =
     \<lparr>linalg_svd = (\<lambda>full_matrices m.
        if m = eye (nrows m) then Inr (eye (nrows m), replicate (nrows m) 1, eye (nrows m))
        else Inl LinAlgError),
      linalg_inv = (\<lambda>m. if m = eye (nrows m) then Inr m else Inl LinAlgError),
      float_power = (\<lambda>\<sigma> e. if e = 0 then 1 else \<sigma> powr e),
      alloc_error = (\<lambda>n. None)\<rparr>"

text \<open>An environment without files: every attempt to open or read one raises.\<close>

definition no_files :: env where
  "no_files =
     \<lparr>open_file = (\<lambda>path. Inl OSError),
      open_write = (\<lambda>path. Inl OSError),
      embeddings_read = (\<lambda>content. Inl OSError),
      dictionary_lines = (\<lambda>path. Inl OSError),
      supports_cupy = False,
      embeddings_normalize = (\<lambda>action m. m)\<rparr>"

text \<open>A remainder of the assignment branch that would return the dictionary unchanged.\<close>

definition no_rest :: "int \<Rightarrow> arg_value \<Rightarrow> real list \<Rightarrow> error + ((nat list \<times> nat list) \<times> nn_state)" where
  "no_rest n_rows n_similar best = Inr (([], []), nn_init 0 0)"

text \<open>
  Two embedding files of two words each, both with the identity as matrix, and one
  dictionary file of three lines, the second with words neither vocabulary has.
\<close>

definition example_files :: env where
  "example_files =
     \<lparr>open_file = (\<lambda>path. Inr path),
      open_write = (\<lambda>path. Inr ()),
      embeddings_read = (\<lambda>content.
        if content = ''src.emb'' then Inr ([''uno'', ''dos''], eye 2)
        else if content = ''trg.emb'' then Inr ([''one'', ''two''], eye 2)
        else Inl OSError),
      dictionary_lines =
        (\<lambda>path. Inr [[''uno'', ''one''], [''tres'', ''three''], [''dos'', ''two'']]),
      supports_cupy = False,
      embeddings_normalize = (\<lambda>action m. m)\<rparr>"

definition both_rows :: "nat list" where
  "both_rows = [0, 1]"

definition loop_args :: args where
  "loop_args = example_args\<lparr>orthogonal := True, self_learning := True\<rparr>"

definition loop_body :: "loop_state \<Rightarrow> error + loop_state" where
  "loop_body =
     iteration identity_backend no_rest example_files loop_args None
       (word2ind [''uno'', ''dos'']) (word2ind [''one'', ''two'']) (eye 2) (eye 2)"

definition after_one :: loop_state where
  "after_one =
     \<lparr>it = 2, objective = Fin 1, prev_objective = Fin (-100),
      src_indices = both_rows, trg_indices = both_rows, mapped = Some (eye 2, eye 2),
      log_lines = []\<rparr>"

definition after_two :: loop_state where
  "after_two =
     \<lparr>it = 3, objective = Fin 1, prev_objective = Fin 1,
      src_indices = both_rows, trg_indices = both_rows, mapped = Some (eye 2, eye 2),
      log_lines = []\<rparr>"

definition lapmod_args :: args where
  "lapmod_args = loop_args\<lparr>lapmod := True\<rparr>"

definition negative_rank_args :: args where
  "negative_rank_args = lapmod_args\<lparr>lap_rank := Some (-1)\<rparr>"

text \<open>
  A rank beyond any array and a rank beyond the memory, for a backend whose library
  refuses a length from \<open>2 ^ 60\<close> on with ValueError, as more than an array can hold, and a
  smaller length above a million with MemoryError.
\<close>

definition huge_rank_args :: args where
  "huge_rank_args = lapmod_args\<lparr>lap_rank := Some (10 ^ 30)\<rparr>"

definition large_rank_args :: args where
  "large_rank_args = lapmod_args\<lparr>lap_rank := Some (10 ^ 9)\<rparr>"

definition small_memory_backend :: backend where
  "small_memory_backend =
     identity_backend\<lparr>alloc_error :=
       (\<lambda>n. if 2 ^ 60 \<le> n then Some ValueError
            else if 1000000 < n then Some MemoryError else None)\<rparr>"

text \<open>
  A reference dictionary of four entries for the vocabularies of the example files: \<open>uno\<close>
  is known, \<open>tres\<close> is in no vocabulary, and \<open>dos\<close> is in the source vocabulary but its only
  translation is not in the target vocabulary.
\<close>

definition reference_pairs :: "(string \<times> string) list" where
  "reference_pairs =
     [(''uno'', ''one''), (''tres'', ''three''), (''dos'', ''zwei''), (''uno'', ''eins'')]"

text \<open>
  Mapped embeddings of two source and three target words, and their similarity matrix.
\<close>

definition ex_xw :: mat where
  "ex_xw = Mat 2 2 [[1, 0], [1, 1]]"

definition ex_zw :: mat where
  "ex_zw = Mat 3 2 [[1, 0], [0, 2], [2, 2]]"

definition ex_sim :: mat where
  "ex_sim = Mat 2 3 [[1, 0, 2], [1, 2, 4]]"

text \<open>Embeddings that are not normalized, with similarities below -100.\<close>

definition low_x :: mat where
  "low_x = Mat 1 1 [[10]]"

definition low_z :: mat where
  "low_z = Mat 2 1 [[-30], [-20]]"

definition low_sim :: mat where
  "low_sim = Mat 1 2 [[-300, -200]]"

text \<open>Two source words, the first with all its similarities below -100, the second not.\<close>

definition mixed_x :: mat where
  "mixed_x = Mat 2 1 [[10], [1]]"

definition mixed_sim :: mat where
  "mixed_sim = Mat 2 2 [[-300, -200], [-30, -20]]"

text \<open>
  A rotation and its transpose; a matrix of three rows that is \<open>tall_u \<cdot> diag(2, 1) \<cdot> rot\<close>;
  a matrix of one row; two embeddings of one word each; a matrix of rank one.
\<close>

definition rot :: mat where
  "rot = Mat 2 2 [[3 / 5, 4 / 5], [- 4 / 5, 3 / 5]]"

definition rot_t :: mat where
  "rot_t = Mat 2 2 [[3 / 5, - 4 / 5], [4 / 5, 3 / 5]]"

definition tall :: mat where
  "tall = Mat 3 2 [[6 / 5, 8 / 5], [- 4 / 5, 3 / 5], [0, 0]]"

definition tall_u :: mat where
  "tall_u = Mat 3 2 [[1, 0], [0, 1], [0, 0]]"

definition wide :: mat where
  "wide = Mat 1 2 [[1, 0]]"

definition one_x :: mat where
  "one_x = Mat 1 2 [[1, 0]]"

definition one_z :: mat where
  "one_z = Mat 1 2 [[0, 1]]"

definition singular_x :: mat where
  "singular_x = Mat 2 2 [[1, 0], [1, 0]]"

text \<open>
  A backend given by tables: the decompositions of five matrices (each is one, by
  \<open>table_backend_decompositions\<close>), the inverse of a matrix of two rows and two columns by
  its determinant, and an error for any other matrix.
\<close>

definition inv_2x2 :: "mat \<Rightarrow> error + mat" where
  "inv_2x2 m =
     (case rows m of
        [[a, b], [c, d]] \<Rightarrow>
          if a * d - b * c = 0 then Inl LinAlgError
          else Inr (Mat 2 2 [[d / (a * d - b * c), - b / (a * d - b * c)],
                             [- c / (a * d - b * c), a / (a * d - b * c)]])
      | _ \<Rightarrow> Inl LinAlgError)"

definition table_backend :: backend where
  "table_backend =
     \<lparr>linalg_svd = (\<lambda>full_matrices m.
        if full_matrices then
          if m = rot_t then Inr (rot_t, [1, 1], eye 2)
          else if m = Mat 2 2 [[0, 0], [1, 0]] then Inr (Mat 2 2 [[0, 1], [1, 0]], [1, 0], eye 2)
          else if m = Mat 1 1 [[0]] then Inr (eye 1, [0], eye 1)
          else Inl LinAlgError
        else
          if m = tall then Inr (tall_u, [2, 1], rot)
          else if m = wide then Inr (eye 1, [1], wide)
          else Inl LinAlgError),
      linalg_inv = inv_2x2,
      float_power = (\<lambda>\<sigma> e. if e = 0 then 1 else \<sigma> powr e),
      alloc_error = (\<lambda>n. None)\<rparr>"

definition unconstrained_args :: args where
  "unconstrained_args = example_args\<lparr>unconstrained := True\<rparr>"

text \<open>
  Two equal rows with entries that are no binary fractions, and the matrix
  \<open>deficient_x\<^sup>t \<cdot> deficient_x\<close>, which is singular.
\<close>

definition deficient_x :: mat where
  "deficient_x = Mat 2 2 [[1 / 10, 3 / 10], [1 / 10, 3 / 10]]"

definition deficient_g :: mat where
  "deficient_g = Mat 2 2 [[1 / 50, 3 / 50], [3 / 50, 9 / 50]]"

text \<open>
  A backend whose inverse routine computes as floating-point arithmetic does: where the
  determinant of a matrix of two rows and two columns is 0, rounding has left a small
  number in its place, here \<open>- 1 / 2 ^ 60\<close>, and the routine divides by it and raises nothing.
\<close>

definition inexact_inv :: "mat \<Rightarrow> error + mat" where
  "inexact_inv m =
     (case rows m of
        [[a, b], [c, d]] \<Rightarrow>
          (let det = (if a * d - b * c = 0 then - 1 / 2 ^ 60 else a * d - b * c)
           in Inr (Mat 2 2 [[d / det, - b / det], [- c / det, a / det]]))
      | _ \<Rightarrow> Inl LinAlgError)"

definition inexact_backend :: backend where
  "inexact_backend = table_backend\<lparr>linalg_inv := inexact_inv\<rparr>"

definition after_singular :: loop_state where
  "after_singular =
     \<lparr>it = 2, objective = Fin (-100), prev_objective = Fin (-100),
      src_indices = both_rows, trg_indices = both_rows,
      mapped = Some (Mat 2 2 [[0, 0], [0, 0]], ex_zw), log_lines = []\<rparr>"

section \<open>Properties\<close>

subsection \<open>The check of the arguments\<close>

text \<open>
  C8. When de-whitening of the source or of the target embeddings is requested and
  whitening is not enabled, the program ends with \<open>sys.exit(-1)\<close>, a non-zero exit, whatever
  the backend and whatever the files: also when no file can be opened, so the exit comes
  before any embedding is read and before the loop.
\<close>

theorem dewhiten_without_whiten_exits:
  assumes "src_dewhiten a \<noteq> None \<or> trg_dewhiten a \<noteq> None"
    and "\<not> whiten a"
  shows "main xp rest ev a = Some (Inl (SystemExit (-1)))"
  using assms by (simp add: main_def check_arguments_def and_then_def)

theorem dewhiten_without_whiten_exits_witness:
  "src_dewhiten (example_args\<lparr>src_dewhiten := Some Src\<rparr>) = Some Src
   \<and> whiten (example_args\<lparr>src_dewhiten := Some Src\<rparr>) = False
   \<and> main identity_backend no_rest no_files (example_args\<lparr>src_dewhiten := Some Src\<rparr>)
       = Some (Inl (SystemExit (-1)))"
proof -
  have h1: "src_dewhiten (example_args\<lparr>src_dewhiten := Some Src\<rparr>) \<noteq> None
      \<or> trg_dewhiten (example_args\<lparr>src_dewhiten := Some Src\<rparr>) \<noteq> None"
    by simp
  have h2: "\<not> whiten (example_args\<lparr>src_dewhiten := Some Src\<rparr>)"
    by (simp add: example_args_def default_args_def)
  from dewhiten_without_whiten_exits [OF h1 h2] h2 show ?thesis
    by simp
qed

subsection \<open>Evaluating the examples\<close>

lemma upt_num: "[i..<numeral n] = (if i < numeral n then i # [Suc i..<numeral n] else [])"
  by (rule upt_rec)

lemma replicate_num: "replicate (numeral n) x = x # replicate (pred_numeral n) x"
  by (simp add: numeral_eq_Suc)

lemmas mat_eval =
  take_rows_def dot_def dot_raw_def transpose_mat_def build_def entry_def eye_def diag_def
  slice_rows_def slice_cols_def and_then_def upt_num replicate_num Let_def

lemmas args_eval =
  example_args_def default_args_def loop_args_def lapmod_args_def negative_rank_args_def

lemma loop_args_fields:
  "src_input loop_args = ''src.emb''" "trg_input loop_args = ''trg.emb''"
  "num_words loop_args = None" "cuda loop_args = False" "numerals loop_args = False"
  "identical loop_args = False" "whiten loop_args = False" "src_dewhiten loop_args = None"
  "trg_dewhiten loop_args = None" "validation loop_args = None" "test_dict loop_args = None"
  "normalize_arg loop_args = []" "orthogonal loop_args = True" "self_learning loop_args = True"
  "lapmod loop_args = False" "direction loop_args = Forward"
  "threshold loop_args = Fin (1 / 1000000)" "log_arg loop_args = None"
  by (simp_all add: args_eval)

lemma lapmod_args_fields:
  "src_input lapmod_args = ''src.emb''" "trg_input lapmod_args = ''trg.emb''"
  "num_words lapmod_args = None" "cuda lapmod_args = False" "numerals lapmod_args = False"
  "identical lapmod_args = False" "whiten lapmod_args = False" "src_dewhiten lapmod_args = None"
  "trg_dewhiten lapmod_args = None" "validation lapmod_args = None" "test_dict lapmod_args = None"
  "normalize_arg lapmod_args = []" "orthogonal lapmod_args = True" "self_learning lapmod_args = True"
  "lapmod lapmod_args = True" "lap_rank lapmod_args = None" "log_arg lapmod_args = None"
  by (simp_all add: args_eval)

lemma open_write_example: "open_write example_files path = Inr ()"
  by (simp add: example_files_def)

lemma range_step_example:
  "range_step 2 MAX_DIM_X = [0]" "range_step 2 MAX_DIM_Z = [0]"
  by (simp_all add: range_step_def MAX_DIM_X_def MAX_DIM_Z_def upt_num)

lemma orthogonal_mapping_example:
  "orthogonal_mapping identity_backend (eye 2) (eye 2) both_rows both_rows = Inr (eye 2, eye 2)"
  by (simp add: orthogonal_mapping_def orthogonal_w_def procrustes_matrix_def
      identity_backend_def both_rows_def mat_eval)

lemma induce_nn_example:
  "induce_nn MAX_DIM_X MAX_DIM_Z Forward 2 2 (eye 2) (eye 2) =
     Inr ((both_rows, both_rows),
          \<lparr>best_sim_forward = [1, 1], trg_indices_forward = both_rows,
           best_sim_backward = [-100, -100], src_indices_backward = [0, 0]\<rparr>)"
  unfolding induce_nn_def nn_search_def range_step_example
  by (simp add: nn_block_def forward_update_def argmax_axis1_def masked_assign_def nn_init_def
      select_direction_def both_rows_def mat_eval MAX_DIM_X_def MAX_DIM_Z_def)

lemma nrows_eye: "nrows (eye n) = n"
  by (simp add: eye_def build_def)

lemma loop_body_initial: "loop_body (initial_state both_rows both_rows) = Inr after_one"
  by (simp add: loop_body_def iteration_def update_mapping_def update_dictionary_def
      orthogonal_mapping_example induce_nn_example nrows_eye objective_of_def mean_def
      write_log_def evaluate_test_def initial_state_def after_one_def loop_args_fields
      and_then_def)

lemma loop_body_after_one: "loop_body after_one = Inr after_two"
  by (simp add: loop_body_def iteration_def update_mapping_def update_dictionary_def
      orthogonal_mapping_example induce_nn_example nrows_eye objective_of_def mean_def
      write_log_def evaluate_test_def after_one_def after_two_def loop_args_fields
      and_then_def)

lemma read_inputs_example:
  "src_input a = ''src.emb'' \<Longrightarrow> trg_input a = ''trg.emb'' \<Longrightarrow> num_words a = None \<Longrightarrow>
   \<not> cuda a \<Longrightarrow>
   read_inputs example_files a = Inr (([''uno'', ''dos''], eye 2), ([''one'', ''two''], eye 2))"
  by (simp add: read_inputs_def example_files_def and_then_def nrows_eye)

lemma seed_dictionary_example:
  "\<not> numerals a \<Longrightarrow> \<not> identical a \<Longrightarrow>
   seed_dictionary example_files a [''uno'', ''dos''] [''one'', ''two''] = Inr (both_rows, both_rows)"
  by (simp add: seed_dictionary_def word2ind_def enumerate_eq_zip upt_num example_files_def
      both_rows_def and_then_def unpack_pair_def lookup_pair_def)

subsection \<open>The training loop\<close>

lemma iteration_it:
  assumes "iteration xp rest ev a val_dict s2i t2i x z st = Inr st'"
  shows "it st' = it st + 1"
  using assms
  by (auto simp: iteration_def write_log_def and_then_def Let_def
      split: sum.splits if_splits prod.splits option.splits)

lemma completed_it:
  assumes "completed body thr st0 n st"
    and "\<And>s s'. body s = Inr s' \<Longrightarrow> it s' = it s + 1"
  shows "it st = it st0 + int n"
  using assms by (induction rule: completed.induct) auto

lemma continues_initial: "continues thr (initial_state src trg)"
  by (simp add: continues_def initial_state_def)

lemma training_loop_first:
  "training_loop body thr (initial_state src trg) =
     (case body (initial_state src trg) of
        Inl e \<Rightarrow> Some (Inl e)
      | Inr st' \<Rightarrow> training_loop body thr st')"
  by (subst training_loop.simps) (simp add: continues_initial)

text \<open>
  \<open>a >= b\<close> fails exactly when \<open>a < b\<close> holds or one of the two is not-a-number.
\<close>

lemma float_ge_iff: "float_ge d t \<longleftrightarrow> \<not> (float_lt d t \<or> d = NaN \<or> t = NaN)"
  by (cases d; cases t) auto

text \<open>
  An objective that is not-a-number (the mean of no similarities, for embeddings without
  rows) ends the loop after the first iteration, whatever the threshold.
\<close>

lemma objective_of_no_rows: "objective_of Forward (nn_init 0 nz) = NaN"
  by (simp add: objective_of_def nn_init_def mean_def)

lemma halts_on_nan_objective:
  assumes "it st \<noteq> 1" and "objective st = NaN"
  shows "training_loop body thr st = Some (Inr st)"
  using assms by (subst training_loop.simps) (simp add: continues_def float_sub_def)

text \<open>
  C1, as the code has it. The previous objective starts at -100. The loop always runs its
  first iteration: from the initial state it takes the body, whatever the threshold. In a
  state reached by one or more completed iterations it stops, with that state, exactly
  when \<open>objective - prev_objective >= threshold\<close> does not hold, that is when the difference
  is less than the threshold or the difference or the threshold is not-a-number; while the
  difference is at least the threshold it takes the body again.
\<close>

theorem training_loop_first_iteration_and_halting:
  assumes "body = iteration xp rest ev a val_dict src_word2ind trg_word2ind x z"
    and "st0 = initial_state src trg"
  shows "prev_objective st0 = Fin (-100)
    \<and> training_loop body thr st0 =
        (case body st0 of Inl e \<Rightarrow> Some (Inl e) | Inr st' \<Rightarrow> training_loop body thr st')
    \<and> (\<forall>n st. completed body thr st0 (Suc n) st \<longrightarrow>
          training_loop body thr st =
            (if float_lt (float_sub (objective st) (prev_objective st)) thr
                \<or> float_sub (objective st) (prev_objective st) = NaN \<or> thr = NaN
             then Some (Inr st)
             else (case body st of Inl e \<Rightarrow> Some (Inl e) | Inr st' \<Rightarrow> training_loop body thr st'))
          \<and> (float_ge (float_sub (objective st) (prev_objective st)) thr \<longrightarrow>
               training_loop body thr st =
                 (case body st of Inl e \<Rightarrow> Some (Inl e) | Inr st' \<Rightarrow> training_loop body thr st')))"
proof -
  have later: "training_loop body thr st =
        (if float_lt (float_sub (objective st) (prev_objective st)) thr
            \<or> float_sub (objective st) (prev_objective st) = NaN \<or> thr = NaN
         then Some (Inr st)
         else (case body st of Inl e \<Rightarrow> Some (Inl e) | Inr st' \<Rightarrow> training_loop body thr st'))
      \<and> (float_ge (float_sub (objective st) (prev_objective st)) thr \<longrightarrow>
           training_loop body thr st =
             (case body st of Inl e \<Rightarrow> Some (Inl e) | Inr st' \<Rightarrow> training_loop body thr st'))"
    if c: "completed body thr st0 (Suc n) st" for n st
  proof -
    have "it st = it st0 + int (Suc n)"
      using c by (rule completed_it) (simp add: assms(1) iteration_it)
    then have "it st \<noteq> 1"
      by (simp add: assms(2) initial_state_def)
    then have "continues thr st \<longleftrightarrow> float_ge (float_sub (objective st) (prev_objective st)) thr"
      by (simp add: continues_def)
    then show ?thesis
      by (subst (1 2) training_loop.simps) (simp add: float_ge_iff)
  qed
  have "prev_objective st0 = Fin (-100)"
    by (simp add: assms(2) initial_state_def)
  moreover have "training_loop body thr st0 =
        (case body st0 of Inl e \<Rightarrow> Some (Inl e) | Inr st' \<Rightarrow> training_loop body thr st')"
    by (simp add: assms(2) training_loop_first)
  ultimately show ?thesis
    using later by blast
qed

theorem training_loop_first_iteration_and_halting_witness:
  "completed loop_body (threshold loop_args) (initial_state both_rows both_rows) (Suc (Suc 0)) after_two
   \<and> training_loop loop_body (threshold loop_args) after_two = Some (Inr after_two)
   \<and> training_loop loop_body (threshold loop_args) (initial_state both_rows both_rows) = Some (Inr after_two)"
proof -
  note t = training_loop_first_iteration_and_halting [OF loop_body_def refl,
      of both_rows both_rows "threshold loop_args"]
  have c0: "continues (threshold loop_args) (initial_state both_rows both_rows)"
    by (rule continues_initial)
  have c1: "continues (threshold loop_args) after_one"
    by (simp add: continues_def after_one_def loop_args_fields float_sub_def)
  have one: "completed loop_body (threshold loop_args) (initial_state both_rows both_rows) (Suc 0) after_one"
    by (rule completed.step [where st = "initial_state both_rows both_rows"])
      (simp_all add: completed.start c0 loop_body_initial)
  have two: "completed loop_body (threshold loop_args) (initial_state both_rows both_rows) (Suc (Suc 0)) after_two"
    by (rule completed.step [where st = after_one])
      (simp_all add: one c1 loop_body_after_one)
  have d1: "float_ge (float_sub (objective after_one) (prev_objective after_one)) (threshold loop_args)"
    by (simp add: after_one_def loop_args_fields float_sub_def)
  have d2: "float_lt (float_sub (objective after_two) (prev_objective after_two)) (threshold loop_args)"
    by (simp add: after_two_def loop_args_fields float_sub_def)
  have h0: "training_loop loop_body (threshold loop_args) (initial_state both_rows both_rows)
      = training_loop loop_body (threshold loop_args) after_one"
    using t by (simp add: loop_body_initial)
  have h1: "training_loop loop_body (threshold loop_args) after_one
      = training_loop loop_body (threshold loop_args) after_two"
  proof -
    from t one
    have "float_ge (float_sub (objective after_one) (prev_objective after_one)) (threshold loop_args)
        \<longrightarrow> training_loop loop_body (threshold loop_args) after_one =
          (case loop_body after_one of
             Inl e \<Rightarrow> Some (Inl e)
           | Inr st' \<Rightarrow> training_loop loop_body (threshold loop_args) st')"
      by blast
    with d1 show ?thesis
      by (simp add: loop_body_after_one)
  qed
  have h2: "training_loop loop_body (threshold loop_args) after_two = Some (Inr after_two)"
  proof -
    from t two
    have "training_loop loop_body (threshold loop_args) after_two =
        (if float_lt (float_sub (objective after_two) (prev_objective after_two)) (threshold loop_args)
            \<or> float_sub (objective after_two) (prev_objective after_two) = NaN
            \<or> threshold loop_args = NaN
         then Some (Inr after_two)
         else (case loop_body after_two of
                 Inl e \<Rightarrow> Some (Inl e)
               | Inr st' \<Rightarrow> training_loop loop_body (threshold loop_args) st'))"
      by blast
    with d2 show ?thesis
      by simp
  qed
  from two h0 h1 h2 show ?thesis
    by simp
qed

text \<open>
  C1, as stated, fails where a floating-point value is not-a-number. With \<open>--threshold nan\<close>
  the loop stops after its first iteration, in a state whose difference of objectives,
  101, is not less than the threshold.
\<close>

theorem training_loop_nan_counterexample:
  "completed loop_body NaN (initial_state both_rows both_rows) (Suc 0) after_one
   \<and> float_sub (objective after_one) (prev_objective after_one) = Fin 101
   \<and> \<not> float_lt (float_sub (objective after_one) (prev_objective after_one)) NaN
   \<and> training_loop loop_body NaN after_one = Some (Inr after_one)
   \<and> training_loop loop_body NaN (initial_state both_rows both_rows) = Some (Inr after_one)"
proof -
  have one: "completed loop_body NaN (initial_state both_rows both_rows) (Suc 0) after_one"
    by (rule completed.step [where st = "initial_state both_rows both_rows"])
      (simp_all add: completed.start continues_initial loop_body_initial)
  have d: "float_sub (objective after_one) (prev_objective after_one) = Fin 101"
    by (simp add: after_one_def float_sub_def)
  have h1: "training_loop loop_body NaN after_one = Some (Inr after_one)"
    by (subst training_loop.simps) (simp add: continues_def d, simp add: after_one_def)
  have h0: "training_loop loop_body NaN (initial_state both_rows both_rows) = Some (Inr after_one)"
    by (simp add: training_loop_first loop_body_initial h1)
  from one d h1 h0 show ?thesis
    by simp
qed

text \<open>The whole program on the example files: two iterations, then the mapped embeddings.\<close>

lemma main_example:
  "main identity_backend no_rest example_files loop_args = Some (Inr (eye 2, eye 2))"
proof -
  have l: "training_loop loop_body (Fin (1 / 1000000)) (initial_state both_rows both_rows)
      = Some (Inr after_two)"
    apply (subst training_loop.simps)
    apply (simp add: continues_initial loop_body_initial)
    apply (subst training_loop.simps)
    apply (simp add: continues_def after_one_def float_sub_def)
    apply (simp add: after_one_def [symmetric] loop_body_after_one)
    apply (subst training_loop.simps)
    apply (simp add: continues_def after_two_def float_sub_def)
    done
  show ?thesis
    by (simp add: main_def loop_args_fields read_inputs_example seed_dictionary_example
        check_arguments_def read_validation_def create_log_def l [unfolded loop_body_def]
        and_then_def after_two_def open_write_example)
qed

subsection \<open>Assignment mode\<close>

lemma getattr_n_similar: "getattr a ''n_similar'' = Inl (AttributeError ''n_similar'')"
  by (simp add: getattr_def namespace_def)

lemma induce_lapmod_fails:
  "induce_lapmod xp rest a xw st =
     (case lap_rank a of
        Some r \<Rightarrow>
          if r < 0 then Inl ValueError
          else (case alloc_error xp (nat r) of
                  Some e \<Rightarrow> Inl e
                | None \<Rightarrow> Inl (AttributeError ''n_similar''))
      | None \<Rightarrow> Inl (AttributeError ''n_similar''))"
  by (simp add: induce_lapmod_def getattr_n_similar and_then_def full_def split: option.splits)

lemma iteration_lapmod_fails:
  assumes "lapmod a" "self_learning a"
  shows "\<exists>e. iteration xp rest ev a val_dict s2i t2i x z st = Inl e"
proof (cases "update_mapping xp a x z (src_indices st) (trg_indices st)")
  case (Inl e)
  then show ?thesis by (simp add: iteration_def and_then_def)
next
  case (Inr m)
  obtain xw zw where m: "m = (xw, zw)" by (cases m)
  have "\<exists>e. update_dictionary xp rest a (nrows x) (nrows z) xw zw = Inl e"
    using assms(1) by (simp add: update_dictionary_def induce_lapmod_fails split: option.splits)
  then show ?thesis
    using Inr m assms(2) by (auto simp: iteration_def and_then_def)
qed

lemma main_lapmod_fails:
  assumes "lapmod a" "self_learning a"
  shows "\<exists>e. main xp rest ev a = Some (Inl e)"
proof -
  have loop: "\<exists>e. training_loop (iteration xp rest ev a val_dict s2i t2i x z) thr (initial_state src trg)
      = Some (Inl e)" for val_dict s2i t2i x z thr src trg
    using iteration_lapmod_fails [OF assms, of xp rest ev val_dict s2i t2i x z "initial_state src trg"]
    by (auto simp: training_loop_first)
  have "\<exists>e. (case training_loop (iteration xp rest ev a val_dict s2i t2i x z) thr (initial_state src trg) of
             None \<Rightarrow> None
           | Some (Inl e) \<Rightarrow> Some (Inl e)
           | Some (Inr st) \<Rightarrow> f st) = Some (Inl e)"
    for val_dict s2i t2i x z thr src trg and f :: "loop_state \<Rightarrow> (error + mat \<times> mat) option"
    using loop [of val_dict s2i t2i x z thr src trg] by auto
  then show ?thesis
    unfolding main_def
    by (simp split: sum.split prod.split)
qed

text \<open>
  C10, as the code has it. With the assignment mode enabled the induction step never
  gives a dictionary. When \<open>lap_rank\<close> is given and the library refuses it as the length of
  a vector, \<open>xp.full\<close> of line 266 raises before \<open>n_similar\<close> is read: ValueError for a
  negative \<open>lap_rank\<close>, the library's error for one beyond what it can allocate. In every
  other case the step raises AttributeError for \<open>n_similar\<close>, which the parser does not
  define. So with self-learning and the assignment mode no iteration completes and the
  program ends in an error.
\<close>

theorem lapmod_induction_always_fails:
  assumes "lapmod a"
  shows "update_dictionary xp rest a nx nz xw zw =
      (case lap_rank a of
         Some r \<Rightarrow>
           if r < 0 then Inl ValueError
           else (case alloc_error xp (nat r) of
                   Some e \<Rightarrow> Inl e
                 | None \<Rightarrow> Inl (AttributeError ''n_similar''))
       | None \<Rightarrow> Inl (AttributeError ''n_similar''))
    \<and> (self_learning a \<longrightarrow>
         (\<exists>e. iteration xp rest ev a val_dict s2i t2i x z st = Inl e)
         \<and> (\<exists>e. main xp rest ev a = Some (Inl e)))"
  using assms iteration_lapmod_fails [of a xp rest ev val_dict s2i t2i x z st]
    main_lapmod_fails [of a xp rest ev]
  by (simp add: update_dictionary_def induce_lapmod_fails)

theorem lapmod_induction_always_fails_witness:
  "lapmod lapmod_args = True
   \<and> self_learning lapmod_args = True
   \<and> update_dictionary identity_backend no_rest lapmod_args 2 2 (eye 2) (eye 2)
       = Inl (AttributeError ''n_similar'')
   \<and> update_dictionary small_memory_backend no_rest huge_rank_args 2 2 (eye 2) (eye 2)
       = Inl ValueError
   \<and> update_dictionary small_memory_backend no_rest large_rank_args 2 2 (eye 2) (eye 2)
       = Inl MemoryError
   \<and> main identity_backend no_rest example_files lapmod_args
       = Some (Inl (AttributeError ''n_similar''))"
proof -
  have l: "lapmod lapmod_args" "lapmod huge_rank_args" "lapmod large_rank_args"
    by (simp_all add: lapmod_args_fields huge_rank_args_def large_rank_args_def)
  have s: "self_learning lapmod_args"
    by (simp add: lapmod_args_fields)
  have u: "update_dictionary xp rest lapmod_args nx nz xw zw = Inl (AttributeError ''n_similar'')"
    for xp rest nx nz xw zw
    using lapmod_induction_always_fails [OF l(1), of xp rest nx nz xw zw]
    by (simp add: lapmod_args_fields)
  have h: "update_dictionary small_memory_backend no_rest huge_rank_args 2 2 (eye 2) (eye 2)
      = Inl ValueError"
    using lapmod_induction_always_fails [OF l(2), of small_memory_backend no_rest 2 2 "eye 2" "eye 2"]
    by (simp add: huge_rank_args_def small_memory_backend_def)
  have g: "update_dictionary small_memory_backend no_rest large_rank_args 2 2 (eye 2) (eye 2)
      = Inl MemoryError"
    using lapmod_induction_always_fails [OF l(3), of small_memory_backend no_rest 2 2 "eye 2" "eye 2"]
    by (simp add: large_rank_args_def small_memory_backend_def)
  have i: "iteration identity_backend no_rest example_files lapmod_args None s2i t2i (eye 2) (eye 2)
      (initial_state both_rows both_rows) = Inl (AttributeError ''n_similar'')" for s2i t2i
    by (simp add: iteration_def update_mapping_def orthogonal_mapping_example u
        initial_state_def lapmod_args_fields and_then_def)
  have "main identity_backend no_rest example_files lapmod_args
      = Some (Inl (AttributeError ''n_similar''))"
    by (simp add: main_def lapmod_args_fields read_inputs_example seed_dictionary_example
        check_arguments_def read_validation_def create_log_def training_loop_first i
        and_then_def)
  with l s u h g show ?thesis
    by simp
qed

text \<open>
  C10, as stated, fails for a negative \<open>lap_rank\<close>: the step raises ValueError, not
  AttributeError.
\<close>

theorem lapmod_attribute_error_counterexample:
  "lapmod negative_rank_args = True
   \<and> update_dictionary identity_backend no_rest negative_rank_args 2 2 (eye 2) (eye 2)
       = Inl ValueError
   \<and> (\<forall>name. update_dictionary identity_backend no_rest negative_rank_args 2 2 (eye 2) (eye 2)
        \<noteq> Inl (AttributeError name))"
  by (simp add: update_dictionary_def induce_lapmod_def full_def and_then_def args_eval)

subsection \<open>Coverage\<close>

lemma fold_enumerate_Some:
  assumes "fold (\<lambda>(i, w) m. m(w \<mapsto> i)) (enumerate n ws) m0 w = Some i"
  shows "(m0 w = Some i \<and> w \<notin> set ws) \<or> (n \<le> i \<and> i < n + length ws \<and> ws ! (i - n) = w)"
  using assms
proof (induction ws arbitrary: n m0)
  case Nil
  then show ?case by simp
next
  case (Cons v ws)
  from Cons.prems have "fold (\<lambda>(i, w) m. m(w \<mapsto> i)) (enumerate (Suc n) ws) (m0(v \<mapsto> n)) w = Some i"
    by (simp del: fun_upd_apply)
  from Cons.IH [OF this] show ?case
    by (auto simp: nth_Cons' split: if_splits)
qed

lemma fold_enumerate_dom:
  "dom (fold (\<lambda>(i, w) m. m(w \<mapsto> i)) (enumerate n ws) m0) = dom m0 \<union> set ws"
  by (induction ws arbitrary: n m0) (auto simp del: fun_upd_apply)

lemma word2ind_dom: "dom (word2ind ws) = set ws"
  by (simp add: word2ind_def fold_enumerate_dom)

lemma word2ind_Some: "word2ind ws w = Some i \<Longrightarrow> i < length ws \<and> ws ! i = w"
  using fold_enumerate_Some [of 0 ws Map.empty w i] by (simp add: word2ind_def)

lemma word2ind_None: "word2ind ws w = None \<longleftrightarrow> w \<notin> set ws"
  using word2ind_dom [of ws] domIff [of w "word2ind ws"] by blast

lemma word2ind_inj_on: "inj_on (\<lambda>w. the (word2ind ws w)) (set ws)"
proof (rule inj_onI)
  fix v w assume "v \<in> set ws" "w \<in> set ws" and eq: "the (word2ind ws v) = the (word2ind ws w)"
  then obtain i j where "word2ind ws v = Some i" "word2ind ws w = Some j"
    using word2ind_None [of ws] by (metis not_Some_eq)
  with eq word2ind_Some [of ws v i] word2ind_Some [of ws w j] show "v = w"
    by simp
qed

lemma coverage_line_pair:
  "coverage_line s2i t2i (pair_line p) cs = Inr (cov_step s2i t2i p cs)"
  by (cases p)
    (simp add: coverage_line_def pair_line_def unpack_pair_def and_then_def cov_step_def
      split: option.splits)

lemma fold_err_cov:
  "fold_err (coverage_line s2i t2i) (map pair_line ps) cs = Inr (fold (cov_step s2i t2i) ps cs)"
  by (induction ps arbitrary: cs) (simp_all add: coverage_line_pair)

lemma lookup_pair_word2ind:
  "lookup_pair (word2ind sw) (word2ind tw) s t =
     (if s \<in> set sw \<and> t \<in> set tw then Some (the (word2ind sw s), the (word2ind tw t)) else None)"
  using word2ind_None [of sw s] word2ind_None [of tw t]
  by (auto simp: lookup_pair_def split: option.splits)

lemma cov_step_found:
  assumes "fst p \<in> set sw" "snd p \<in> set tw"
  shows "vocab (cov_step (word2ind sw) (word2ind tw) p cs) = insert (fst p) (vocab cs)"
    and "oov (cov_step (word2ind sw) (word2ind tw) p cs) = oov cs"
    and "fst ` set (entries (cov_step (word2ind sw) (word2ind tw) p cs)) =
           insert (the (word2ind sw (fst p))) (fst ` set (entries cs))"
    and "distinct (map fst (entries cs)) \<Longrightarrow>
           distinct (map fst (entries (cov_step (word2ind sw) (word2ind tw) p cs)))"
  using assms by (simp_all add: cov_step_def lookup_pair_word2ind dom_update distinct_update)

lemma cov_step_missing:
  assumes "\<not> (fst p \<in> set sw \<and> snd p \<in> set tw)"
  shows "cov_step (word2ind sw) (word2ind tw) p cs = cs\<lparr>oov := insert (fst p) (oov cs)\<rparr>"
  using assms by (auto simp: cov_step_def lookup_pair_word2ind)

lemma found_pairs_Cons:
  "found_pairs sw tw (p # ps) =
     (if fst p \<in> set sw \<and> snd p \<in> set tw then p # found_pairs sw tw ps else found_pairs sw tw ps)"
  by (simp add: found_pairs_def)

lemma cov_fold_inv:
  "vocab (fold (cov_step (word2ind sw) (word2ind tw)) ps cs) = vocab cs \<union> known_source_words sw tw ps
    \<and> oov (fold (cov_step (word2ind sw) (word2ind tw)) ps cs)
         = oov cs \<union> fst ` (set ps - set (found_pairs sw tw ps))
    \<and> fst ` set (entries (fold (cov_step (word2ind sw) (word2ind tw)) ps cs)) =
         fst ` set (entries cs) \<union> (\<lambda>w. the (word2ind sw w)) ` known_source_words sw tw ps
    \<and> (distinct (map fst (entries cs)) \<longrightarrow>
         distinct (map fst (entries (fold (cov_step (word2ind sw) (word2ind tw)) ps cs))))"
proof (induction ps arbitrary: cs)
  case Nil
  then show ?case by (simp add: known_source_words_def found_pairs_def)
next
  case (Cons p ps)
  let ?cs = "cov_step (word2ind sw) (word2ind tw) p cs"
  note IH = Cons.IH [of ?cs]
  have notin: "q \<in> set (found_pairs sw tw ps) \<Longrightarrow> fst q \<in> set sw \<and> snd q \<in> set tw" for q
    by (simp add: found_pairs_def)
  show ?case
  proof (cases "fst p \<in> set sw \<and> snd p \<in> set tw")
    case True
    then have f: "fst p \<in> set sw" "snd p \<in> set tw" by simp_all
    have "fst ` (set (p # ps) - set (found_pairs sw tw (p # ps)))
        = fst ` (set ps - set (found_pairs sw tw ps))"
      using True by (auto simp: found_pairs_def)
    with IH show ?thesis
      by (simp add: cov_step_found [OF f] found_pairs_Cons True known_source_words_def)
  next
    case False
    have fp: "found_pairs sw tw (p # ps) = found_pairs sw tw ps"
      using False by (auto simp: found_pairs_Cons)
    have "p \<notin> set (found_pairs sw tw ps)"
      using False notin by blast
    then have "set (p # ps) - set (found_pairs sw tw ps)
        = insert p (set ps - set (found_pairs sw tw ps))"
      by auto
    then have "fst ` (set (p # ps) - set (found_pairs sw tw ps))
        = insert (fst p) (fst ` (set ps - set (found_pairs sw tw ps)))"
      by simp
    with IH show ?thesis
      by (simp add: cov_step_missing [OF False] fp known_source_words_def del: set_simps)
  qed
qed

text \<open>
  C9. For a reference dictionary given as pairs, with \<open>k\<close> known source words (in the
  source vocabulary and with a translation in the target vocabulary) and \<open>m\<close> other source
  words, the coverage computed is exactly \<open>k / (k + m)\<close>; for the empty dictionary the
  division raises ZeroDivisionError.
\<close>

theorem coverage_is_known_fraction:
  assumes "k = card (known_source_words src_words trg_words pairs)"
    and "m = card (oov_source_words src_words trg_words pairs)"
  shows "coverage (word2ind src_words) (word2ind trg_words) (map pair_line pairs) =
     (if k + m = 0 then Inl ZeroDivisionError else Inr (real k / real (k + m)))"
proof -
  let ?cs = "fold (cov_step (word2ind src_words) (word2ind trg_words)) pairs
     \<lparr>entries = [], oov = {}, vocab = {}\<rparr>"
  let ?K = "known_source_words src_words trg_words pairs"
  note inv = cov_fold_inv [of src_words trg_words pairs "\<lparr>entries = [], oov = {}, vocab = {}\<rparr>"]
  have v: "vocab ?cs = ?K" using inv by simp
  have o: "oov ?cs = fst ` (set pairs - set (found_pairs src_words trg_words pairs))"
    using inv by simp
  have e: "fst ` set (entries ?cs) = (\<lambda>w. the (word2ind src_words w)) ` ?K"
    using inv by simp
  have d: "distinct (map fst (entries ?cs))" using inv by simp
  have sub: "?K \<subseteq> set src_words"
    by (auto simp: known_source_words_def found_pairs_def)
  have "length (entries ?cs) = card (fst ` set (entries ?cs))"
    using d by (metis distinct_card length_map set_map)
  also have "\<dots> = card ?K"
    unfolding e using word2ind_inj_on sub by (metis card_image inj_on_subset)
  finally have len: "length (entries ?cs) = k"
    by (simp add: assms(1))
  have "oov ?cs - vocab ?cs = oov_source_words src_words trg_words pairs"
    unfolding o v by (auto simp: oov_source_words_def known_source_words_def found_pairs_def)
  then have cm: "card (oov ?cs - vocab ?cs) = m"
    by (simp add: assms(2))
  show ?thesis
    by (simp add: coverage_def read_reference_def fold_err_cov and_then_def coverage_of_def
        Let_def len cm)
qed

theorem coverage_is_known_fraction_witness:
  "card (known_source_words [''uno'', ''dos''] [''one'', ''two''] reference_pairs) = 1
   \<and> card (oov_source_words [''uno'', ''dos''] [''one'', ''two''] reference_pairs) = 2
   \<and> coverage (word2ind [''uno'', ''dos'']) (word2ind [''one'', ''two''])
        (map pair_line reference_pairs) = Inr (1 / 3)"
proof -
  have k: "1 = card (known_source_words [''uno'', ''dos''] [''one'', ''two''] reference_pairs)"
    by (simp add: known_source_words_def found_pairs_def reference_pairs_def)
  have m: "2 = card (oov_source_words [''uno'', ''dos''] [''one'', ''two''] reference_pairs)"
    by (simp add: oov_source_words_def known_source_words_def found_pairs_def
        reference_pairs_def)
  from coverage_is_known_fraction [OF k m] k m show ?thesis
    by simp
qed

subsection \<open>Dictionary induction by nearest neighbours\<close>

lemma argmax_list_less: "v \<noteq> [] \<Longrightarrow> argmax_list v < length v"
  by (induction v rule: argmax_list.induct) (auto simp: Let_def)

lemma argmax_list_max: "i < length v \<Longrightarrow> v ! i \<le> v ! argmax_list v"
proof (induction v arbitrary: i rule: argmax_list.induct)
  case 1
  then show ?case by simp
next
  case (2 x)
  then show ?case by simp
next
  case (3 x y ys)
  show ?case
  proof (cases i)
    case 0
    then show ?thesis by (simp add: Let_def)
  next
    case (Suc j)
    with 3 have "(y # ys) ! j \<le> (y # ys) ! argmax_list (y # ys)" by simp
    with Suc show ?thesis by (auto simp: Let_def)
  qed
qed

lemma argmax_list_first: "i < argmax_list v \<Longrightarrow> v ! i < v ! argmax_list v"
proof (induction v arbitrary: i rule: argmax_list.induct)
  case 1
  then show ?case by simp
next
  case (2 x)
  then show ?case by simp
next
  case (3 x y ys)
  show ?case
  proof (cases i)
    case 0
    with "3.prems" show ?thesis by (auto simp: Let_def split: if_splits)
  next
    case (Suc j)
    with "3.prems" have "j < argmax_list (y # ys)" by (auto simp: Let_def split: if_splits)
    with 3 have "(y # ys) ! j < (y # ys) ! argmax_list (y # ys)" by simp
    with Suc "3.prems" show ?thesis by (auto simp: Let_def split: if_splits)
  qed
qed

lemma argmax_list_unique:
  assumes "a < length v" and "\<forall>i<length v. v ! i \<le> v ! a" and "\<forall>i<a. v ! i < v ! a"
  shows "argmax_list v = a"
proof -
  have ne: "v \<noteq> []" using assms(1) by auto
  let ?m = "argmax_list v"
  have m: "?m < length v" using ne by (rule argmax_list_less)
  have "v ! a \<le> v ! ?m" using assms(1) by (rule argmax_list_max)
  moreover have "v ! ?m \<le> v ! a" using assms(2) m by simp
  ultimately have eq: "v ! ?m = v ! a" by simp
  have "\<not> a < ?m" using argmax_list_first [of a v] eq by auto
  moreover have "\<not> ?m < a" using assms(3) eq by auto
  ultimately show ?thesis by simp
qed

lemma argmax_list_append:
  assumes "xs \<noteq> []" "ys \<noteq> []"
  shows "argmax_list (xs @ ys) =
     (if maxval xs < maxval ys then length xs + argmax_list ys else argmax_list xs)"
proof (cases "maxval xs < maxval ys")
  case True
  have "argmax_list (xs @ ys) = length xs + argmax_list ys"
  proof (rule argmax_list_unique)
    show "length xs + argmax_list ys < length (xs @ ys)"
      using argmax_list_less [OF assms(2)] by simp
    show "\<forall>i<length (xs @ ys). (xs @ ys) ! i \<le> (xs @ ys) ! (length xs + argmax_list ys)"
    proof (intro allI impI)
      fix i assume "i < length (xs @ ys)"
      show "(xs @ ys) ! i \<le> (xs @ ys) ! (length xs + argmax_list ys)"
      proof (cases "i < length xs")
        case True
        then have "xs ! i \<le> maxval xs" unfolding maxval_def by (rule argmax_list_max)
        with True \<open>maxval xs < maxval ys\<close> show ?thesis
          by (simp add: nth_append maxval_def)
      next
        case False
        with \<open>i < length (xs @ ys)\<close> have "i - length xs < length ys" by simp
        then have "ys ! (i - length xs) \<le> maxval ys" unfolding maxval_def by (rule argmax_list_max)
        with False show ?thesis by (simp add: nth_append maxval_def)
      qed
    qed
    show "\<forall>i<length xs + argmax_list ys. (xs @ ys) ! i < (xs @ ys) ! (length xs + argmax_list ys)"
    proof (intro allI impI)
      fix i assume i: "i < length xs + argmax_list ys"
      show "(xs @ ys) ! i < (xs @ ys) ! (length xs + argmax_list ys)"
      proof (cases "i < length xs")
        case True
        then have "xs ! i \<le> maxval xs" unfolding maxval_def by (rule argmax_list_max)
        with True \<open>maxval xs < maxval ys\<close> show ?thesis
          by (simp add: nth_append maxval_def)
      next
        case False
        with i have "i - length xs < argmax_list ys" by simp
        then have "ys ! (i - length xs) < maxval ys" unfolding maxval_def by (rule argmax_list_first)
        with False show ?thesis by (simp add: nth_append maxval_def)
      qed
    qed
  qed
  with True show ?thesis by simp
next
  case False
  have "argmax_list (xs @ ys) = argmax_list xs"
  proof (rule argmax_list_unique)
    show "argmax_list xs < length (xs @ ys)"
      using argmax_list_less [OF assms(1)] by simp
    show "\<forall>i<length (xs @ ys). (xs @ ys) ! i \<le> (xs @ ys) ! argmax_list xs"
    proof (intro allI impI)
      fix i assume "i < length (xs @ ys)"
      show "(xs @ ys) ! i \<le> (xs @ ys) ! argmax_list xs"
      proof (cases "i < length xs")
        case True
        then have "xs ! i \<le> maxval xs" unfolding maxval_def by (rule argmax_list_max)
        with True argmax_list_less [OF assms(1)] show ?thesis
          by (simp add: nth_append maxval_def)
      next
        case F: False
        with \<open>i < length (xs @ ys)\<close> have "i - length xs < length ys" by simp
        then have "ys ! (i - length xs) \<le> maxval ys" unfolding maxval_def by (rule argmax_list_max)
        with F False argmax_list_less [OF assms(1)] show ?thesis
          by (simp add: nth_append maxval_def)
      qed
    qed
    show "\<forall>i<argmax_list xs. (xs @ ys) ! i < (xs @ ys) ! argmax_list xs"
      using argmax_list_first [of _ xs] argmax_list_less [OF assms(1)]
      by (simp add: nth_append)
  qed
  with False show ?thesis by simp
qed

lemma maxval_append:
  assumes "xs \<noteq> []" "ys \<noteq> []"
  shows "maxval (xs @ ys) = max (maxval xs) (maxval ys)"
  using argmax_list_less [OF assms(1)]
  by (auto simp: maxval_def [of "xs @ ys"] argmax_list_append [OF assms] nth_append)
    (simp_all add: maxval_def)

lemma block_step_sentinel:
  assumes "ys \<noteq> []"
  shows "block_step ys (length xs) (sentinel_argmax xs) = sentinel_argmax (xs @ ys)"
proof (cases "xs = []")
  case True
  then show ?thesis
    by (simp add: block_step_def sentinel_argmax_def assms)
next
  case False
  show ?thesis
    using argmax_list_append [OF False assms] maxval_append [OF False assms] False assms
    by (auto simp: block_step_def sentinel_argmax_def)
qed

lemma block_count:
  assumes "0 < step"
  shows "(m::nat) < (n + step - 1) div step \<longleftrightarrow> m * step < n"
proof -
  have "m < (n + step - 1) div step \<longleftrightarrow> Suc m \<le> (n + step - 1) div step" by auto
  also have "\<dots> \<longleftrightarrow> Suc m * step \<le> n + step - 1"
    using assms by (simp add: less_eq_div_iff_mult_less_eq)
  also have "\<dots> \<longleftrightarrow> m * step < n"
    using assms by auto
  finally show ?thesis .
qed

lemma fold_blocks_prefix:
  assumes "0 < step" "length v = n" "m \<le> (n + step - 1) div step"
  shows "fold (\<lambda>k e. block_step (segment v k (min n (k + step))) k e) (map (\<lambda>b. b * step) [0..<m]) (-100, 0)
     = sentinel_argmax (take (m * step) v)"
  using assms(3)
proof (induction m)
  case 0
  then show ?case by (simp add: sentinel_argmax_def)
next
  case (Suc m)
  let ?k = "m * step"
  let ?l = "min n (?k + step)"
  from Suc.prems have "m < (n + step - 1) div step" by simp
  then have k: "?k < n" using block_count [OF assms(1)] by simp
  then have len: "length (take ?k v) = ?k" using assms(2) by simp
  have ne: "segment v ?k ?l \<noteq> []"
    using k assms(1,2) by (simp add: segment_def)
  have app: "take ?k v @ segment v ?k ?l = take (Suc m * step) v"
  proof -
    have "take ?k v @ segment v ?k ?l = take ?l v"
      using k assms(1) by (simp add: segment_def take_add [symmetric] min_def)
    also have "\<dots> = take (Suc m * step) v"
      using assms(2) by (simp add: min_def add.commute)
    finally show ?thesis .
  qed
  have "fold (\<lambda>k e. block_step (segment v k (min n (k + step))) k e) (map (\<lambda>b. b * step) [0..<Suc m]) (-100, 0)
      = block_step (segment v ?k ?l) ?k (sentinel_argmax (take ?k v))"
    using Suc by simp
  also have "\<dots> = sentinel_argmax (take ?k v @ segment v ?k ?l)"
    using block_step_sentinel [OF ne, of "take ?k v"] len by simp
  finally show ?case by (simp only: app)
qed

lemma fold_blocks_sentinel:
  assumes "0 < step" "length v = n"
  shows "fold (\<lambda>k e. block_step (segment v k (min n (k + step))) k e) (range_step n step) (-100, 0)
     = sentinel_argmax v"
proof -
  let ?nb = "(n + step - 1) div step"
  have "\<not> ?nb < ?nb" by simp
  then have "\<not> ?nb * step < n" using block_count [OF assms(1), of ?nb n] by simp
  then have "take (?nb * step) v = v" using assms(2) by simp
  with fold_blocks_prefix [OF assms, of ?nb] show ?thesis
    by (simp add: range_step_def)
qed

lemma fold_if_none:
  "\<forall>x\<in>set xs. \<not> P x \<Longrightarrow> fold (\<lambda>x e. if P x then G x e else e) xs e = e"
  by (induction xs) simp_all

lemma fold_if_const:
  "fold (\<lambda>x e. if C then U x e else e) xs e = (if C then fold U xs e else e)"
  by (induction xs arbitrary: e) simp_all

lemma fold_one_block:
  assumes "0 < step" "p < n"
  shows "fold (\<lambda>i e. if i \<le> p \<and> p < min n (i + step) then G i e else e) (range_step n step) e
     = G (p div step * step) e"
proof -
  let ?P = "\<lambda>i. i \<le> p \<and> p < min n (i + step)"
  let ?nb = "(n + step - 1) div step"
  let ?b = "p div step"
  have "?b * step \<le> p" by simp
  from this assms(2) have "?b * step < n" by (rule le_less_trans)
  then have b: "?b < ?nb" using block_count [OF assms(1)] by simp
  have split: "[0..<?nb] = [0..<?b] @ ?b # [Suc ?b..<?nb]"
    using b by (metis le0 upt_add_eq_append upt_conv_Cons less_imp_le_nat le_add_diff_inverse add.left_neutral)
  have "p mod step < step" using assms(1) by simp
  moreover have "p = ?b * step + p mod step" by simp
  ultimately have "p < ?b * step + step" by linarith
  then have P: "?P (?b * step)"
    using assms(2) by simp
  have before: "\<forall>i\<in>set (map (\<lambda>b. b * step) [0..<?b]). \<not> ?P i"
  proof
    fix i assume "i \<in> set (map (\<lambda>b. b * step) [0..<?b])"
    then have "i \<in> (\<lambda>b. b * step) ` set [0..<?b]" by simp
    then obtain c where c0: "i = c * step" "c \<in> set [0..<?b]" by (rule imageE)
    then have c: "i = c * step" "c < ?b" by simp_all
    then have "Suc c \<le> ?b" by simp
    then have "Suc c * step \<le> p" using assms(1) by (simp add: less_eq_div_iff_mult_less_eq)
    with c show "\<not> ?P i" by simp
  qed
  have after: "\<forall>i\<in>set (map (\<lambda>b. b * step) [Suc ?b..<?nb]). \<not> ?P i"
  proof
    fix i assume "i \<in> set (map (\<lambda>b. b * step) [Suc ?b..<?nb])"
    then have "i \<in> (\<lambda>b. b * step) ` set [Suc ?b..<?nb]" by simp
    then obtain c where c0: "i = c * step" "c \<in> set [Suc ?b..<?nb]" by (rule imageE)
    then have c: "i = c * step" "?b < c" by simp_all
    then have "p < c * step" using assms(1)
      by (metis div_less_iff_less_mult)
    with c show "\<not> ?P i" by simp
  qed
  let ?F = "\<lambda>i e. if i \<le> p \<and> p < min n (i + step) then G i e else e"
  have 1: "fold ?F (map (\<lambda>b. b * step) [0..<?b]) e = e"
    by (rule fold_if_none [OF before])
  have 2: "fold ?F (map (\<lambda>b. b * step) [Suc ?b..<?nb]) e' = e'" for e'
    by (rule fold_if_none [OF after])
  have 3: "?F (?b * step) e = G (?b * step) e"
    using P by simp
  have "fold ?F (range_step n step) e
      = fold ?F (map (\<lambda>b. b * step) [Suc ?b..<?nb])
          (?F (?b * step) (fold ?F (map (\<lambda>b. b * step) [0..<?b]) e))"
    unfolding range_step_def by (subst split) simp
  then show ?thesis
    by (simp only: 1 2 3)
qed

lemma nrows_build [simp]: "nrows (build n m f) = n"
  and ncols_build [simp]: "ncols (build n m f) = m"
  and length_rows_build [simp]: "length (rows (build n m f)) = n"
  by (simp_all add: build_def)

lemma rows_build_nth [simp]: "i < n \<Longrightarrow> rows (build n m f) ! i = map (f i) [0..<m]"
  by (simp add: build_def)

lemma entry_build [simp]: "i < n \<Longrightarrow> j < m \<Longrightarrow> entry (build n m f) i j = f i j"
  by (simp add: entry_def)

lemma build_cong:
  assumes "\<And>i j. i < n \<Longrightarrow> j < m \<Longrightarrow> f i j = g i j"
  shows "build n m f = build n m g"
  using assms by (simp add: build_def)

lemma sum_list_upt_cong:
  assumes "\<And>k. k < n \<Longrightarrow> f k = g k"
  shows "(\<Sum>k\<leftarrow>[0..<n]. f k) = (\<Sum>k\<leftarrow>[0..<n]. g k)"
proof -
  have "map f [0..<n] = map g [0..<n]" using assms by simp
  then show ?thesis by (rule arg_cong)
qed

lemma entry_slice_rows:
  assumes "length (rows A) = nrows A" "j \<le> nrows A" "i + a < j"
  shows "entry (slice_rows A i j) a d = entry A (i + a) d"
  using assms by (simp add: entry_def slice_rows_def)

lemma sim_block:
  assumes "length (rows xw) = nrows xw" "length (rows zw) = nrows zw" "ncols xw = ncols zw"
    and "j \<le> nrows xw" "l \<le> nrows zw"
  shows "dot (slice_rows xw i j) (transpose_mat (slice_rows zw k l))
     = Inr (build (j - i) (l - k) (\<lambda>a b. sim_entry xw zw (i + a) (k + b)))"
proof -
  have n: "nrows (slice_rows xw i j) = j - i" "nrows (slice_rows zw k l) = l - k"
    "ncols (slice_rows xw i j) = ncols xw" "ncols (slice_rows zw k l) = ncols zw"
    using assms(4,5) by (simp_all add: slice_rows_def)
  have "dot_raw (slice_rows xw i j) (transpose_mat (slice_rows zw k l))
      = build (j - i) (l - k) (\<lambda>a b. sim_entry xw zw (i + a) (k + b))"
    unfolding dot_raw_def transpose_mat_def n nrows_build ncols_build sim_entry_def
  proof (rule build_cong, rule sum_list_upt_cong)
    fix a b d assume "a < j - i" "b < l - k" "d < ncols xw"
    then show "entry (slice_rows xw i j) a d
        * entry (build (ncols zw) (l - k) (\<lambda>i j. entry (slice_rows zw k l) j i)) d b
        = entry xw (i + a) d * entry zw (k + b) d"
      using assms by (simp add: entry_slice_rows)
  qed
  then show ?thesis
    by (simp add: dot_def n transpose_mat_def assms(3))
qed

lemma sim_full:
  assumes "ncols xw = ncols zw"
  shows "dot xw (transpose_mat zw) = Inr (build (nrows xw) (nrows zw) (sim_entry xw zw))"
proof -
  have "dot_raw xw (transpose_mat zw) = build (nrows xw) (nrows zw) (sim_entry xw zw)"
    unfolding dot_raw_def transpose_mat_def nrows_build ncols_build sim_entry_def
    by (rule build_cong, rule sum_list_upt_cong) (simp add: assms)
  then show ?thesis
    by (simp add: dot_def transpose_mat_def assms)
qed

lemma segment_map_upt:
  assumes "l \<le> n"
  shows "segment (map f [0..<n]) k l = map (\<lambda>b. f (k + b)) [0..<l - k]"
proof -
  have "segment (map f [0..<n]) k l = map f (take (l - k) [k..<n])"
    by (simp add: segment_def take_map drop_map)
  also have "take (l - k) [k..<n] = [k..<l]"
    using assms by (cases "k \<le> l") (simp_all add: take_upt)
  also have "map f [k..<l] = map (\<lambda>b. f (k + b)) [0..<l - k]"
    by (rule nth_equalityI) simp_all
  finally show ?thesis .
qed

lemma length_masked_assign [simp]: "length (masked_assign arr i msk vals) = length arr"
  by (simp add: masked_assign_def)

lemma masked_assign_nth:
  "p < length arr \<Longrightarrow> masked_assign arr i msk vals ! p =
     (if i \<le> p \<and> p - i < length msk \<and> msk ! (p - i) then vals ! (p - i) else arr ! p)"
  by (simp add: masked_assign_def)

lemma zip_map_same: "zip xs (map f xs) = map (\<lambda>x. (x, f x)) xs"
  by (induction xs) simp_all

lemma forward_update_elem:
  assumes "nn_lengths nx nz st" "j \<le> nx" "k < l"
  shows "\<exists>st'. forward_update (build (j - i) (l - k) (\<lambda>a b. S (i + a) (k + b))) i j k st = Inr st'
    \<and> nn_lengths nx nz st'
    \<and> (\<forall>p<nx. forward_at st' p =
         (if i \<le> p \<and> p < j then block_step (map (\<lambda>b. S p (k + b)) [0..<l - k]) k (forward_at st p) else forward_at st p))
    \<and> (\<forall>c. backward_at st' c = backward_at st c)"
proof -
  let ?B = "build (j - i) (l - k) (\<lambda>a b. S (i + a) (k + b))"
  let ?row = "\<lambda>a. map (\<lambda>b. S (i + a) (k + b)) [0..<l - k]"
  let ?val = "map (\<lambda>a. maxval (?row a)) [0..<j - i]"
  let ?ind = "map (\<lambda>a. argmax_list (?row a) + k) [0..<j - i]"
  let ?msk = "map (\<lambda>(v, b). b < v) (zip ?val (take (j - i) (drop i (best_sim_forward st))))"
  let ?st' = "st\<lparr>best_sim_forward := masked_assign (best_sim_forward st) i ?msk ?val,
                  trg_indices_forward := masked_assign (trg_indices_forward st) i ?msk ?ind\<rparr>"
  have rows: "rows ?B = map ?row [0..<j - i]"
    by (simp add: build_def)
  have len: "length (best_sim_forward st) = nx" "length (trg_indices_forward st) = nx"
    using assms(1) by (simp_all add: nn_lengths_def)
  have am: "argmax_axis1 ?B = Inr (map (\<lambda>a. argmax_list (?row a)) [0..<j - i])"
    using assms(3) by (simp add: argmax_axis1_def rows comp_def)
  have val: "map (\<lambda>(r, c). r ! c) (zip (rows ?B) (map (\<lambda>a. argmax_list (?row a)) [0..<j - i])) = ?val"
    unfolding rows by (rule nth_equalityI) (simp_all add: maxval_def)
  have ind: "map (\<lambda>c. c + k) (map (\<lambda>a. argmax_list (?row a)) [0..<j - i]) = ?ind"
    by simp
  have eq: "forward_update ?B i j k st = Inr ?st'"
    unfolding forward_update_def and_then_def am
    by (simp only: sum.case Let_def val ind)
  have lmsk: "length ?msk = j - i"
    using assms(2) len by simp
  have msk: "?msk ! a = (best_sim_forward st ! (i + a) < maxval (?row a))" if "a < j - i" for a
    using that assms(2) len by simp
  have elem: "forward_at ?st' p =
      (if i \<le> p \<and> p < j then block_step (map (\<lambda>b. S p (k + b)) [0..<l - k]) k (forward_at st p) else forward_at st p)"
    if "p < nx" for p
  proof (cases "i \<le> p \<and> p < j")
    case True
    then have a: "p - i < j - i" "i + (p - i) = p" by auto
    have pl: "p < length (best_sim_forward st)" "p < length (trg_indices_forward st)"
      using that len by simp_all
    have m1: "?msk ! (p - i) = (best_sim_forward st ! p < maxval (?row (p - i)))"
      using msk [OF a(1)] unfolding a(2) .
    have v1: "?val ! (p - i) = maxval (?row (p - i))"
      using a(1) by simp
    have i1: "?ind ! (p - i) = argmax_list (?row (p - i)) + k"
      using a(1) by simp
    have c: "(i \<le> p \<and> p - i < length ?msk \<and> ?msk ! (p - i))
        = (best_sim_forward st ! p < maxval (?row (p - i)))"
      using True a(1) by (simp only: lmsk m1) simp
    have mb: "masked_assign (best_sim_forward st) i ?msk ?val ! p =
        (if best_sim_forward st ! p < maxval (?row (p - i)) then maxval (?row (p - i))
         else best_sim_forward st ! p)"
      unfolding masked_assign_nth [OF pl(1)] c v1 by (rule refl)
    have mt: "masked_assign (trg_indices_forward st) i ?msk ?ind ! p =
        (if best_sim_forward st ! p < maxval (?row (p - i)) then argmax_list (?row (p - i)) + k
         else trg_indices_forward st ! p)"
      unfolding masked_assign_nth [OF pl(2)] c i1 by (rule refl)
    have "forward_at ?st' p = (masked_assign (best_sim_forward st) i ?msk ?val ! p,
        masked_assign (trg_indices_forward st) i ?msk ?ind ! p)"
      by (simp add: forward_at_def)
    then have "forward_at ?st' p =
        (if best_sim_forward st ! p < maxval (?row (p - i))
         then (maxval (?row (p - i)), argmax_list (?row (p - i)) + k) else forward_at st p)"
      unfolding mb mt by (simp add: forward_at_def)
    then show ?thesis
      using True unfolding a(2) by (simp add: block_step_def forward_at_def)
  next
    case False
    have pl: "p < length (best_sim_forward st)" "p < length (trg_indices_forward st)"
      using that len by simp_all
    have "\<not> (i \<le> p \<and> p - i < j - i)" using False by auto
    then have nc: "(i \<le> p \<and> p - i < length ?msk \<and> ?msk ! (p - i)) = False"
      unfolding lmsk by blast
    have mb: "masked_assign (best_sim_forward st) i ?msk ?val ! p = best_sim_forward st ! p"
      unfolding masked_assign_nth [OF pl(1)] nc by simp
    have mt: "masked_assign (trg_indices_forward st) i ?msk ?ind ! p = trg_indices_forward st ! p"
      unfolding masked_assign_nth [OF pl(2)] nc by simp
    have "forward_at ?st' p = (masked_assign (best_sim_forward st) i ?msk ?val ! p,
        masked_assign (trg_indices_forward st) i ?msk ?ind ! p)"
      by (simp add: forward_at_def)
    then show ?thesis
      unfolding mb mt using False by (auto simp: forward_at_def)
  qed
  have "nn_lengths nx nz ?st'"
    using assms(1) by (simp add: nn_lengths_def)
  moreover have "\<forall>c. backward_at ?st' c = backward_at st c"
    by (simp add: backward_at_def)
  ultimately show ?thesis
    using eq elem by blast
qed

lemma backward_update_elem:
  assumes "nn_lengths nx nz st" "l \<le> nz" "i < j"
  shows "\<exists>st'. backward_update (build (j - i) (l - k) (\<lambda>a b. S (i + a) (k + b))) i k l st = Inr st'
    \<and> nn_lengths nx nz st'
    \<and> (\<forall>c<nz. backward_at st' c =
         (if k \<le> c \<and> c < l then block_step (map (\<lambda>a. S (i + a) c) [0..<j - i]) i (backward_at st c) else backward_at st c))
    \<and> (\<forall>p. forward_at st' p = forward_at st p)"
proof -
  let ?B = "build (j - i) (l - k) (\<lambda>a b. S (i + a) (k + b))"
  let ?col = "\<lambda>b. map (\<lambda>a. S (i + a) (k + b)) [0..<j - i]"
  let ?val = "map (\<lambda>b. maxval (?col b)) [0..<l - k]"
  let ?ind = "map (\<lambda>b. argmax_list (?col b) + i) [0..<l - k]"
  let ?msk = "map (\<lambda>(v, b). b < v) (zip ?val (take (l - k) (drop k (best_sim_backward st))))"
  let ?st' = "st\<lparr>best_sim_backward := masked_assign (best_sim_backward st) k ?msk ?val,
                  src_indices_backward := masked_assign (src_indices_backward st) k ?msk ?ind\<rparr>"
  have rows: "rows (transpose_mat ?B) = map ?col [0..<l - k]"
    by (simp add: transpose_mat_def build_def entry_def)
  have len: "length (best_sim_backward st) = nz" "length (src_indices_backward st) = nz"
    using assms(1) by (simp_all add: nn_lengths_def)
  have am: "argmax_list (?col b) < j - i" for b
    using argmax_list_less [of "?col b"] assms(3) by simp
  have ax: "argmax_axis0 ?B = Inr (map (\<lambda>b. argmax_list (?col b)) [0..<l - k])"
    using assms(3) by (simp add: argmax_axis0_def rows comp_def)
  have val: "map (\<lambda>(r, c). entry ?B r c)
      (zip (map (\<lambda>b. argmax_list (?col b)) [0..<l - k]) [0..<ncols ?B]) = ?val"
    by (rule nth_equalityI) (simp_all add: am maxval_def)
  have ind: "map (\<lambda>r. r + i) (map (\<lambda>b. argmax_list (?col b)) [0..<l - k]) = ?ind"
    by simp
  have eq: "backward_update ?B i k l st = Inr ?st'"
    unfolding backward_update_def and_then_def ax
    by (simp only: sum.case Let_def val ind)
  have lmsk: "length ?msk = l - k"
    using assms(2) len by simp
  have msk: "?msk ! b = (best_sim_backward st ! (k + b) < maxval (?col b))" if "b < l - k" for b
    using that assms(2) len by simp
  have elem: "backward_at ?st' c =
      (if k \<le> c \<and> c < l then block_step (map (\<lambda>a. S (i + a) c) [0..<j - i]) i (backward_at st c) else backward_at st c)"
    if "c < nz" for c
  proof (cases "k \<le> c \<and> c < l")
    case True
    then have a: "c - k < l - k" "k + (c - k) = c" by auto
    have pl: "c < length (best_sim_backward st)" "c < length (src_indices_backward st)"
      using that len by simp_all
    have m1: "?msk ! (c - k) = (best_sim_backward st ! c < maxval (?col (c - k)))"
      using msk [OF a(1)] unfolding a(2) .
    have v1: "?val ! (c - k) = maxval (?col (c - k))"
      using a(1) by simp
    have i1: "?ind ! (c - k) = argmax_list (?col (c - k)) + i"
      using a(1) by simp
    have cc: "(k \<le> c \<and> c - k < length ?msk \<and> ?msk ! (c - k))
        = (best_sim_backward st ! c < maxval (?col (c - k)))"
      using True a(1) by (simp only: lmsk m1) simp
    have mb: "masked_assign (best_sim_backward st) k ?msk ?val ! c =
        (if best_sim_backward st ! c < maxval (?col (c - k)) then maxval (?col (c - k))
         else best_sim_backward st ! c)"
      unfolding masked_assign_nth [OF pl(1)] cc v1 by (rule refl)
    have mt: "masked_assign (src_indices_backward st) k ?msk ?ind ! c =
        (if best_sim_backward st ! c < maxval (?col (c - k)) then argmax_list (?col (c - k)) + i
         else src_indices_backward st ! c)"
      unfolding masked_assign_nth [OF pl(2)] cc i1 by (rule refl)
    have "backward_at ?st' c = (masked_assign (best_sim_backward st) k ?msk ?val ! c,
        masked_assign (src_indices_backward st) k ?msk ?ind ! c)"
      by (simp add: backward_at_def)
    then have "backward_at ?st' c =
        (if best_sim_backward st ! c < maxval (?col (c - k))
         then (maxval (?col (c - k)), argmax_list (?col (c - k)) + i) else backward_at st c)"
      unfolding mb mt by (simp add: backward_at_def)
    then show ?thesis
      using True unfolding a(2) by (simp add: block_step_def backward_at_def)
  next
    case False
    have pl: "c < length (best_sim_backward st)" "c < length (src_indices_backward st)"
      using that len by simp_all
    have "\<not> (k \<le> c \<and> c - k < l - k)" using False by auto
    then have nc: "(k \<le> c \<and> c - k < length ?msk \<and> ?msk ! (c - k)) = False"
      unfolding lmsk by blast
    have mb: "masked_assign (best_sim_backward st) k ?msk ?val ! c = best_sim_backward st ! c"
      unfolding masked_assign_nth [OF pl(1)] nc by simp
    have mt: "masked_assign (src_indices_backward st) k ?msk ?ind ! c = src_indices_backward st ! c"
      unfolding masked_assign_nth [OF pl(2)] nc by simp
    have "backward_at ?st' c = (masked_assign (best_sim_backward st) k ?msk ?val ! c,
        masked_assign (src_indices_backward st) k ?msk ?ind ! c)"
      by (simp add: backward_at_def)
    then show ?thesis
      unfolding mb mt using False by (auto simp: backward_at_def)
  qed
  have "nn_lengths nx nz ?st'"
    using assms(1) by (simp add: nn_lengths_def)
  moreover have "\<forall>p. forward_at ?st' p = forward_at st p"
    by (simp add: forward_at_def)
  ultimately show ?thesis
    using eq elem by blast
qed

lemma nn_block_elem:
  assumes xw: "length (rows xw) = nrows xw" and zw: "length (rows zw) = nrows zw"
    and cols: "ncols xw = ncols zw"
    and st: "nn_lengths (nrows xw) (nrows zw) st"
    and ij: "i < j" "j \<le> nrows xw" and kl: "k < l" "l \<le> nrows zw"
  shows "\<exists>st'. nn_block dir xw zw i j k l st = Inr st'
    \<and> nn_lengths (nrows xw) (nrows zw) st'
    \<and> (\<forall>p<nrows xw. forward_at st' p =
         (if (dir = Forward \<or> dir = Union) \<and> i \<le> p \<and> p < j
          then block_step (segment (sim_row xw zw p) k l) k (forward_at st p) else forward_at st p))
    \<and> (\<forall>c<nrows zw. backward_at st' c =
         (if (dir = Backward \<or> dir = Union) \<and> k \<le> c \<and> c < l
          then block_step (segment (sim_col xw zw c) i j) i (backward_at st c) else backward_at st c))"
proof -
  let ?S = "sim_entry xw zw"
  let ?B = "build (j - i) (l - k) (\<lambda>a b. ?S (i + a) (k + b))"
  have blk: "dot (slice_rows xw i j) (transpose_mat (slice_rows zw k l)) = Inr ?B"
    using xw zw cols ij(2) kl(2) by (rule sim_block)
  have rseg: "segment (sim_row xw zw p) k l = map (\<lambda>b. ?S p (k + b)) [0..<l - k]" for p
    unfolding sim_row_def using kl(2) by (rule segment_map_upt)
  have cseg: "segment (sim_col xw zw c) i j = map (\<lambda>a. ?S (i + a) c) [0..<j - i]" for c
    unfolding sim_col_def using ij(2) by (rule segment_map_upt)
  obtain st1 where st1: "(if dir = Forward \<or> dir = Union then forward_update ?B i j k st else Inr st) = Inr st1"
    and l1: "nn_lengths (nrows xw) (nrows zw) st1"
    and f1: "\<forall>p<nrows xw. forward_at st1 p =
         (if (dir = Forward \<or> dir = Union) \<and> i \<le> p \<and> p < j
          then block_step (segment (sim_row xw zw p) k l) k (forward_at st p) else forward_at st p)"
    and b1: "\<forall>c. backward_at st1 c = backward_at st c"
  proof (cases "dir = Forward \<or> dir = Union")
    case True
    from forward_update_elem [OF st ij(2) kl(1), of i ?S] True that show ?thesis
      unfolding rseg by auto
  next
    case False
    with st that show ?thesis by auto
  qed
  obtain st2 where st2: "(if dir = Backward \<or> dir = Union then backward_update ?B i k l st1 else Inr st1) = Inr st2"
    and l2: "nn_lengths (nrows xw) (nrows zw) st2"
    and b2: "\<forall>c<nrows zw. backward_at st2 c =
         (if (dir = Backward \<or> dir = Union) \<and> k \<le> c \<and> c < l
          then block_step (segment (sim_col xw zw c) i j) i (backward_at st1 c) else backward_at st1 c)"
    and f2: "\<forall>p. forward_at st2 p = forward_at st1 p"
  proof (cases "dir = Backward \<or> dir = Union")
    case True
    from backward_update_elem [OF l1 kl(2) ij(1), of k ?S] True that show ?thesis
      unfolding cseg by auto
  next
    case False
    with l1 that show ?thesis by auto
  qed
  have "nn_block dir xw zw i j k l st = Inr st2"
    unfolding nn_block_def blk and_then_def using st1 st2 by simp
  with l2 f1 b1 b2 f2 show ?thesis
    by auto
qed

lemma fold_err_proj:
  assumes "\<And>a s. a \<in> set as \<Longrightarrow> I s \<Longrightarrow>
      \<exists>s'. f a s = Inr s' \<and> I s' \<and> (\<forall>q<n1. P1 s' q = h1 q a (P1 s q)) \<and> (\<forall>q<n2. P2 s' q = h2 q a (P2 s q))"
    and "I s"
  shows "\<exists>s'. fold_err f as s = Inr s' \<and> I s'
     \<and> (\<forall>q<n1. P1 s' q = fold (h1 q) as (P1 s q)) \<and> (\<forall>q<n2. P2 s' q = fold (h2 q) as (P2 s q))"
  using assms
proof (induction as arbitrary: s)
  case Nil
  then show ?case by simp
next
  case (Cons a as)
  from Cons.prems(1) [of a s] Cons.prems(2)
  obtain s1 where s1: "f a s = Inr s1" "I s1" "\<forall>q<n1. P1 s1 q = h1 q a (P1 s q)"
      "\<forall>q<n2. P2 s1 q = h2 q a (P2 s q)"
    by auto
  have "\<exists>s'. fold_err f as s1 = Inr s' \<and> I s'
     \<and> (\<forall>q<n1. P1 s' q = fold (h1 q) as (P1 s1 q)) \<and> (\<forall>q<n2. P2 s' q = fold (h2 q) as (P2 s1 q))"
    by (rule Cons.IH) (use Cons.prems(1) s1(2) in auto)
  with s1 show ?case by auto
qed

lemma range_step_less:
  assumes "0 < step" "k \<in> set (range_step n step)"
  shows "k < n"
  using assms block_count [OF assms(1)] by (auto simp: range_step_def)

lemma nn_inner:
  assumes xw: "length (rows xw) = nrows xw" and zw: "length (rows zw) = nrows zw"
    and cols: "ncols xw = ncols zw"
    and st: "nn_lengths (nrows xw) (nrows zw) st"
    and mz: "0 < mz"
    and ij: "i < j" "j \<le> nrows xw"
  shows "\<exists>st'. fold_err (\<lambda>k. nn_block dir xw zw i j k (min (nrows zw) (k + mz)))
        (range_step (nrows zw) mz) st = Inr st'
    \<and> nn_lengths (nrows xw) (nrows zw) st'
    \<and> (\<forall>p<nrows xw. forward_at st' p =
         (if (dir = Forward \<or> dir = Union) \<and> i \<le> p \<and> p < j
          then fold (\<lambda>k. block_step (segment (sim_row xw zw p) k (min (nrows zw) (k + mz))) k)
                 (range_step (nrows zw) mz) (forward_at st p)
          else forward_at st p))
    \<and> (\<forall>c<nrows zw. backward_at st' c =
         (if dir = Backward \<or> dir = Union then block_step (segment (sim_col xw zw c) i j) i (backward_at st c)
          else backward_at st c))"
proof -
  let ?nz = "nrows zw"
  let ?ks = "range_step ?nz mz"
  let ?h1 = "\<lambda>p k e. if (dir = Forward \<or> dir = Union) \<and> i \<le> p \<and> p < j
      then block_step (segment (sim_row xw zw p) k (min ?nz (k + mz))) k e else e"
  let ?G = "\<lambda>c (k::nat) e. if dir = Backward \<or> dir = Union
      then block_step (segment (sim_col xw zw c) i j) i e else e"
  let ?h2 = "\<lambda>c k e. if k \<le> c \<and> c < min ?nz (k + mz) then ?G c k e else e"
  have step: "\<exists>s'. nn_block dir xw zw i j k (min ?nz (k + mz)) s = Inr s'
      \<and> nn_lengths (nrows xw) ?nz s'
      \<and> (\<forall>p<nrows xw. forward_at s' p = ?h1 p k (forward_at s p))
      \<and> (\<forall>c<?nz. backward_at s' c = ?h2 c k (backward_at s c))"
    if "k \<in> set ?ks" "nn_lengths (nrows xw) ?nz s" for k s
  proof -
    have k: "k < ?nz" using mz that(1) by (rule range_step_less)
    then have kl: "k < min ?nz (k + mz)" "min ?nz (k + mz) \<le> ?nz" using mz by simp_all
    from nn_block_elem [OF xw zw cols that(2) ij kl, of dir] show ?thesis
      by auto
  qed
  from fold_err_proj [of ?ks "nn_lengths (nrows xw) ?nz"
      "\<lambda>k. nn_block dir xw zw i j k (min ?nz (k + mz))" "nrows xw" forward_at ?h1 ?nz backward_at ?h2 st,
      OF step st]
  obtain st' where r: "fold_err (\<lambda>k. nn_block dir xw zw i j k (min ?nz (k + mz))) ?ks st = Inr st'"
      "nn_lengths (nrows xw) ?nz st'"
      "\<forall>p<nrows xw. forward_at st' p = fold (?h1 p) ?ks (forward_at st p)"
      "\<forall>c<?nz. backward_at st' c = fold (?h2 c) ?ks (backward_at st c)"
    by blast
  have f: "fold (?h1 p) ?ks e = (if (dir = Forward \<or> dir = Union) \<and> i \<le> p \<and> p < j
      then fold (\<lambda>k. block_step (segment (sim_row xw zw p) k (min ?nz (k + mz))) k) ?ks e else e)" for p e
    by (rule fold_if_const)
  have b: "fold (?h2 c) ?ks e = ?G c (c div mz * mz) e" if "c < ?nz" for c e
    using mz that by (rule fold_one_block)
  from r(1,2) r(3) [unfolded f] r(4) b show ?thesis
    by auto
qed

lemma nn_search_sentinel:
  assumes xw: "length (rows xw) = nrows xw" and zw: "length (rows zw) = nrows zw"
    and cols: "ncols xw = ncols zw"
    and mx: "0 < mx" and mz: "0 < mz"
  shows "\<exists>st'. nn_search mx mz dir (nrows xw) (nrows zw) xw zw (nn_init (nrows xw) (nrows zw)) = Inr st'
    \<and> nn_lengths (nrows xw) (nrows zw) st'
    \<and> (\<forall>p<nrows xw. forward_at st' p =
         (if dir = Forward \<or> dir = Union then sentinel_argmax (sim_row xw zw p) else (-100, 0)))
    \<and> (\<forall>c<nrows zw. backward_at st' c =
         (if dir = Backward \<or> dir = Union then sentinel_argmax (sim_col xw zw c) else (-100, 0)))"
proof -
  let ?nx = "nrows xw" and ?nz = "nrows zw"
  let ?is = "range_step ?nx mx"
  let ?ks = "range_step ?nz mz"
  let ?st0 = "nn_init ?nx ?nz"
  let ?F = "\<lambda>p. fold (\<lambda>k. block_step (segment (sim_row xw zw p) k (min ?nz (k + mz))) k) ?ks"
  let ?G = "\<lambda>p (i::nat) e. if dir = Forward \<or> dir = Union then ?F p e else e"
  let ?H1 = "\<lambda>p i e. if i \<le> p \<and> p < min ?nx (i + mx) then ?G p i e else e"
  let ?H2 = "\<lambda>c i e. if dir = Backward \<or> dir = Union
      then block_step (segment (sim_col xw zw c) i (min ?nx (i + mx))) i e else e"
  have st0: "nn_lengths ?nx ?nz ?st0"
    by (simp add: nn_lengths_def nn_init_def)
  have step: "\<exists>s'. fold_err (\<lambda>k. nn_block dir xw zw i (min ?nx (i + mx)) k (min ?nz (k + mz))) ?ks s = Inr s'
      \<and> nn_lengths ?nx ?nz s'
      \<and> (\<forall>p<?nx. forward_at s' p = ?H1 p i (forward_at s p))
      \<and> (\<forall>c<?nz. backward_at s' c = ?H2 c i (backward_at s c))"
    if "i \<in> set ?is" "nn_lengths ?nx ?nz s" for i s
  proof -
    have i: "i < ?nx" using mx that(1) by (rule range_step_less)
    then have ij: "i < min ?nx (i + mx)" "min ?nx (i + mx) \<le> ?nx" using mx by simp_all
    from nn_inner [OF xw zw cols that(2) mz ij, of dir] show ?thesis
      by auto
  qed
  from fold_err_proj [of ?is "nn_lengths ?nx ?nz"
      "\<lambda>i. fold_err (\<lambda>k. nn_block dir xw zw i (min ?nx (i + mx)) k (min ?nz (k + mz))) ?ks"
      ?nx forward_at ?H1 ?nz backward_at ?H2 ?st0, OF step st0]
  obtain st' where r: "nn_search mx mz dir ?nx ?nz xw zw ?st0 = Inr st'"
      "nn_lengths ?nx ?nz st'"
      "\<forall>p<?nx. forward_at st' p = fold (?H1 p) ?is (forward_at ?st0 p)"
      "\<forall>c<?nz. backward_at st' c = fold (?H2 c) ?is (backward_at ?st0 c)"
    unfolding nn_search_def by blast
  have f0: "forward_at ?st0 p = (-100, 0)" if "p < ?nx" for p
    using that by (simp add: forward_at_def nn_init_def)
  have b0: "backward_at ?st0 c = (-100, 0)" if "c < ?nz" for c
    using that by (simp add: backward_at_def nn_init_def)
  have f: "fold (?H1 p) ?is (-100, 0) =
      (if dir = Forward \<or> dir = Union then sentinel_argmax (sim_row xw zw p) else (-100, 0))"
    if "p < ?nx" for p
  proof -
    have "fold (?H1 p) ?is (-100, 0) = ?G p (p div mx * mx) (-100, 0)"
      using mx that by (rule fold_one_block)
    moreover have "?F p (-100, 0) = sentinel_argmax (sim_row xw zw p)"
      by (rule fold_blocks_sentinel [OF mz]) (simp add: sim_row_def)
    ultimately show ?thesis by simp
  qed
  have b: "fold (?H2 c) ?is (-100, 0) =
      (if dir = Backward \<or> dir = Union then sentinel_argmax (sim_col xw zw c) else (-100, 0))"
    for c
  proof -
    have "fold (\<lambda>i. block_step (segment (sim_col xw zw c) i (min ?nx (i + mx))) i) ?is (-100, 0)
        = sentinel_argmax (sim_col xw zw c)"
      by (rule fold_blocks_sentinel [OF mx]) (simp add: sim_col_def)
    then show ?thesis
      by (simp add: fold_if_const)
  qed
  from r f0 b0 f b show ?thesis
    by auto
qed

lemma wf_mat_length: "wf_mat A \<Longrightarrow> length (rows A) = nrows A"
  by (simp add: wf_mat_def)

lemma rows_sim:
  "rows (build (nrows xw) (nrows zw) (sim_entry xw zw)) = map (sim_row xw zw) [0..<nrows xw]"
  by (simp add: build_def sim_row_def)

lemma rows_transpose_sim:
  "rows (transpose_mat (build (nrows xw) (nrows zw) (sim_entry xw zw)))
     = map (sim_col xw zw) [0..<nrows zw]"
proof -
  have "rows (transpose_mat (build (nrows xw) (nrows zw) (sim_entry xw zw)))
      = map (\<lambda>c. map (\<lambda>p. entry (build (nrows xw) (nrows zw) (sim_entry xw zw)) p c) [0..<nrows xw])
          [0..<nrows zw]"
    by (simp add: transpose_mat_def build_def)
  also have "\<dots> = map (sim_col xw zw) [0..<nrows zw]"
    by (simp add: sim_col_def)
  finally show ?thesis .
qed

lemma nn_state_eqI:
  fixes st :: nn_state
  assumes "nn_lengths nx nz st"
    and "\<forall>p<nx. forward_at st p = (f1 p, f2 p)"
    and "\<forall>c<nz. backward_at st c = (b1 c, b2 c)"
  shows "st = \<lparr>best_sim_forward = map f1 [0..<nx], trg_indices_forward = map f2 [0..<nx],
     best_sim_backward = map b1 [0..<nz], src_indices_backward = map b2 [0..<nz]\<rparr>"
proof -
  have "best_sim_forward st = map f1 [0..<nx]"
    using assms(1,2) by (intro nth_equalityI) (simp_all add: nn_lengths_def forward_at_def)
  moreover have "trg_indices_forward st = map f2 [0..<nx]"
    using assms(1,2) by (intro nth_equalityI) (simp_all add: nn_lengths_def forward_at_def)
  moreover have "best_sim_backward st = map b1 [0..<nz]"
    using assms(1,3) by (intro nth_equalityI) (simp_all add: nn_lengths_def backward_at_def)
  moreover have "src_indices_backward st = map b2 [0..<nz]"
    using assms(1,3) by (intro nth_equalityI) (simp_all add: nn_lengths_def backward_at_def)
  ultimately show ?thesis by simp
qed

lemma floored_above:
  assumes "above_sentinel S"
  shows "floored_search S = unblocked_search S"
proof -
  have "sentinel_argmax v = (maxval v, argmax_list v)" if "v \<in> set (rows S)" for v
    using assms that by (simp add: above_sentinel_def list_all_iff sentinel_argmax_def)
  moreover have "sentinel_argmax v = (maxval v, argmax_list v)"
    if "v \<in> set (rows (transpose_mat S))" for v
    using assms that by (simp add: above_sentinel_def list_all_iff sentinel_argmax_def)
  ultimately show ?thesis
    by (simp add: floored_search_def unblocked_search_def)
qed

text \<open>
  C4, as the code has it. For mapped embeddings of equal width and any positive block
  sizes, the search by blocks ends with what one computation over the whole similarity
  matrix \<open>S\<close> gives when the start values are kept. So for every row, and for every column,
  with an entry above -100 the value and the position are those of the computation
  without blocks, the greatest value and its first position; a row or column without such
  an entry keeps the value -100 and the position 0. When every row and every column has
  an entry above -100 the two results are equal.
\<close>

theorem blockwise_equals_unblocked:
  assumes "wf_mat xw" and "wf_mat zw" and "ncols xw = ncols zw"
    and "0 < max_dim_x" and "0 < max_dim_z"
    and "dot xw (transpose_mat zw) = Inr S"
  shows "nn_search max_dim_x max_dim_z Union (nrows xw) (nrows zw) xw zw
           (nn_init (nrows xw) (nrows zw)) = Inr (floored_search S)
    \<and> (\<forall>p<nrows xw.
          forward_at (floored_search S) p =
            (if rows S ! p \<noteq> [] \<and> -100 < maxval (rows S ! p)
             then forward_at (unblocked_search S) p else (-100, 0)))
    \<and> (\<forall>c<nrows zw.
          backward_at (floored_search S) c =
            (if rows (transpose_mat S) ! c \<noteq> [] \<and> -100 < maxval (rows (transpose_mat S) ! c)
             then backward_at (unblocked_search S) c else (-100, 0)))
    \<and> (above_sentinel S \<longrightarrow> floored_search S = unblocked_search S)"
proof -
  let ?nx = "nrows xw" and ?nz = "nrows zw"
  have S: "S = build ?nx ?nz (sim_entry xw zw)"
    using assms(6) sim_full [OF assms(3)] by simp
  have rS: "rows S = map (sim_row xw zw) [0..<?nx]"
    unfolding S by (rule rows_sim)
  have cS: "rows (transpose_mat S) = map (sim_col xw zw) [0..<?nz]"
    unfolding S by (rule rows_transpose_sim)
  from nn_search_sentinel [OF wf_mat_length [OF assms(1)] wf_mat_length [OF assms(2)] assms(3,4,5), of Union]
  obtain st where st: "nn_search max_dim_x max_dim_z Union ?nx ?nz xw zw (nn_init ?nx ?nz) = Inr st"
      "nn_lengths ?nx ?nz st"
      "\<forall>p<?nx. forward_at st p = sentinel_argmax (sim_row xw zw p)"
      "\<forall>c<?nz. backward_at st c = sentinel_argmax (sim_col xw zw c)"
    by auto
  have "st = \<lparr>best_sim_forward = map (\<lambda>p. fst (sentinel_argmax (sim_row xw zw p))) [0..<?nx],
      trg_indices_forward = map (\<lambda>p. snd (sentinel_argmax (sim_row xw zw p))) [0..<?nx],
      best_sim_backward = map (\<lambda>c. fst (sentinel_argmax (sim_col xw zw c))) [0..<?nz],
      src_indices_backward = map (\<lambda>c. snd (sentinel_argmax (sim_col xw zw c))) [0..<?nz]\<rparr>"
    using st(2) st(3) st(4) by (intro nn_state_eqI) simp_all
  also have "\<dots> = floored_search S"
    by (simp add: floored_search_def rS cS comp_def)
  finally have 1: "nn_search max_dim_x max_dim_z Union ?nx ?nz xw zw (nn_init ?nx ?nz)
      = Inr (floored_search S)"
    using st(1) by simp
  have 2: "forward_at (floored_search S) p =
      (if rows S ! p \<noteq> [] \<and> -100 < maxval (rows S ! p)
       then forward_at (unblocked_search S) p else (-100, 0))" if "p < ?nx" for p
  proof -
    from that have "p < length (rows S)" by (simp add: rS)
    then show ?thesis
      by (simp add: forward_at_def floored_search_def unblocked_search_def sentinel_argmax_def)
  qed
  have 3: "backward_at (floored_search S) c =
      (if rows (transpose_mat S) ! c \<noteq> [] \<and> -100 < maxval (rows (transpose_mat S) ! c)
       then backward_at (unblocked_search S) c else (-100, 0))" if "c < ?nz" for c
  proof -
    from that have "c < length (rows (transpose_mat S))" by (simp add: cS)
    then show ?thesis
      by (simp add: backward_at_def floored_search_def unblocked_search_def sentinel_argmax_def)
  qed
  from 1 2 3 floored_above show ?thesis
    by blast
qed

lemma ex_facts:
  "wf_mat ex_xw" "wf_mat ex_zw" "ncols ex_xw = ncols ex_zw" "nrows ex_xw = 2" "nrows ex_zw = 3"
  "dot ex_xw (transpose_mat ex_zw) = Inr ex_sim"
  by (simp_all add: wf_mat_def ex_xw_def ex_zw_def ex_sim_def mat_eval)

lemma ex_above: "above_sentinel ex_sim"
  by (simp add: above_sentinel_def ex_sim_def maxval_def mat_eval)

lemma ex_unblocked: "unblocked_search ex_sim =
   \<lparr>best_sim_forward = [2, 4], trg_indices_forward = [2, 2],
    best_sim_backward = [1, 2, 4], src_indices_backward = [0, 1, 1]\<rparr>"
  by (simp add: unblocked_search_def ex_sim_def maxval_def mat_eval)

lemma mixed_facts:
  "wf_mat mixed_x" "wf_mat low_z" "ncols mixed_x = ncols low_z" "nrows mixed_x = 2" "nrows low_z = 2"
  "dot mixed_x (transpose_mat low_z) = Inr mixed_sim"
  by (simp_all add: wf_mat_def mixed_x_def low_z_def mixed_sim_def mat_eval)

lemma mixed_floored: "floored_search mixed_sim =
   \<lparr>best_sim_forward = [-100, -20], trg_indices_forward = [0, 1],
    best_sim_backward = [-30, -20], src_indices_backward = [1, 1]\<rparr>"
  by (simp add: floored_search_def sentinel_argmax_def mixed_sim_def maxval_def mat_eval)

theorem blockwise_equals_unblocked_witness:
  "wf_mat ex_xw \<and> wf_mat ex_zw \<and> ncols ex_xw = ncols ex_zw
   \<and> dot ex_xw (transpose_mat ex_zw) = Inr ex_sim \<and> above_sentinel ex_sim
   \<and> nn_search 1 2 Union 2 3 ex_xw ex_zw (nn_init 2 3) =
       Inr \<lparr>best_sim_forward = [2, 4], trg_indices_forward = [2, 2],
            best_sim_backward = [1, 2, 4], src_indices_backward = [0, 1, 1]\<rparr>
   \<and> wf_mat mixed_x \<and> wf_mat low_z \<and> ncols mixed_x = ncols low_z
   \<and> dot mixed_x (transpose_mat low_z) = Inr mixed_sim
   \<and> nn_search 1 1 Union 2 2 mixed_x low_z (nn_init 2 2) =
       Inr \<lparr>best_sim_forward = [-100, -20], trg_indices_forward = [0, 1],
            best_sim_backward = [-30, -20], src_indices_backward = [1, 1]\<rparr>"
proof -
  from blockwise_equals_unblocked [OF ex_facts(1,2,3) _ _ ex_facts(6), of 1 2] ex_above
  have "nn_search 1 2 Union 2 3 ex_xw ex_zw (nn_init 2 3) = Inr (unblocked_search ex_sim)"
    by (simp add: ex_facts)
  moreover
  from blockwise_equals_unblocked [OF mixed_facts(1,2,3) _ _ mixed_facts(6), of 1 1]
  have "nn_search 1 1 Union 2 2 mixed_x low_z (nn_init 2 2) = Inr (floored_search mixed_sim)"
    by (simp add: mixed_facts)
  ultimately show ?thesis
    by (simp add: ex_facts ex_above ex_unblocked mixed_facts mixed_floored)
qed

text \<open>
  C4, as stated, fails where the similarities are below -100: the search keeps -100 and
  position 0, the computation over the whole matrix gives the true maximum and its position.
\<close>

theorem blockwise_sentinel_counterexample:
  "dot low_x (transpose_mat low_z) = Inr low_sim
   \<and> nn_search MAX_DIM_X MAX_DIM_Z Union 1 2 low_x low_z (nn_init 1 2) =
       Inr \<lparr>best_sim_forward = [-100], trg_indices_forward = [0],
            best_sim_backward = [-100, -100], src_indices_backward = [0, 0]\<rparr>
   \<and> unblocked_search low_sim =
       \<lparr>best_sim_forward = [-200], trg_indices_forward = [1],
        best_sim_backward = [-300, -200], src_indices_backward = [0, 0]\<rparr>"
proof -
  have r: "range_step 1 MAX_DIM_X = [0]" "range_step 2 MAX_DIM_Z = [0]"
    by (simp_all add: range_step_def MAX_DIM_X_def MAX_DIM_Z_def upt_num)
  have 1: "dot low_x (transpose_mat low_z) = Inr low_sim"
    by (simp add: low_x_def low_z_def low_sim_def mat_eval)
  have 2: "nn_search MAX_DIM_X MAX_DIM_Z Union 1 2 low_x low_z (nn_init 1 2) =
       Inr \<lparr>best_sim_forward = [-100], trg_indices_forward = [0],
            best_sim_backward = [-100, -100], src_indices_backward = [0, 0]\<rparr>"
    unfolding nn_search_def r
    by (simp add: nn_block_def forward_update_def backward_update_def argmax_axis1_def
        argmax_axis0_def masked_assign_def nn_init_def low_x_def low_z_def mat_eval
        MAX_DIM_X_def MAX_DIM_Z_def)
  have 3: "unblocked_search low_sim =
       \<lparr>best_sim_forward = [-200], trg_indices_forward = [1],
        best_sim_backward = [-300, -200], src_indices_backward = [0, 0]\<rparr>"
    by (simp add: unblocked_search_def low_sim_def maxval_def mat_eval)
  from 1 2 3 show ?thesis by simp
qed

lemma induce_nn_lists:
  assumes xw: "wf_mat xw" and zw: "wf_mat zw" and cols: "ncols xw = ncols zw"
    and mx: "0 < mx" and mz: "0 < mz"
  shows "\<exists>st. induce_nn mx mz dir (nrows xw) (nrows zw) xw zw
        = Inr (select_direction dir (nrows xw) (nrows zw) st, st)
    \<and> trg_indices_forward st =
        map (\<lambda>p. if dir = Forward \<or> dir = Union then snd (sentinel_argmax (sim_row xw zw p)) else 0)
          [0..<nrows xw]
    \<and> src_indices_backward st =
        map (\<lambda>c. if dir = Backward \<or> dir = Union then snd (sentinel_argmax (sim_col xw zw c)) else 0)
          [0..<nrows zw]"
proof -
  let ?nx = "nrows xw" and ?nz = "nrows zw"
  from nn_search_sentinel [OF wf_mat_length [OF xw] wf_mat_length [OF zw] cols mx mz, of dir]
  obtain st where st: "nn_search mx mz dir ?nx ?nz xw zw (nn_init ?nx ?nz) = Inr st"
      "nn_lengths ?nx ?nz st"
      "\<forall>p<?nx. forward_at st p =
         (if dir = Forward \<or> dir = Union then sentinel_argmax (sim_row xw zw p) else (-100, 0))"
      "\<forall>c<?nz. backward_at st c =
         (if dir = Backward \<or> dir = Union then sentinel_argmax (sim_col xw zw c) else (-100, 0))"
    by auto
  have "trg_indices_forward st =
        map (\<lambda>p. if dir = Forward \<or> dir = Union then snd (sentinel_argmax (sim_row xw zw p)) else 0)
          [0..<?nx]"
  proof (rule nth_equalityI)
    show "length (trg_indices_forward st) = length (map (\<lambda>p. if dir = Forward \<or> dir = Union
        then snd (sentinel_argmax (sim_row xw zw p)) else 0) [0..<?nx])"
      using st(2) by (simp add: nn_lengths_def)
  next
    fix p assume "p < length (trg_indices_forward st)"
    then have p: "p < ?nx" using st(2) by (simp add: nn_lengths_def)
    then have "snd (forward_at st p) =
        (if dir = Forward \<or> dir = Union then snd (sentinel_argmax (sim_row xw zw p)) else 0)"
      using st(3) by simp
    then show "trg_indices_forward st ! p = map (\<lambda>p. if dir = Forward \<or> dir = Union
        then snd (sentinel_argmax (sim_row xw zw p)) else 0) [0..<?nx] ! p"
      using p by (simp add: forward_at_def)
  qed
  moreover have "src_indices_backward st =
        map (\<lambda>c. if dir = Backward \<or> dir = Union then snd (sentinel_argmax (sim_col xw zw c)) else 0)
          [0..<?nz]"
  proof (rule nth_equalityI)
    show "length (src_indices_backward st) = length (map (\<lambda>c. if dir = Backward \<or> dir = Union
        then snd (sentinel_argmax (sim_col xw zw c)) else 0) [0..<?nz])"
      using st(2) by (simp add: nn_lengths_def)
  next
    fix c assume "c < length (src_indices_backward st)"
    then have c: "c < ?nz" using st(2) by (simp add: nn_lengths_def)
    then have "snd (backward_at st c) =
        (if dir = Backward \<or> dir = Union then snd (sentinel_argmax (sim_col xw zw c)) else 0)"
      using st(4) by simp
    then show "src_indices_backward st ! c = map (\<lambda>c. if dir = Backward \<or> dir = Union
        then snd (sentinel_argmax (sim_col xw zw c)) else 0) [0..<?nz] ! c"
      using c by (simp add: backward_at_def)
  qed
  ultimately show ?thesis
    using st(1) by (auto simp: induce_nn_def and_then_def)
qed

lemma MAX_DIM_pos: "0 < MAX_DIM_X" "0 < MAX_DIM_Z"
  by (simp_all add: MAX_DIM_X_def MAX_DIM_Z_def)

text \<open>
  C6. Without the assignment mode, for mapped embeddings of equal width: the dictionary
  induced in union direction is the pairs induced in forward direction followed by the
  pairs induced in backward direction, nothing removed; there are as many forward pairs as
  source rows and as many backward pairs as target rows, so the union has the sum.
\<close>

theorem union_dictionary_is_concatenation:
  assumes "wf_mat xw" and "wf_mat zw" and "ncols xw = ncols zw" and "\<not> lapmod a"
  shows "\<exists>fs ft bs bt stf stb stu.
      update_dictionary xp rest (a\<lparr>direction := Forward\<rparr>) (nrows xw) (nrows zw) xw zw
        = Inr ((fs, ft), stf)
    \<and> update_dictionary xp rest (a\<lparr>direction := Backward\<rparr>) (nrows xw) (nrows zw) xw zw
        = Inr ((bs, bt), stb)
    \<and> update_dictionary xp rest (a\<lparr>direction := Union\<rparr>) (nrows xw) (nrows zw) xw zw
        = Inr ((fs @ bs, ft @ bt), stu)
    \<and> length fs = nrows xw \<and> length ft = nrows xw
    \<and> length bs = nrows zw \<and> length bt = nrows zw
    \<and> length (fs @ bs) = nrows xw + nrows zw \<and> length (ft @ bt) = nrows xw + nrows zw"
proof -
  note l = induce_nn_lists [OF assms(1,2,3) MAX_DIM_pos]
  from l [of Forward] obtain stf where
    f: "induce_nn MAX_DIM_X MAX_DIM_Z Forward (nrows xw) (nrows zw) xw zw
        = Inr (select_direction Forward (nrows xw) (nrows zw) stf, stf)"
      "trg_indices_forward stf = map (\<lambda>p. snd (sentinel_argmax (sim_row xw zw p))) [0..<nrows xw]"
    by auto
  from l [of Backward] obtain stb where
    b: "induce_nn MAX_DIM_X MAX_DIM_Z Backward (nrows xw) (nrows zw) xw zw
        = Inr (select_direction Backward (nrows xw) (nrows zw) stb, stb)"
      "src_indices_backward stb = map (\<lambda>c. snd (sentinel_argmax (sim_col xw zw c))) [0..<nrows zw]"
    by auto
  from l [of Union] obtain stu where
    u: "induce_nn MAX_DIM_X MAX_DIM_Z Union (nrows xw) (nrows zw) xw zw
        = Inr (select_direction Union (nrows xw) (nrows zw) stu, stu)"
      "trg_indices_forward stu = map (\<lambda>p. snd (sentinel_argmax (sim_row xw zw p))) [0..<nrows xw]"
      "src_indices_backward stu = map (\<lambda>c. snd (sentinel_argmax (sim_col xw zw c))) [0..<nrows zw]"
    by auto
  show ?thesis
    using assms(4) f b u
    by (simp add: update_dictionary_def select_direction_def)
qed

lemma update_dictionary_forward_example:
  "\<exists>st. update_dictionary identity_backend no_rest (loop_args\<lparr>direction := Forward\<rparr>) 2 3 ex_xw ex_zw
     = Inr (([0, 1], [2, 2]), st)"
proof -
  have r: "range_step 2 MAX_DIM_X = [0]" "range_step 3 MAX_DIM_Z = [0]"
    by (simp_all add: range_step_def MAX_DIM_X_def MAX_DIM_Z_def upt_num)
  have l: "\<not> lapmod (loop_args\<lparr>direction := Forward\<rparr>)"
    by (simp add: loop_args_fields)
  show ?thesis
    unfolding update_dictionary_def induce_nn_def nn_search_def r
    by (simp add: l nn_block_def forward_update_def argmax_axis1_def masked_assign_def
        nn_init_def select_direction_def ex_xw_def ex_zw_def mat_eval MAX_DIM_X_def MAX_DIM_Z_def)
qed

lemma update_dictionary_backward_example:
  "\<exists>st. update_dictionary identity_backend no_rest (loop_args\<lparr>direction := Backward\<rparr>) 2 3 ex_xw ex_zw
     = Inr (([0, 1, 1], [0, 1, 2]), st)"
proof -
  have r: "range_step 2 MAX_DIM_X = [0]" "range_step 3 MAX_DIM_Z = [0]"
    by (simp_all add: range_step_def MAX_DIM_X_def MAX_DIM_Z_def upt_num)
  have l: "\<not> lapmod (loop_args\<lparr>direction := Backward\<rparr>)"
    by (simp add: loop_args_fields)
  show ?thesis
    unfolding update_dictionary_def induce_nn_def nn_search_def r
    by (simp add: l nn_block_def backward_update_def argmax_axis0_def masked_assign_def
        nn_init_def select_direction_def ex_xw_def ex_zw_def mat_eval MAX_DIM_X_def MAX_DIM_Z_def)
qed

theorem union_dictionary_is_concatenation_witness:
  "wf_mat ex_xw \<and> wf_mat ex_zw \<and> ncols ex_xw = ncols ex_zw \<and> lapmod loop_args = False
   \<and> (\<exists>st. update_dictionary identity_backend no_rest (loop_args\<lparr>direction := Union\<rparr>) 2 3 ex_xw ex_zw
         = Inr (([0, 1, 0, 1, 1], [2, 2, 0, 1, 2]), st))"
proof -
  have l: "\<not> lapmod loop_args"
    by (simp add: loop_args_fields)
  from union_dictionary_is_concatenation [OF ex_facts(1,2,3) l, of identity_backend no_rest]
  obtain fs ft bs bt stf stb stu where
    f: "update_dictionary identity_backend no_rest (loop_args\<lparr>direction := Forward\<rparr>) 2 3 ex_xw ex_zw
        = Inr ((fs, ft), stf)" and
    b: "update_dictionary identity_backend no_rest (loop_args\<lparr>direction := Backward\<rparr>) 2 3 ex_xw ex_zw
        = Inr ((bs, bt), stb)" and
    u: "update_dictionary identity_backend no_rest (loop_args\<lparr>direction := Union\<rparr>) 2 3 ex_xw ex_zw
        = Inr ((fs @ bs, ft @ bt), stu)"
    unfolding ex_facts(4,5) by blast
  from f update_dictionary_forward_example have "fs = [0, 1]" "ft = [2, 2]"
    by auto
  moreover from b update_dictionary_backward_example have "bs = [0, 1, 1]" "bt = [0, 1, 2]"
    by auto
  ultimately have "update_dictionary identity_backend no_rest (loop_args\<lparr>direction := Union\<rparr>) 2 3 ex_xw ex_zw
      = Inr (([0, 1, 0, 1, 1], [2, 2, 0, 1, 2]), stu)"
    using u by simp
  with l ex_facts(1,2,3) show ?thesis
    by auto
qed

subsection \<open>Matrices\<close>

lemma wf_mat_build [simp]: "wf_mat (build n m f)"
  by (simp add: wf_mat_def build_def list_all_iff)

lemma mat_dim_build [simp]: "mat_dim n m (build n m f)"
  by (simp add: mat_dim_def)

lemma build_entry:
  assumes "mat_dim n m A"
  shows "build n m (entry A) = A"
proof -
  have len: "length (rows A) = n" and row: "\<And>r. r \<in> set (rows A) \<Longrightarrow> length r = m"
    using assms by (simp_all add: mat_dim_def wf_mat_def list_all_iff)
  have "map (\<lambda>i. map (entry A i) [0..<m]) [0..<n] = rows A"
  proof (rule nth_equalityI)
    show "length (map (\<lambda>i. map (entry A i) [0..<m]) [0..<n]) = length (rows A)"
      by (simp add: len)
  next
    fix i assume "i < length (map (\<lambda>i. map (entry A i) [0..<m]) [0..<n])"
    then have i: "i < n" by simp
    then have "length (rows A ! i) = m" using row len by simp
    then have "map (entry A i) [0..<m] = rows A ! i"
      by (intro nth_equalityI) (simp_all add: entry_def)
    then show "map (\<lambda>i. map (entry A i) [0..<m]) [0..<n] ! i = rows A ! i"
      using i by simp
  qed
  then show ?thesis
    using assms by (cases A) (simp add: build_def mat_dim_def)
qed

lemma mat_eqI:
  assumes "mat_dim n m A" "mat_dim n m B"
    and "\<And>i j. i < n \<Longrightarrow> j < m \<Longrightarrow> entry A i j = entry B i j"
  shows "A = B"
proof -
  have "build n m (entry A) = build n m (entry B)"
    using assms(3) by (rule build_cong)
  then show ?thesis
    using build_entry [OF assms(1)] build_entry [OF assms(2)] by simp
qed

lemma mat_dim_dot:
  "mat_dim n k A \<Longrightarrow> mat_dim k m B \<Longrightarrow> mat_dim n m (dot_raw A B)"
  by (simp add: dot_raw_def mat_dim_def)

lemma entry_dot:
  assumes "mat_dim n k A" "mat_dim k m B" "i < n" "j < m"
  shows "entry (dot_raw A B) i j = (\<Sum>l<k. entry A i l * entry B l j)"
proof -
  have "entry (dot_raw A B) i j = (\<Sum>l\<leftarrow>[0..<k]. entry A i l * entry B l j)"
    using assms by (simp add: dot_raw_def mat_dim_def)
  also have "\<dots> = (\<Sum>l<k. entry A i l * entry B l j)"
    by (simp add: interv_sum_list_conv_sum_set_nat lessThan_atLeast0)
  finally show ?thesis .
qed

lemma dot_dims: "mat_dim n k A \<Longrightarrow> mat_dim k m B \<Longrightarrow> dot A B = Inr (dot_raw A B)"
  by (simp add: dot_def mat_dim_def)

lemma mat_dim_transpose [simp]: "mat_dim n m A \<Longrightarrow> mat_dim m n (transpose_mat A)"
  by (simp add: transpose_mat_def mat_dim_def)

lemma entry_transpose:
  "mat_dim n m A \<Longrightarrow> i < m \<Longrightarrow> j < n \<Longrightarrow> entry (transpose_mat A) i j = entry A j i"
  by (simp add: transpose_mat_def mat_dim_def)

lemma transpose_transpose:
  assumes "mat_dim n m A"
  shows "transpose_mat (transpose_mat A) = A"
  by (rule mat_eqI [of n m]) (simp_all add: assms entry_transpose [of m n] entry_transpose [of n m])

lemma transpose_dot:
  assumes "mat_dim n k A" "mat_dim k m B"
  shows "transpose_mat (dot_raw A B) = dot_raw (transpose_mat B) (transpose_mat A)"
proof (rule mat_eqI [of m n])
  show "mat_dim m n (transpose_mat (dot_raw A B))"
    by (rule mat_dim_transpose [OF mat_dim_dot [OF assms]])
  show "mat_dim m n (dot_raw (transpose_mat B) (transpose_mat A))"
    by (rule mat_dim_dot [OF mat_dim_transpose [OF assms(2)] mat_dim_transpose [OF assms(1)]])
next
  fix i j assume ij: "i < m" "j < n"
  have "entry (transpose_mat (dot_raw A B)) i j = (\<Sum>l<k. entry A j l * entry B l i)"
    using assms ij by (simp add: entry_transpose [OF mat_dim_dot [OF assms]] entry_dot [of n k _ m])
  also have "\<dots> = (\<Sum>l<k. entry (transpose_mat B) i l * entry (transpose_mat A) l j)"
    using assms ij by (intro sum.cong) (simp_all add: entry_transpose [of k m] entry_transpose [of n k])
  also have "\<dots> = entry (dot_raw (transpose_mat B) (transpose_mat A)) i j"
    using assms ij
    by (simp add: entry_dot [OF mat_dim_transpose [OF assms(2)] mat_dim_transpose [OF assms(1)]])
  finally show "entry (transpose_mat (dot_raw A B)) i j
      = entry (dot_raw (transpose_mat B) (transpose_mat A)) i j" .
qed

lemma dot_assoc:
  assumes "mat_dim n k A" "mat_dim k l B" "mat_dim l m C"
  shows "dot_raw (dot_raw A B) C = dot_raw A (dot_raw B C)"
proof (rule mat_eqI [of n m])
  show "mat_dim n m (dot_raw (dot_raw A B) C)"
    by (rule mat_dim_dot [OF mat_dim_dot [OF assms(1,2)] assms(3)])
  show "mat_dim n m (dot_raw A (dot_raw B C))"
    by (rule mat_dim_dot [OF assms(1) mat_dim_dot [OF assms(2,3)]])
next
  fix i j assume ij: "i < n" "j < m"
  have "entry (dot_raw (dot_raw A B) C) i j = (\<Sum>b<l. (\<Sum>a<k. entry A i a * entry B a b) * entry C b j)"
    using assms ij
    by (simp add: entry_dot [OF mat_dim_dot [OF assms(1,2)] assms(3)] entry_dot [OF assms(1,2)])
  also have "\<dots> = (\<Sum>b<l. \<Sum>a<k. entry A i a * (entry B a b * entry C b j))"
    by (simp add: sum_distrib_right mult.assoc)
  also have "\<dots> = (\<Sum>a<k. \<Sum>b<l. entry A i a * (entry B a b * entry C b j))"
    by (rule sum.swap)
  also have "\<dots> = (\<Sum>a<k. entry A i a * (\<Sum>b<l. entry B a b * entry C b j))"
    by (simp add: sum_distrib_left)
  also have "\<dots> = entry (dot_raw A (dot_raw B C)) i j"
    using assms ij
    by (simp add: entry_dot [OF assms(1) mat_dim_dot [OF assms(2,3)]] entry_dot [OF assms(2,3)])
  finally show "entry (dot_raw (dot_raw A B) C) i j = entry (dot_raw A (dot_raw B C)) i j" .
qed

lemma mat_dim_eye [simp]: "mat_dim n n (eye n)"
  by (simp add: eye_def)

lemma entry_eye: "i < n \<Longrightarrow> j < n \<Longrightarrow> entry (eye n) i j = (if i = j then 1 else 0)"
  by (simp add: eye_def)

lemma dot_eye_right:
  assumes "mat_dim n m A"
  shows "dot_raw A (eye m) = A"
proof (rule mat_eqI [of n m])
  show "mat_dim n m (dot_raw A (eye m))"
    by (rule mat_dim_dot [OF assms mat_dim_eye])
  show "mat_dim n m A" by (rule assms)
next
  fix i j assume ij: "i < n" "j < m"
  have "entry (dot_raw A (eye m)) i j = (\<Sum>l<m. entry A i l * (if l = j then 1 else 0))"
    using assms ij by (simp add: entry_dot [OF assms mat_dim_eye] entry_eye)
  also have "\<dots> = (\<Sum>l<m. if l = j then entry A i l else 0)"
    by (intro sum.cong) simp_all
  also have "\<dots> = entry A i j"
    using ij by (simp add: sum.delta)
  finally show "entry (dot_raw A (eye m)) i j = entry A i j" .
qed

lemma dot_eye_left:
  assumes "mat_dim n m A"
  shows "dot_raw (eye n) A = A"
proof (rule mat_eqI [of n m])
  show "mat_dim n m (dot_raw (eye n) A)"
    by (rule mat_dim_dot [OF mat_dim_eye assms])
  show "mat_dim n m A" by (rule assms)
next
  fix i j assume ij: "i < n" "j < m"
  have "entry (dot_raw (eye n) A) i j = (\<Sum>l<n. (if i = l then 1 else 0) * entry A l j)"
    using assms ij by (simp add: entry_dot [OF mat_dim_eye assms] entry_eye)
  also have "\<dots> = (\<Sum>l<n. if l = i then entry A l j else 0)"
    by (intro sum.cong) auto
  also have "\<dots> = entry A i j"
    using ij by (simp add: sum.delta)
  finally show "entry (dot_raw (eye n) A) i j = entry A i j" .
qed

lemma mat_dim_diag [simp]: "mat_dim (length v) (length v) (diag v)"
  by (simp add: diag_def)

lemma entry_diag:
  "i < length v \<Longrightarrow> j < length v \<Longrightarrow> entry (diag v) i j = (if i = j then v ! i else 0)"
  by (simp add: diag_def)

lemma mat_dim_diag_map: "mat_dim (length s) (length s) (diag (map f s))"
  using mat_dim_diag [of "map f s"] by simp

lemma diag_dot_inverse:
  assumes "list_all (\<lambda>\<sigma>. 0 < \<sigma>) s"
  shows "dot_raw (diag s) (diag (map (\<lambda>\<sigma>. 1 / \<sigma>) s)) = eye (length s)"
proof (rule mat_eqI [of "length s" "length s"])
  show "mat_dim (length s) (length s) (dot_raw (diag s) (diag (map (\<lambda>\<sigma>. 1 / \<sigma>) s)))"
    by (rule mat_dim_dot [OF mat_dim_diag mat_dim_diag_map])
  show "mat_dim (length s) (length s) (eye (length s))" by simp
next
  fix i j assume ij: "i < length s" "j < length s"
  have pos: "s ! i \<noteq> 0" using assms ij(1) by (auto simp: list_all_length)
  have e2: "entry (diag (map (\<lambda>\<sigma>. 1 / \<sigma>) s)) l j = (if l = j then 1 / s ! l else 0)"
    if "l < length s" for l
    using that ij(2) entry_diag [of l "map (\<lambda>\<sigma>. 1 / \<sigma>) s" j] by simp
  have "entry (dot_raw (diag s) (diag (map (\<lambda>\<sigma>. 1 / \<sigma>) s))) i j
      = (\<Sum>l<length s. entry (diag s) i l * entry (diag (map (\<lambda>\<sigma>. 1 / \<sigma>) s)) l j)"
    using ij by (rule entry_dot [OF mat_dim_diag mat_dim_diag_map])
  also have "\<dots> = (\<Sum>l<length s. if l = i then (if i = j then 1 else 0) else 0)"
    using pos ij(1) by (intro sum.cong) (auto simp: e2 entry_diag)
  also have "\<dots> = (if i = j then 1 else 0)"
    using ij by (simp add: sum.delta)
  finally show "entry (dot_raw (diag s) (diag (map (\<lambda>\<sigma>. 1 / \<sigma>) s))) i j = entry (eye (length s)) i j"
    using ij by (simp add: entry_eye)
qed

text \<open>
  C3. When the routine returns a singular value decomposition of the matrix of line 203
  (with orthogonal \<open>u\<close> and \<open>vt\<close>) and that matrix is square, the mapping matrix \<open>w\<close> of
  line 204 is computed and \<open>w\<^sup>t \<cdot> w\<close> is the identity, exactly: for every dictionary-selected
  submatrix, of full rank or not.
\<close>

theorem orthogonal_w_is_orthogonal:
  assumes "procrustes_matrix x z src trg = Inr m"
    and "linalg_svd xp True m = Inr r"
    and "full_svd m r"
    and "nrows m = ncols m"
  shows "\<exists>w. orthogonal_w xp x z src trg = Inr w
    \<and> dot (transpose_mat w) w = Inr (eye (ncols m))"
proof -
  obtain u s vt where r: "r = (u, s, vt)" by (cases r)
  let ?d = "ncols m"
  have u: "mat_dim ?d ?d u" and uu: "dot_raw u (transpose_mat u) = eye ?d"
    using assms(3,4) by (simp_all add: full_svd_def r orthogonal_mat_def)
  have v: "mat_dim ?d ?d vt" and vv: "dot_raw vt (transpose_mat vt) = eye ?d"
    using assms(3) by (simp_all add: full_svd_def r orthogonal_mat_def)
  let ?w = "dot_raw (transpose_mat vt) (transpose_mat u)"
  have ut: "mat_dim ?d ?d (transpose_mat u)" and vt: "mat_dim ?d ?d (transpose_mat vt)"
    using u v by simp_all
  have w: "mat_dim ?d ?d ?w"
    by (rule mat_dim_dot [OF vt ut])
  have ow: "orthogonal_w xp x z src trg = Inr ?w"
    by (simp add: orthogonal_w_def assms(1,2) r and_then_def dot_dims [OF vt ut])
  have "transpose_mat ?w = dot_raw u vt"
    by (simp add: transpose_dot [OF vt ut] transpose_transpose [OF u] transpose_transpose [OF v])
  then have "dot_raw (transpose_mat ?w) ?w = dot_raw (dot_raw u vt) (dot_raw (transpose_mat vt) (transpose_mat u))"
    by simp
  also have "\<dots> = dot_raw u (dot_raw vt (dot_raw (transpose_mat vt) (transpose_mat u)))"
    by (rule dot_assoc [OF u v w])
  also have "dot_raw vt (dot_raw (transpose_mat vt) (transpose_mat u))
      = dot_raw (dot_raw vt (transpose_mat vt)) (transpose_mat u)"
    by (rule dot_assoc [OF v vt ut, symmetric])
  also have "\<dots> = transpose_mat u"
    by (simp add: vv dot_eye_left [OF ut])
  finally have "dot_raw (transpose_mat ?w) ?w = eye ?d"
    by (simp add: uu)
  moreover have "dot (transpose_mat ?w) ?w = Inr (dot_raw (transpose_mat ?w) ?w)"
    by (rule dot_dims [OF mat_dim_transpose [OF w] w])
  ultimately show ?thesis
    using ow by simp
qed

text \<open>
  C5, as the code has it. For rows \<open>R\<close> with at least as many rows as columns, when the
  routine returns a reduced decomposition of \<open>R\<close> whose singular values are all positive
  (\<open>R\<close> has full column rank), the whitening transform \<open>wx\<close> is computed and
  \<open>wx\<^sup>t \<cdot> R\<^sup>t \<cdot> R \<cdot> wx\<close> is the identity, exactly.
\<close>

theorem whitening_of_full_column_rank:
  assumes "linalg_svd xp False R = Inr r"
    and "reduced_svd R r"
    and "ncols R \<le> nrows R"
    and "list_all (\<lambda>\<sigma>. 0 < \<sigma>) (fst (snd r))"
  shows "\<exists>wx. whitening_transformation xp R = Inr wx
    \<and> dot_raw (dot_raw (transpose_mat wx) (dot_raw (transpose_mat R) R)) wx = eye (ncols R)"
proof -
  obtain u s vt where r: "r = (u, s, vt)" by (cases r)
  let ?n = "nrows R" and ?d = "ncols R"
  let ?D = "diag (map (\<lambda>\<sigma>. 1 / \<sigma>) s)"
  have k: "min ?n ?d = ?d" using assms(3) by simp
  have u: "mat_dim ?n ?d u" and v: "mat_dim ?d ?d vt" and ls: "length s = ?d"
    and uu: "dot_raw (transpose_mat u) u = eye ?d"
    and vv: "dot_raw vt (transpose_mat vt) = eye ?d"
    and vv': "dot_raw (transpose_mat vt) vt = eye ?d"
    and R: "dot_raw (dot_raw u (diag s)) vt = R"
    using assms(2) by (simp_all add: reduced_svd_def r k Let_def)
  have pos: "list_all (\<lambda>\<sigma>. 0 < \<sigma>) s" using assms(4) by (simp add: r)
  have S: "mat_dim ?d ?d (diag s)" using mat_dim_diag [of s] ls by simp
  have D: "mat_dim ?d ?d ?D" using mat_dim_diag_map [of s "\<lambda>\<sigma>. 1 / \<sigma>"] ls by simp
  have SD: "dot_raw (diag s) ?D = eye ?d" using diag_dot_inverse [OF pos] ls by simp
  have vt: "mat_dim ?d ?d (transpose_mat vt)" using v by simp
  have ut: "mat_dim ?d ?n (transpose_mat u)" using u by simp
  let ?a = "dot_raw (transpose_mat vt) ?D"
  let ?wx = "dot_raw ?a vt"
  have a: "mat_dim ?d ?d ?a" by (rule mat_dim_dot [OF vt D])
  have wx: "mat_dim ?d ?d ?wx" by (rule mat_dim_dot [OF a v])
  have wt: "whitening_transformation xp R = Inr ?wx"
    by (simp add: whitening_transformation_def assms(1) r and_then_def dot_dims [OF vt D]
        dot_dims [OF a v])
  have uS: "mat_dim ?n ?d (dot_raw u (diag s))" by (rule mat_dim_dot [OF u S])
  have Rd: "mat_dim ?n ?d R" using mat_dim_dot [OF uS v] R by simp
  have Rt: "mat_dim ?d ?n (transpose_mat R)" using Rd by simp
  have Dv: "mat_dim ?d ?d (dot_raw ?D vt)" by (rule mat_dim_dot [OF D v])
  have wx': "?wx = dot_raw (transpose_mat vt) (dot_raw ?D vt)"
    by (rule dot_assoc [OF vt D v])
  have "dot_raw vt ?wx = dot_raw vt (dot_raw (transpose_mat vt) (dot_raw ?D vt))"
    by (simp only: wx')
  also have "\<dots> = dot_raw (dot_raw vt (transpose_mat vt)) (dot_raw ?D vt)"
    by (rule dot_assoc [OF v vt Dv, symmetric])
  also have "\<dots> = dot_raw ?D vt"
    by (simp add: vv dot_eye_left [OF Dv])
  finally have vwx: "dot_raw vt ?wx = dot_raw ?D vt" .
  have "dot_raw R ?wx = dot_raw (dot_raw (dot_raw u (diag s)) vt) ?wx"
    by (simp only: R)
  also have "\<dots> = dot_raw (dot_raw u (diag s)) (dot_raw vt ?wx)"
    by (rule dot_assoc [OF uS v wx])
  also have "\<dots> = dot_raw (dot_raw u (diag s)) (dot_raw ?D vt)"
    by (simp only: vwx)
  also have "\<dots> = dot_raw (dot_raw (dot_raw u (diag s)) ?D) vt"
    by (rule dot_assoc [OF uS D v, symmetric])
  also have "dot_raw (dot_raw u (diag s)) ?D = dot_raw u (dot_raw (diag s) ?D)"
    by (rule dot_assoc [OF u S D])
  also have "\<dots> = u"
    by (simp add: SD dot_eye_right [OF u])
  finally have Rwx: "dot_raw R ?wx = dot_raw u vt" .
  have uv: "mat_dim ?n ?d (dot_raw u vt)" by (rule mat_dim_dot [OF u v])
  have wxt: "mat_dim ?d ?d (transpose_mat ?wx)" using wx by simp
  have "dot_raw (dot_raw (transpose_mat ?wx) (dot_raw (transpose_mat R) R)) ?wx
      = dot_raw (dot_raw (dot_raw (transpose_mat ?wx) (transpose_mat R)) R) ?wx"
    by (simp only: dot_assoc [OF wxt Rt Rd])
  also have "\<dots> = dot_raw (dot_raw (transpose_mat ?wx) (transpose_mat R)) (dot_raw R ?wx)"
    by (rule dot_assoc [OF mat_dim_dot [OF wxt Rt] Rd wx])
  also have "dot_raw (transpose_mat ?wx) (transpose_mat R) = transpose_mat (dot_raw R ?wx)"
    by (rule transpose_dot [OF Rd wx, symmetric])
  also have "dot_raw (transpose_mat (dot_raw R ?wx)) (dot_raw R ?wx)
      = dot_raw (transpose_mat (dot_raw u vt)) (dot_raw u vt)"
    by (simp only: Rwx)
  also have "transpose_mat (dot_raw u vt) = dot_raw (transpose_mat vt) (transpose_mat u)"
    by (rule transpose_dot [OF u v])
  also have "dot_raw (dot_raw (transpose_mat vt) (transpose_mat u)) (dot_raw u vt)
      = dot_raw (transpose_mat vt) (dot_raw (transpose_mat u) (dot_raw u vt))"
    by (rule dot_assoc [OF vt ut uv])
  also have "dot_raw (transpose_mat u) (dot_raw u vt) = dot_raw (dot_raw (transpose_mat u) u) vt"
    by (rule dot_assoc [OF ut u v, symmetric])
  also have "\<dots> = vt"
    by (simp add: uu dot_eye_left [OF v])
  finally have "dot_raw (dot_raw (transpose_mat ?wx) (dot_raw (transpose_mat R) R)) ?wx = eye ?d"
    by (simp add: vv')
  with wt show ?thesis by simp
qed

lemma take_rows_valid:
  "list_all (\<lambda>i. i < nrows A) indices \<Longrightarrow> take_rows A indices = Inr (selected_rows A indices)"
  by (simp add: take_rows_def selected_rows_def)

lemma selected_rows_dims [simp]:
  "nrows (selected_rows A indices) = length indices" "ncols (selected_rows A indices) = ncols A"
  by (simp_all add: selected_rows_def)

lemma transpose_dims [simp]:
  "nrows (transpose_mat A) = ncols A" "ncols (transpose_mat A) = nrows A"
  by (simp_all add: transpose_mat_def)

lemma dot_raw_dims [simp]:
  "nrows (dot_raw A B) = nrows A" "ncols (dot_raw A B) = ncols B"
  by (simp_all add: dot_raw_def)

text \<open>
  C2, as the code has it. For a dictionary whose indices are rows of \<open>x\<close> and \<open>z\<close>, with as
  many source as target indices, and embeddings of equal width: the matrix decomposed is
  \<open>Zdict\<^sup>t \<cdot> Xdict\<close>, and when the routine returns \<open>(u, s, vt)\<close> of the shapes of a
  decomposition with full matrices, the mapping matrix is \<open>vt\<^sup>t \<cdot> u\<^sup>t\<close> and the result is
  \<open>x \<cdot> w\<close> with \<open>z\<close> unchanged.
\<close>

theorem orthogonal_mapping_computes:
  assumes "list_all (\<lambda>i. i < nrows x) src" and "list_all (\<lambda>i. i < nrows z) trg"
    and "length src = length trg" and "ncols x = ncols z"
    and "m = dot_raw (transpose_mat (selected_rows z trg)) (selected_rows x src)"
    and "linalg_svd xp True m = Inr (u, s, vt)"
    and "mat_dim (nrows m) (nrows m) u" and "mat_dim (ncols m) (ncols m) vt"
  shows "procrustes_matrix x z src trg = Inr m
    \<and> orthogonal_w xp x z src trg = Inr (dot_raw (transpose_mat vt) (transpose_mat u))
    \<and> orthogonal_mapping xp x z src trg
        = Inr (dot_raw x (dot_raw (transpose_mat vt) (transpose_mat u)), z)"
proof -
  have pm: "procrustes_matrix x z src trg = Inr m"
    by (simp add: procrustes_matrix_def take_rows_valid assms(1,2,3,5) and_then_def dot_def)
  have d: "nrows m = ncols z" "ncols m = ncols x"
    by (simp_all add: assms(5))
  have u: "nrows u = ncols z" "ncols u = ncols z" and v: "nrows vt = ncols x" "ncols vt = ncols x"
    using assms(7,8) by (simp_all add: mat_dim_def d)
  have w: "orthogonal_w xp x z src trg = Inr (dot_raw (transpose_mat vt) (transpose_mat u))"
    by (simp add: orthogonal_w_def pm assms(4,6) and_then_def dot_def u v)
  have "orthogonal_mapping xp x z src trg
        = Inr (dot_raw x (dot_raw (transpose_mat vt) (transpose_mat u)), z)"
    by (simp add: orthogonal_mapping_def w and_then_def dot_def v)
  with pm w show ?thesis by simp
qed

lemma training_loop_raises:
  assumes "update_mapping xp a x z src trg = Inl e"
  shows "training_loop (iteration xp rest ev a val_dict s2i t2i x z) thr (initial_state src trg)
    = Some (Inl e)"
proof -
  have "iteration xp rest ev a val_dict s2i t2i x z (initial_state src trg) = Inl e"
    using assms by (simp add: iteration_def initial_state_def and_then_def)
  then show ?thesis
    by (simp add: training_loop_first)
qed

lemma unconstrained_mapping_cases:
  assumes "list_all (\<lambda>i. i < nrows x) src" and "list_all (\<lambda>i. i < nrows z) trg"
    and "length src = length trg"
    and "g = dot_raw (transpose_mat (selected_rows x src)) (selected_rows x src)"
  shows "unconstrained_mapping xp x z src trg =
      (case linalg_inv xp g of
         Inl e \<Rightarrow> Inl e
       | Inr gi \<Rightarrow>
           if nrows gi = ncols x \<and> ncols gi = ncols x
           then Inr (dot_raw x (dot_raw (dot_raw gi (transpose_mat (selected_rows x src)))
                  (selected_rows z trg)), z)
           else Inl ValueError)"
proof (cases "linalg_inv xp g")
  case (Inl e)
  then show ?thesis
    by (simp add: unconstrained_mapping_def take_rows_valid assms(1,4) and_then_def dot_def)
next
  case (Inr gi)
  then show ?thesis
    by (simp add: unconstrained_mapping_def take_rows_valid assms(1,2,3) assms(4) [symmetric]
        and_then_def dot_def)
qed

text \<open>
  C7, as the code has it. For a dictionary whose indices are rows of \<open>x\<close> and \<open>z\<close>, with
  \<open>g = Xdict\<^sup>t \<cdot> Xdict\<close>, the solver hands \<open>g\<close> to the inverse routine of the library and
  checks nothing itself. When the routine returns the inverse \<open>gi\<close> of \<open>g\<close>, the result is
  \<open>x \<cdot> ((gi \<cdot> Xdict\<^sup>t) \<cdot> Zdict)\<close> with \<open>z\<close> unchanged. When the routine raises, the mapping raises
  the same error and the loop ends with it in its first iteration: nothing catches it. A
  routine that returns true inverses only must raise when \<open>g\<close> is singular, and then the run
  ends so. Whatever matrix of the shape of \<open>g\<close> the routine returns, inverse or not, the
  solver computes the result with it and raises nothing.
\<close>

theorem unconstrained_mapping_result:
  assumes "list_all (\<lambda>i. i < nrows x) src" and "list_all (\<lambda>i. i < nrows z) trg"
    and "length src = length trg"
    and "g = dot_raw (transpose_mat (selected_rows x src)) (selected_rows x src)"
    and "unconstrained a" and "\<not> orthogonal a"
  shows "(\<forall>gi. linalg_inv xp g = Inr gi \<and> inverse_of g gi \<longrightarrow>
            update_mapping xp a x z src trg =
              Inr (dot_raw x (dot_raw (dot_raw gi (transpose_mat (selected_rows x src)))
                     (selected_rows z trg)), z))
    \<and> (\<forall>e. linalg_inv xp g = Inl e \<longrightarrow>
            update_mapping xp a x z src trg = Inl e
            \<and> training_loop (iteration xp rest ev a val_dict s2i t2i x z) thr (initial_state src trg)
                = Some (Inl e))
    \<and> (singular g \<and> (\<forall>gi. linalg_inv xp g = Inr gi \<longrightarrow> inverse_of g gi) \<longrightarrow>
          (\<exists>e. linalg_inv xp g = Inl e
             \<and> training_loop (iteration xp rest ev a val_dict s2i t2i x z) thr (initial_state src trg)
                 = Some (Inl e)))
    \<and> (\<forall>gi. linalg_inv xp g = Inr gi \<and> nrows gi = ncols x \<and> ncols gi = ncols x \<longrightarrow>
            update_mapping xp a x z src trg =
              Inr (dot_raw x (dot_raw (dot_raw gi (transpose_mat (selected_rows x src)))
                     (selected_rows z trg)), z))"
proof -
  let ?xd = "selected_rows x src" and ?zd = "selected_rows z trg"
  note c = unconstrained_mapping_cases [OF assms(1,2,3,4), of xp]
  have u: "update_mapping xp a x z src trg = unconstrained_mapping xp x z src trg"
    using assms(5,6) by (simp add: update_mapping_def)
  have shape: "update_mapping xp a x z src trg =
      Inr (dot_raw x (dot_raw (dot_raw gi (transpose_mat ?xd)) ?zd), z)"
    if "linalg_inv xp g = Inr gi" "nrows gi = ncols x" "ncols gi = ncols x" for gi
    using that by (simp add: u c)
  have inv: "update_mapping xp a x z src trg =
      Inr (dot_raw x (dot_raw (dot_raw gi (transpose_mat ?xd)) ?zd), z)"
    if "linalg_inv xp g = Inr gi" "inverse_of g gi" for gi
  proof -
    from that(2) have "nrows gi = ncols x" "ncols gi = ncols x"
      by (simp_all add: inverse_of_def mat_dim_def assms(4))
    with that(1) show ?thesis by (rule shape)
  qed
  have raise: "update_mapping xp a x z src trg = Inl e
      \<and> training_loop (iteration xp rest ev a val_dict s2i t2i x z) thr (initial_state src trg)
          = Some (Inl e)"
    if "linalg_inv xp g = Inl e" for e
  proof -
    from that have "update_mapping xp a x z src trg = Inl e"
      by (simp add: u c)
    then show ?thesis
      by (simp add: training_loop_raises)
  qed
  have sing: "\<exists>e. linalg_inv xp g = Inl e
      \<and> training_loop (iteration xp rest ev a val_dict s2i t2i x z) thr (initial_state src trg)
          = Some (Inl e)"
    if "singular g" "\<forall>gi. linalg_inv xp g = Inr gi \<longrightarrow> inverse_of g gi"
  proof (cases "linalg_inv xp g")
    case (Inl e)
    with raise [OF Inl] show ?thesis by blast
  next
    case (Inr gi)
    with that show ?thesis by (simp add: singular_def)
  qed
  from inv raise sing shape show ?thesis
    by blast
qed

lemmas ex_mats = rot_def rot_t_def tall_def tall_u_def wide_def one_x_def one_z_def singular_x_def
  ex_xw_def ex_zw_def both_rows_def

lemma table_backend_decompositions:
  "full_svd rot_t (rot_t, [1, 1], eye 2)"
  "full_svd (Mat 2 2 [[0, 0], [1, 0]]) (Mat 2 2 [[0, 1], [1, 0]], [1, 0], eye 2)"
  "full_svd (Mat 1 1 [[0]]) (eye 1, [0], eye 1)"
  "reduced_svd tall (tall_u, [2, 1], rot)"
  "reduced_svd wide (eye 1, [1], wide)"
  by (simp_all add: full_svd_def reduced_svd_def orthogonal_mat_def mat_dim_def wf_mat_def
      rect_diag_def ex_mats mat_eval)

theorem orthogonal_mapping_computes_witness:
  "list_all (\<lambda>i. i < nrows (eye 2)) both_rows \<and> list_all (\<lambda>i. i < nrows rot) both_rows
   \<and> ncols (eye 2) = ncols rot
   \<and> linalg_svd table_backend True rot_t = Inr (rot_t, [1, 1], eye 2)
   \<and> procrustes_matrix (eye 2) rot both_rows both_rows = Inr rot_t
   \<and> orthogonal_mapping table_backend (eye 2) rot both_rows both_rows = Inr (rot, rot)"
proof -
  have 1: "list_all (\<lambda>i. i < nrows (eye 2)) both_rows" "list_all (\<lambda>i. i < nrows rot) both_rows"
    "length both_rows = length both_rows" "ncols (eye 2) = ncols rot"
    by (simp_all add: ex_mats mat_eval)
  have 2: "rot_t = dot_raw (transpose_mat (selected_rows rot both_rows)) (selected_rows (eye 2) both_rows)"
    by (simp add: selected_rows_def ex_mats mat_eval)
  have 3: "linalg_svd table_backend True rot_t = Inr (rot_t, [1, 1], eye 2)"
    by (simp add: table_backend_def)
  have 4: "mat_dim (nrows rot_t) (nrows rot_t) rot_t" "mat_dim (ncols rot_t) (ncols rot_t) (eye 2)"
    by (simp_all add: mat_dim_def wf_mat_def ex_mats mat_eval)
  have 5: "dot_raw (eye 2) (dot_raw (transpose_mat (eye 2)) (transpose_mat rot_t)) = rot"
    by (simp add: ex_mats mat_eval)
  from orthogonal_mapping_computes [OF 1 2 3 4] 1 3 show ?thesis
    by (simp add: 5)
qed

text \<open>
  C2, as stated, fails: for one pair of words of dimension two the program decomposes a
  matrix of two rows and two columns and maps \<open>x\<close> onto \<open>z\<close>, where \<open>Zdict \<cdot> Xdict\<^sup>t\<close> has one
  entry and the mapping built from it cannot be applied to \<open>x\<close>.
\<close>

theorem orthogonal_mapping_counterexample:
  "procrustes_matrix one_x one_z [0] [0] = Inr (Mat 2 2 [[0, 0], [1, 0]])
   \<and> spec_procrustes_matrix one_x one_z [0] [0] = Inr (Mat 1 1 [[0]])
   \<and> orthogonal_mapping table_backend one_x one_z [0] [0] = Inr (one_z, one_z)
   \<and> spec_orthogonal_mapping table_backend one_x one_z [0] [0] = Inl ValueError"
proof -
  have 1: "procrustes_matrix one_x one_z [0] [0] = Inr (Mat 2 2 [[0, 0], [1, 0]])"
    by (simp add: procrustes_matrix_def ex_mats mat_eval)
  have 2: "spec_procrustes_matrix one_x one_z [0] [0] = Inr (Mat 1 1 [[0]])"
    by (simp add: spec_procrustes_matrix_def ex_mats mat_eval)
  have s1: "linalg_svd table_backend True (Mat 2 2 [[0, 0], [1, 0]])
      = Inr (Mat 2 2 [[0, 1], [1, 0]], [1, 0], eye 2)"
    by (simp add: table_backend_def ex_mats)
  have s2: "linalg_svd table_backend True (Mat 1 1 [[0]]) = Inr (eye 1, [0], eye 1)"
    by (simp add: table_backend_def ex_mats)
  have 3: "orthogonal_mapping table_backend one_x one_z [0] [0] = Inr (one_z, one_z)"
    unfolding orthogonal_mapping_def orthogonal_w_def 1 and_then_def sum.case s1
    by (simp add: ex_mats mat_eval)
  have 4: "spec_orthogonal_mapping table_backend one_x one_z [0] [0] = Inl ValueError"
    unfolding spec_orthogonal_mapping_def 2 and_then_def sum.case s2
    by (simp add: ex_mats mat_eval)
  from 1 2 3 4 show ?thesis by simp
qed

theorem orthogonal_w_is_orthogonal_witness:
  "procrustes_matrix (eye 2) rot both_rows both_rows = Inr rot_t
   \<and> linalg_svd table_backend True rot_t = Inr (rot_t, [1, 1], eye 2)
   \<and> full_svd rot_t (rot_t, [1, 1], eye 2)
   \<and> orthogonal_w table_backend (eye 2) rot both_rows both_rows = Inr rot
   \<and> dot (transpose_mat rot) rot = Inr (eye 2)"
proof -
  have 1: "procrustes_matrix (eye 2) rot both_rows both_rows = Inr rot_t"
    by (simp add: procrustes_matrix_def ex_mats mat_eval)
  have 2: "linalg_svd table_backend True rot_t = Inr (rot_t, [1, 1], eye 2)"
    by (simp add: table_backend_def)
  have 3: "nrows rot_t = ncols rot_t"
    by (simp add: ex_mats)
  have 4: "orthogonal_w table_backend (eye 2) rot both_rows both_rows = Inr rot"
    unfolding orthogonal_w_def 1 and_then_def sum.case 2
    by (simp add: ex_mats mat_eval)
  from orthogonal_w_is_orthogonal [OF 1 2 table_backend_decompositions(1) 3] 4
  have "dot (transpose_mat rot) rot = Inr (eye (ncols rot_t))"
    by auto
  then have "dot (transpose_mat rot) rot = Inr (eye 2)"
    by (simp add: rot_t_def)
  with 1 2 4 table_backend_decompositions(1) show ?thesis
    by simp
qed

theorem whitening_of_full_column_rank_witness:
  "linalg_svd table_backend False tall = Inr (tall_u, [2, 1], rot)
   \<and> reduced_svd tall (tall_u, [2, 1], rot)
   \<and> ncols tall \<le> nrows tall
   \<and> whitening_transformation table_backend tall = Inr (Mat 2 2 [[41 / 50, - 6 / 25], [- 6 / 25, 17 / 25]])
   \<and> dot_raw (dot_raw (transpose_mat (Mat 2 2 [[41 / 50, - 6 / 25], [- 6 / 25, 17 / 25]]))
        (dot_raw (transpose_mat tall) tall)) (Mat 2 2 [[41 / 50, - 6 / 25], [- 6 / 25, 17 / 25]])
      = eye 2"
proof -
  have 1: "linalg_svd table_backend False tall = Inr (tall_u, [2, 1], rot)"
    by (simp add: table_backend_def)
  have 2: "ncols tall \<le> nrows tall"
    by (simp add: tall_def)
  have 3: "list_all (\<lambda>\<sigma>. 0 < \<sigma>) (fst (snd (tall_u, [2, 1 :: real], rot)))"
    by simp
  have 4: "whitening_transformation table_backend tall
      = Inr (Mat 2 2 [[41 / 50, - 6 / 25], [- 6 / 25, 17 / 25]])"
    unfolding whitening_transformation_def 1 and_then_def sum.case
    by (simp add: ex_mats mat_eval)
  from whitening_of_full_column_rank [OF 1 table_backend_decompositions(4) 2 3] 4
  have "dot_raw (dot_raw (transpose_mat (Mat 2 2 [[41 / 50, - 6 / 25], [- 6 / 25, 17 / 25]]))
        (dot_raw (transpose_mat tall) tall)) (Mat 2 2 [[41 / 50, - 6 / 25], [- 6 / 25, 17 / 25]])
      = eye (ncols tall)"
    by auto
  then show ?thesis
    using 1 2 4 table_backend_decompositions(4) by (simp add: tall_def)
qed

text \<open>
  C5, as stated, fails for a matrix of full rank with fewer rows than columns: the
  product is a projection, not the identity.
\<close>

theorem whitening_full_row_rank_counterexample:
  "linalg_svd table_backend False wide = Inr (eye 1, [1], wide)
   \<and> reduced_svd wide (eye 1, [1], wide)
   \<and> list_all (\<lambda>\<sigma>. 0 < \<sigma>) [1 :: real]
   \<and> whitening_transformation table_backend wide = Inr (Mat 2 2 [[1, 0], [0, 0]])
   \<and> dot_raw (dot_raw (transpose_mat (Mat 2 2 [[1, 0], [0, 0]])) (dot_raw (transpose_mat wide) wide))
        (Mat 2 2 [[1, 0], [0, 0]]) = Mat 2 2 [[1, 0], [0, 0]]
   \<and> Mat 2 2 [[1, 0], [0, 0]] \<noteq> eye 2"
proof -
  have 1: "linalg_svd table_backend False wide = Inr (eye 1, [1], wide)"
    by (simp add: table_backend_def ex_mats)
  have 2: "whitening_transformation table_backend wide = Inr (Mat 2 2 [[1, 0], [0, 0]])"
    unfolding whitening_transformation_def 1 and_then_def sum.case
    by (simp add: ex_mats mat_eval)
  have 3: "dot_raw (dot_raw (transpose_mat (Mat 2 2 [[1, 0], [0, 0]])) (dot_raw (transpose_mat wide) wide))
        (Mat 2 2 [[1, 0], [0, 0]]) = Mat 2 2 [[1, 0], [0, 0]]"
    by (simp add: ex_mats mat_eval)
  have 4: "Mat 2 2 [[1, 0], [0, 0]] \<noteq> eye 2"
    by (simp add: mat_eval)
  from 1 2 3 4 table_backend_decompositions(5) show ?thesis
    by simp
qed

lemma singular_example: "singular (Mat 2 2 [[2, 0], [0, 0]])"
proof -
  have False if "inverse_of (Mat 2 2 [[2, 0], [0, 0]]) gi" for gi
  proof -
    from that have "ncols gi = 2" and "dot_raw (Mat 2 2 [[2, 0], [0, 0]]) gi = eye 2"
      by (simp_all add: inverse_of_def mat_dim_def)
    then show False
      by (simp add: dot_raw_def build_def entry_def eye_def upt_num)
  qed
  then show ?thesis
    by (auto simp: singular_def)
qed

theorem unconstrained_mapping_result_witness:
  "list_all (\<lambda>i. i < nrows ex_xw) both_rows \<and> list_all (\<lambda>i. i < nrows ex_zw) both_rows
   \<and> unconstrained unconstrained_args \<and> orthogonal unconstrained_args = False
   \<and> linalg_inv table_backend (Mat 2 2 [[2, 1], [1, 1]]) = Inr (Mat 2 2 [[1, - 1], [- 1, 2]])
   \<and> inverse_of (Mat 2 2 [[2, 1], [1, 1]]) (Mat 2 2 [[1, - 1], [- 1, 2]])
   \<and> update_mapping table_backend unconstrained_args ex_xw ex_zw both_rows both_rows
       = Inr (Mat 2 2 [[1, 0], [0, 2]], ex_zw)
   \<and> singular (Mat 2 2 [[2, 0], [0, 0]])
   \<and> linalg_inv table_backend (Mat 2 2 [[2, 0], [0, 0]]) = Inl LinAlgError
   \<and> update_mapping table_backend unconstrained_args singular_x ex_zw both_rows both_rows
       = Inl LinAlgError
   \<and> training_loop
        (iteration table_backend no_rest example_files unconstrained_args None Map.empty Map.empty
           singular_x ex_zw)
        (threshold unconstrained_args) (initial_state both_rows both_rows)
       = Some (Inl LinAlgError)"
proof -
  have v: "list_all (\<lambda>i. i < nrows ex_xw) both_rows" "list_all (\<lambda>i. i < nrows ex_zw) both_rows"
    "list_all (\<lambda>i. i < nrows singular_x) both_rows" "length both_rows = length both_rows"
    by (simp_all add: ex_mats)
  have g1: "Mat 2 2 [[2, 1], [1, 1]]
      = dot_raw (transpose_mat (selected_rows ex_xw both_rows)) (selected_rows ex_xw both_rows)"
    by (simp add: selected_rows_def ex_mats mat_eval)
  have g2: "Mat 2 2 [[2, 0], [0, 0]]
      = dot_raw (transpose_mat (selected_rows singular_x both_rows)) (selected_rows singular_x both_rows)"
    by (simp add: selected_rows_def ex_mats mat_eval)
  have i1: "linalg_inv table_backend (Mat 2 2 [[2, 1], [1, 1]]) = Inr (Mat 2 2 [[1, - 1], [- 1, 2]])"
    by (simp add: table_backend_def inv_2x2_def)
  have i2: "linalg_inv table_backend (Mat 2 2 [[2, 0], [0, 0]]) = Inl LinAlgError"
    by (simp add: table_backend_def inv_2x2_def)
  have c1: "inverse_of (Mat 2 2 [[2, 1], [1, 1]]) (Mat 2 2 [[1, - 1], [- 1, 2]])"
    by (simp add: inverse_of_def mat_dim_def wf_mat_def mat_eval)
  have a: "unconstrained unconstrained_args" "\<not> orthogonal unconstrained_args"
    by (simp_all add: unconstrained_args_def args_eval)
  have r: "dot_raw ex_xw (dot_raw (dot_raw (Mat 2 2 [[1, - 1], [- 1, 2]])
      (transpose_mat (selected_rows ex_xw both_rows))) (selected_rows ex_zw both_rows))
      = Mat 2 2 [[1, 0], [0, 2]]"
    by (simp add: selected_rows_def ex_mats mat_eval)
  note t1 = unconstrained_mapping_result [OF v(1,2,4) g1 a, of table_backend]
  note t2 = unconstrained_mapping_result [OF v(3,2,4) g2 a, of table_backend
      no_rest example_files None Map.empty Map.empty "threshold unconstrained_args"]
  from t1 i1 c1 have "update_mapping table_backend unconstrained_args ex_xw ex_zw both_rows both_rows
       = Inr (dot_raw ex_xw (dot_raw (dot_raw (Mat 2 2 [[1, - 1], [- 1, 2]])
      (transpose_mat (selected_rows ex_xw both_rows))) (selected_rows ex_zw both_rows)), ex_zw)"
    by blast
  then have 1: "update_mapping table_backend unconstrained_args ex_xw ex_zw both_rows both_rows
       = Inr (Mat 2 2 [[1, 0], [0, 2]], ex_zw)"
    by (simp only: r)
  from t2 i2 have 2: "update_mapping table_backend unconstrained_args singular_x ex_zw both_rows both_rows
      = Inl LinAlgError"
    and 3: "training_loop
        (iteration table_backend no_rest example_files unconstrained_args None Map.empty Map.empty
           singular_x ex_zw)
        (threshold unconstrained_args) (initial_state both_rows both_rows)
       = Some (Inl LinAlgError)"
    by blast+
  from v(1,2) a i1 c1 i2 1 2 3 singular_example show ?thesis
    by simp
qed

lemma deficient_singular: "singular deficient_g"
proof -
  have False if "inverse_of deficient_g gi" for gi
  proof -
    from that have "ncols gi = 2" and "dot_raw deficient_g gi = eye 2"
      by (simp_all add: inverse_of_def mat_dim_def deficient_g_def)
    then have "rows gi ! 0 ! 0 / 50 + 3 * (rows gi ! 1 ! 0) / 50 = 1"
      and "3 * (rows gi ! 0 ! 0) / 50 + 9 * (rows gi ! 1 ! 0) / 50 = 0"
      by (simp_all add: deficient_g_def dot_raw_def build_def entry_def eye_def upt_num)
    then show False
      by simp
  qed
  then show ?thesis
    by (auto simp: singular_def)
qed

text \<open>
  C7, as stated, fails: rows of rank one do not by themselves end the run. Nothing in the
  solver checks the rank, so with an inverse routine that returns a matrix for the singular
  \<open>Xdict\<^sup>t \<cdot> Xdict\<close> the mapping is computed with that matrix and the loop ends without an
  error.
\<close>

theorem unconstrained_singular_counterexample:
  "dot (transpose_mat deficient_x) deficient_x = Inr deficient_g
   \<and> singular deficient_g
   \<and> linalg_inv inexact_backend deficient_g
       = Inr (Mat 2 2 [[- (9 / 50) * 2 ^ 60, (3 / 50) * 2 ^ 60],
                       [(3 / 50) * 2 ^ 60, - (1 / 50) * 2 ^ 60]])
   \<and> unconstrained_mapping inexact_backend deficient_x ex_zw both_rows both_rows
       = Inr (Mat 2 2 [[0, 0], [0, 0]], ex_zw)
   \<and> training_loop
        (iteration inexact_backend no_rest example_files unconstrained_args None Map.empty Map.empty
           deficient_x ex_zw)
        (threshold unconstrained_args) (initial_state both_rows both_rows)
       = Some (Inr after_singular)"
proof -
  have 1: "dot (transpose_mat deficient_x) deficient_x = Inr deficient_g"
    by (simp add: deficient_x_def deficient_g_def mat_eval)
  have 2: "linalg_inv inexact_backend deficient_g
       = Inr (Mat 2 2 [[- (9 / 50) * 2 ^ 60, (3 / 50) * 2 ^ 60],
                       [(3 / 50) * 2 ^ 60, - (1 / 50) * 2 ^ 60]])"
    by (simp add: inexact_backend_def inexact_inv_def deficient_g_def)
  have 3: "unconstrained_mapping inexact_backend deficient_x ex_zw both_rows both_rows
       = Inr (Mat 2 2 [[0, 0], [0, 0]], ex_zw)"
    unfolding unconstrained_mapping_def
    by (simp add: deficient_x_def ex_mats mat_eval inexact_backend_def inexact_inv_def)
  have f: "unconstrained unconstrained_args" "\<not> orthogonal unconstrained_args"
    "\<not> self_learning unconstrained_args" "test_dict unconstrained_args = None"
    "threshold unconstrained_args = Fin (1 / 1000000)"
    by (simp_all add: unconstrained_args_def args_eval)
  have 4: "iteration inexact_backend no_rest example_files unconstrained_args None Map.empty Map.empty
      deficient_x ex_zw (initial_state both_rows both_rows) = Inr after_singular"
    by (simp add: iteration_def update_mapping_def f 3 evaluate_test_def and_then_def
        initial_state_def after_singular_def)
  have 5: "training_loop
        (iteration inexact_backend no_rest example_files unconstrained_args None Map.empty Map.empty
           deficient_x ex_zw)
        (threshold unconstrained_args) (initial_state both_rows both_rows)
       = Some (Inr after_singular)"
    apply (simp add: training_loop_first 4)
    apply (subst training_loop.simps)
    apply (simp add: continues_def after_singular_def f float_sub_def)
    done
  from 1 2 3 5 deficient_singular show ?thesis
    by simp
qed

end
